theory Spec2Isabelle
  imports Complex_Main "HOL-Library.Word"
begin

section \<open>The JNI bridge \<open>llama_bridge.cpp\<close>: data\<close>

text \<open>
  The bridge is three JNI entry points over llama.cpp. llama.cpp itself, the JVM and the
  Android log are external: they are parameters of the model. The engine's state (model
  weights, contexts with their key/value caches, sampler objects) is an opaque world
  \<open>'w\<close>; every engine function that may change it takes the world and returns the new
  one. What the bridge does to its surroundings is recorded as the list of the calls it
  makes, in order.
\<close>

type_synonym jint = "32 word" \<comment> \<open>\<open>jint\<close>, \<open>int\<close>, \<open>int32_t\<close>: read with \<open>sint\<close>\<close>
type_synonym jlong = "64 word"
type_synonym llama_token = "32 word" \<comment> \<open>\<open>typedef int32_t llama_token\<close>\<close>
type_synonym ptr = nat \<comment> \<open>a pointer to an engine object; 0 is \<open>nullptr\<close>\<close>

text \<open>
  \<open>jfloat\<close> values: the finite ones are read as the reals they denote (so \<open>-0.0f\<close> and
  \<open>0.0f\<close> are the same value, as they are for every comparison the bridge makes), the
  rest are the infinities and NaN. Only comparisons are made on them.
\<close>

datatype jfloat = Finite real | PInf | NInf | NaN

fun fless :: "jfloat \<Rightarrow> jfloat \<Rightarrow> bool" where
  "fless NaN _ = False"
| "fless _ NaN = False"
| "fless (Finite a) (Finite b) = (a < b)"
| "fless (Finite a) PInf = True"
| "fless (Finite a) NInf = False"
| "fless PInf _ = False"
| "fless NInf NInf = False"
| "fless NInf _ = True"

fun feq :: "jfloat \<Rightarrow> jfloat \<Rightarrow> bool" where
  "feq NaN _ = False"
| "feq _ NaN = False"
| "feq a b = (a = b)"

definition std_max :: "jfloat \<Rightarrow> jfloat \<Rightarrow> jfloat" where
  \<comment> \<open>\<open>std::max(a, b)\<close> is \<open>(a < b) ? b : a\<close>\<close>
  "std_max a b = (if fless a b then b else a)"

definition std_clamp :: "jfloat \<Rightarrow> jfloat \<Rightarrow> jfloat \<Rightarrow> jfloat" where
  \<comment> \<open>\<open>std::clamp(v, lo, hi)\<close> is \<open>(v < lo) ? lo : (hi < v) ? hi : v\<close>\<close>
  "std_clamp v lo hi = (if fless v lo then lo else if fless hi v then hi else v)"

definition f_0_95 :: jfloat where
  \<comment> \<open>the literal \<open>0.95f\<close>: the binary32 value nearest to 0.95\<close>
  "f_0_95 = Finite (15938355 / 16777216)"

record LlamaHandle =
  model :: ptr
  ctx :: ptr
  vocab :: ptr
  n_ctx :: jint

record llama_batch =
  n_tokens :: int
  token :: "llama_token list"

record llama_context_params =
  cp_n_ctx :: "32 word"
  cp_n_batch :: "32 word"
  cp_n_threads :: int
  cp_no_perf :: bool

subsection \<open>The engine, the host and the calls\<close>

text \<open>
  The functions of \<open>llama.h\<close> the bridge calls, under their own names. The vocabulary is
  a \<open>const llama_vocab *\<close> and \<open>llama_n_batch\<close>, \<open>llama_get_memory\<close> and
  \<open>llama_model_get_vocab\<close> are getters: they read no mutable state. \<open>llama_tokenize\<close>
  and \<open>llama_token_to_piece\<close> return their return code and what they wrote to the
  caller's buffer. \<open>LLAMA_DEFAULT_SEED\<close> is the header's constant.
\<close>

record 'w llama =
  llama_backend_init :: "'w \<Rightarrow> 'w"
  llama_model_load_from_file :: "'w \<Rightarrow> string \<Rightarrow> ptr \<times> 'w"
  llama_model_get_vocab :: "ptr \<Rightarrow> ptr"
  llama_init_from_model :: "'w \<Rightarrow> ptr \<Rightarrow> llama_context_params \<Rightarrow> ptr \<times> 'w"
  llama_model_free :: "'w \<Rightarrow> ptr \<Rightarrow> 'w"
  llama_free :: "'w \<Rightarrow> ptr \<Rightarrow> 'w"
  llama_get_memory :: "ptr \<Rightarrow> ptr"
  llama_memory_seq_rm :: "'w \<Rightarrow> ptr \<Rightarrow> int \<Rightarrow> int \<Rightarrow> int \<Rightarrow> bool \<times> 'w"
  llama_set_n_threads :: "'w \<Rightarrow> ptr \<Rightarrow> int \<Rightarrow> int \<Rightarrow> 'w"
  llama_tokenize :: "ptr \<Rightarrow> string \<Rightarrow> int \<Rightarrow> int \<Rightarrow> bool \<Rightarrow> bool \<Rightarrow> jint \<times> llama_token list"
  llama_n_batch :: "ptr \<Rightarrow> 32 word"
  llama_decode :: "'w \<Rightarrow> ptr \<Rightarrow> llama_batch \<Rightarrow> int \<times> 'w"
  llama_sampler_chain_init :: "'w \<Rightarrow> ptr \<times> 'w"
  llama_sampler_init_greedy :: "'w \<Rightarrow> ptr \<times> 'w"
  llama_sampler_init_top_p :: "'w \<Rightarrow> jfloat \<Rightarrow> nat \<Rightarrow> ptr \<times> 'w"
  llama_sampler_init_temp :: "'w \<Rightarrow> jfloat \<Rightarrow> ptr \<times> 'w"
  llama_sampler_init_dist :: "'w \<Rightarrow> 32 word \<Rightarrow> ptr \<times> 'w"
  llama_sampler_chain_add :: "'w \<Rightarrow> ptr \<Rightarrow> ptr \<Rightarrow> 'w"
  llama_sampler_reset :: "'w \<Rightarrow> ptr \<Rightarrow> 'w"
  llama_sampler_sample :: "'w \<Rightarrow> ptr \<Rightarrow> ptr \<Rightarrow> int \<Rightarrow> llama_token \<times> 'w"
  llama_sampler_accept :: "'w \<Rightarrow> ptr \<Rightarrow> llama_token \<Rightarrow> 'w"
  llama_sampler_free :: "'w \<Rightarrow> ptr \<Rightarrow> 'w"
  llama_vocab_is_eog :: "ptr \<Rightarrow> llama_token \<Rightarrow> bool"
  llama_token_to_piece :: "ptr \<Rightarrow> llama_token \<Rightarrow> nat \<Rightarrow> int \<Rightarrow> bool \<Rightarrow> jint \<times> string"
  LLAMA_DEFAULT_SEED :: "32 word"

text \<open>
  The host: the two JNI string functions (\<open>GetStringUTFChars\<close> gives the characters of
  a Java string as a C string, or \<open>NULL\<close>), \<open>sysconf(_SC_NPROCESSORS_ONLN)\<close> and
  \<open>operator new\<close> for a \<open>LlamaHandle\<close>.
\<close>

record 'j host =
  GetStringUTFChars :: "'j \<Rightarrow> string option"
  NewStringUTF :: "string \<Rightarrow> 'j"
  sysconf_NPROCESSORS_ONLN :: int
  new_LlamaHandle :: "(jlong \<Rightarrow> LlamaHandle option) \<Rightarrow> jlong"

datatype level = INFO | WARN | ERROR

datatype larg = LInt int | LUInt nat | LFloat jfloat | LStr string

text \<open>
  One constructor per call that acts on the engine or on the log, with the arguments of
  the call; a call that returns a value the bridge uses carries that value last.
\<close>

datatype event =
    Log level string "larg list"
  | Backend_init
  | Model_load_from_file string ptr
  | Init_from_model ptr llama_context_params ptr
  | Model_free ptr
  | Free ptr
  | Memory_seq_rm ptr int int int
  | Set_n_threads ptr int int
  | Decode ptr llama_batch int
  | Sampler_chain_init ptr
  | Sampler_init_greedy ptr
  | Sampler_init_top_p jfloat nat ptr
  | Sampler_init_temp jfloat ptr
  | Sampler_init_dist "32 word" ptr
  | Sampler_chain_add ptr ptr
  | Sampler_reset ptr
  | Sampler_sample ptr ptr int llama_token
  | Sampler_accept ptr llama_token
  | Sampler_free ptr

text \<open>
  Undefined behaviour the bridge can run into is a result of its own: a handle that is
  neither null nor the address of a live \<open>LlamaHandle\<close> is dereferenced all the same,
  and a prompt index that has left the token vector is used as a pointer into it.
\<close>

datatype ub = DanglingHandle | OutOfBounds

subsection \<open>Helpers\<close>

definition s32 :: "int \<Rightarrow> int" where
  \<comment> \<open>the value an \<open>int\<close> holds after an operation whose exact result is \<open>x\<close>: two's
      complement wrap-around to 32 bits\<close>
  "s32 x = sint (word_of_int x :: 32 word)"

definition c_str :: "string \<Rightarrow> string" where
  \<comment> \<open>what a reader of a C string sees: the characters before the first NUL\<close>
  "c_str s = takeWhile (\<lambda>c. c \<noteq> CHR 0x00) s"

definition toJStr :: "'j host \<Rightarrow> string \<Rightarrow> 'j" where
  "toJStr env s = NewStringUTF env (c_str s)"

definition std_string :: "string option \<Rightarrow> string" where
  \<comment> \<open>\<open>std::string x = p ? p : ""\<close>\<close>
  "std_string p = (case p of None \<Rightarrow> [] | Some s \<Rightarrow> c_str s)"

definition llama_batch_get_one :: "llama_token list \<Rightarrow> int \<Rightarrow> int \<Rightarrow> llama_batch" where
  \<comment> \<open>\<open>llama_batch_get_one(toks.data() + i, m)\<close>: a view of \<open>m\<close> tokens from index \<open>i\<close>\<close>
  "llama_batch_get_one toks i m = \<lparr>n_tokens = m, token = take (nat m) (drop (nat i) toks)\<rparr>"

definition piece :: "'w llama \<Rightarrow> ptr \<Rightarrow> llama_token \<Rightarrow> string" where
  \<comment> \<open>the text one token adds to the output: \<open>n = llama_token_to_piece(vocab, tok, buf,
      sizeof(buf), 0, true); if (n > 0) output.append(buf, n)\<close> with \<open>char buf[8192]\<close>\<close>
  "piece L vc tok =
     (let r = llama_token_to_piece L vc tok 8192 0 True;
          n = sint (fst r)
      in if n > 0 then take (nat n) (snd r) else [])"


section \<open>\<open>nativeLoadModel\<close>\<close>

definition context_params :: "'j host \<Rightarrow> jint \<Rightarrow> llama_context_params" where
  \<comment> \<open>\<open>cp.n_ctx = jNCtx > 0 ? (uint32_t) jNCtx : 2048; cp.n_batch = std::min<uint32_t>(512,
      cp.n_ctx); cp.n_threads = std::max(2, (int) sysconf(...)); cp.no_perf = true\<close>\<close>
  "context_params env jNCtx =
     (let nc = (if sint jNCtx > 0 then jNCtx else 2048)
      in \<lparr>cp_n_ctx = nc,
          cp_n_batch = (if (512 :: 32 word) \<le> nc then 512 else nc),
          cp_n_threads = max 2 (s32 (sysconf_NPROCESSORS_ONLN env)),
          cp_no_perf = True\<rparr>)"

definition nativeLoadModel ::
  "'w llama \<Rightarrow> 'j host \<Rightarrow> 'w \<Rightarrow> (jlong \<Rightarrow> LlamaHandle option) \<Rightarrow> 'j \<Rightarrow> jint
     \<Rightarrow> jlong \<times> 'w \<times> (jlong \<Rightarrow> LlamaHandle option) \<times> event list" where
  "nativeLoadModel L env w hs jModelPath jNCtx =
     (let path = std_string (GetStringUTFChars env jModelPath)
      in if path = [] then (0, w, hs, [Log ERROR ''Model path is empty'' []])
         else
           let w1 = llama_backend_init L w;
               ld = llama_model_load_from_file L w1 path;
               md = fst ld;
               e1 = [Backend_init, Model_load_from_file path md]
           in if md = 0
              then (0, snd ld, hs, e1 @ [Log ERROR ''Failed to load model: %s'' [LStr path]])
              else
                let vc = llama_model_get_vocab L md;
                    cp = context_params env jNCtx;
                    ini = llama_init_from_model L (snd ld) md cp;
                    cx = fst ini;
                    e2 = e1 @ [Init_from_model md cp cx]
                in if cx = 0
                   then (0, llama_model_free L (snd ini) md, hs,
                         e2 @ [Log ERROR ''Failed to init context'' [], Model_free md])
                   else
                     let a = new_LlamaHandle env hs;
                         h = \<lparr>model = md, ctx = cx, vocab = vc, n_ctx = cp_n_ctx cp\<rparr>
                     in (a, snd ini, hs(a \<mapsto> h),
                         e2 @ [Log INFO ''Model loaded. n_ctx=%d, n_batch=%u, n_threads=%d''
                                 [LInt (sint (n_ctx h)), LUInt (unat (cp_n_batch cp)),
                                  LInt (cp_n_threads cp)]]))"

section \<open>\<open>nativeCompletion\<close>\<close>

subsection \<open>Before the prompt is evaluated\<close>

function clear_loop :: "'w llama \<Rightarrow> ptr \<Rightarrow> int \<Rightarrow> 'w \<Rightarrow> 'w \<times> event list" where
  \<comment> \<open>\<open>for (int seq_id = 0; seq_id < 16; ++seq_id)
        llama_memory_seq_rm(llama_get_memory(h->ctx), seq_id, 0, -1);\<close>\<close>
  "clear_loop L cx seq_id w =
     (if seq_id < 16
      then let mem = llama_get_memory L cx;
               w1 = snd (llama_memory_seq_rm L w mem seq_id 0 (- 1));
               r = clear_loop L cx (seq_id + 1) w1
           in (fst r, Memory_seq_rm mem seq_id 0 (- 1) # snd r)
      else (w, []))"
  by pat_completeness auto
termination
  by (relation "measure (\<lambda>(L, cx, seq_id, w). nat (16 - seq_id))") auto

declare clear_loop.simps [simp del]

definition n_threads_of :: "'j host \<Rightarrow> jint \<Rightarrow> int" where
  \<comment> \<open>\<open>(nThreads > 0) ? (int) nThreads : std::max(2, (int) sysconf(_SC_NPROCESSORS_ONLN))\<close>\<close>
  "n_threads_of env nThreads =
     (if sint nThreads > 0 then sint nThreads else max 2 (s32 (sysconf_NPROCESSORS_ONLN env)))"

definition count_tokens :: "'w llama \<Rightarrow> ptr \<Rightarrow> string \<Rightarrow> int" where
  \<comment> \<open>\<open>n_prompt = -llama_tokenize(vocab, prompt.c_str(), (int) prompt.size(), nullptr, 0,
      true, true)\<close>; the negation is an \<open>int\<close> negation\<close>
  "count_tokens L vc prompt =
     sint (- fst (llama_tokenize L vc (c_str prompt) (s32 (int (length prompt))) 0 True True))"

definition fill_tokens :: "'w llama \<Rightarrow> ptr \<Rightarrow> string \<Rightarrow> int \<Rightarrow> jint \<times> llama_token list" where
  \<comment> \<open>\<open>std::vector<llama_token> toks(n_prompt); llama_tokenize(vocab, prompt.c_str(),
      (int) prompt.size(), toks.data(), n_prompt, true, true)\<close>: the return code and the
      vector afterwards, zero where the tokenizer wrote nothing\<close>
  "fill_tokens L vc prompt n_prompt =
     (let r = llama_tokenize L vc (c_str prompt) (s32 (int (length prompt))) n_prompt True True
      in (fst r, take (nat n_prompt) (snd r @ replicate (nat n_prompt - length (snd r)) 0)))"

definition predict_of :: "jint \<Rightarrow> int" where
  \<comment> \<open>\<open>const int predict = std::max(1, (int) maxTokens)\<close>\<close>
  "predict_of maxTokens = max 1 (sint maxTokens)"

definition capacity_exceeded :: "int \<Rightarrow> int \<Rightarrow> int \<Rightarrow> bool" where
  \<comment> \<open>\<open>n_prompt + predict + 8 > n_ctx\<close>, the sum in \<open>int\<close>\<close>
  "capacity_exceeded n_prompt predict nctx = (s32 (s32 (n_prompt + predict) + 8) > nctx)"

definition capacity_check :: "int \<Rightarrow> int \<Rightarrow> int \<Rightarrow> event list" where
  "capacity_check n_prompt predict nctx =
     (if capacity_exceeded n_prompt predict nctx
      then [Log WARN ''Potential context overflow: n_prompt=%d, n_predict=%d, n_ctx=%d''
              [LInt n_prompt, LInt predict, LInt nctx]]
      else [])"

subsection \<open>Prompt evaluation\<close>

definition prepend :: "event list \<Rightarrow> ub + 'a \<times> 'w \<times> event list \<Rightarrow> ub + 'a \<times> 'w \<times> event list" where
  \<comment> \<open>the calls \<open>evs\<close> were made before those of the result \<open>r\<close>\<close>
  "prepend evs r = (case r of Inl u \<Rightarrow> Inl u | Inr (a, w, e) \<Rightarrow> Inr (a, w, evs @ e))"

text \<open>
  \<open>for (int i = 0; i < n_prompt; i += n_batch)\<close>. Nothing in the bridge makes \<open>n_batch\<close>
  positive, so the loop need not end: the result is an option, \<open>None\<close> for a loop that
  runs forever. The result is whether every chunk was decoded, the world and the calls
  made.
\<close>

partial_function (option) eval_prompt ::
  "'w llama \<Rightarrow> ptr \<Rightarrow> llama_token list \<Rightarrow> int \<Rightarrow> int \<Rightarrow> int \<Rightarrow> 'w
     \<Rightarrow> (ub + bool \<times> 'w \<times> event list) option" where
  "eval_prompt L cx toks n_prompt n_batch i w =
     (if i < n_prompt
      then if i < 0 then Some (Inl OutOfBounds)
           else
             let m = min n_batch (n_prompt - i);
                 batch = llama_batch_get_one toks i m;
                 r = llama_decode L w cx batch
             in if fst r \<noteq> 0
                then Some (Inr (False, snd r,
                       [Decode cx batch (fst r),
                        Log ERROR ''llama_decode failed on prompt chunk'' []]))
                else Option.bind
                       (eval_prompt L cx toks n_prompt n_batch (s32 (i + n_batch)) (snd r))
                       (\<lambda>res. Some (prepend [Decode cx batch (fst r)] res))
      else Some (Inr (True, w, [])))"

subsection \<open>The sampler chain and the generation loop\<close>

definition temperature_of :: "jfloat \<Rightarrow> jfloat" where
  \<comment> \<open>\<open>float T = std::max(0.f, temp)\<close>\<close>
  "temperature_of temp = std_max (Finite 0) temp"

definition top_p_of :: "jfloat \<Rightarrow> jfloat" where
  \<comment> \<open>\<open>float P = std::clamp(topP, 0.0f, 1.0f); if (P == 0.0f) P = 0.95f\<close>\<close>
  "top_p_of topP =
     (let P = std_clamp topP (Finite 0) (Finite 1) in if feq P (Finite 0) then f_0_95 else P)"

definition seed_of :: "'w llama \<Rightarrow> jint \<Rightarrow> 32 word" where
  \<comment> \<open>\<open>uint32_t s = (seed >= 0) ? (uint32_t) seed : LLAMA_DEFAULT_SEED\<close>\<close>
  "seed_of L seed = (if 0 \<le> sint seed then seed else LLAMA_DEFAULT_SEED L)"

definition build_chain ::
  "'w llama \<Rightarrow> 'w \<Rightarrow> ptr \<Rightarrow> jfloat \<Rightarrow> jfloat \<Rightarrow> 32 word \<Rightarrow> 'w \<times> event list" where
  \<comment> \<open>\<open>if (T == 0.f) { greedy } else { top-p, temp, dist }\<close>: each stage is created, then
      added to the chain\<close>
  "build_chain L w smpl T P s =
     (if feq T (Finite 0)
      then let g = llama_sampler_init_greedy L w;
               w1 = llama_sampler_chain_add L (snd g) smpl (fst g)
           in (w1, [Sampler_init_greedy (fst g), Sampler_chain_add smpl (fst g)])
      else let a = llama_sampler_init_top_p L w P 1;
               w1 = llama_sampler_chain_add L (snd a) smpl (fst a);
               b = llama_sampler_init_temp L w1 T;
               w2 = llama_sampler_chain_add L (snd b) smpl (fst b);
               c = llama_sampler_init_dist L w2 s;
               w3 = llama_sampler_chain_add L (snd c) smpl (fst c)
           in (w3, [Sampler_init_top_p P 1 (fst a), Sampler_chain_add smpl (fst a),
                    Sampler_init_temp T (fst b), Sampler_chain_add smpl (fst b),
                    Sampler_init_dist s (fst c), Sampler_chain_add smpl (fst c)]))"

function generate ::
  "'w llama \<Rightarrow> ptr \<Rightarrow> ptr \<Rightarrow> ptr \<Rightarrow> int \<Rightarrow> int \<Rightarrow> 'w \<Rightarrow> string \<Rightarrow> string \<times> 'w \<times> event list" where
  \<comment> \<open>\<open>for (int t = 0; t < predict; ++t)\<close> with \<open>cx = h->ctx\<close> and \<open>vc = h->vocab\<close>: the
      output, the world and the calls made\<close>
  "generate L cx vc smpl predict t w output =
     (if t < predict
      then
        let sm = llama_sampler_sample L w smpl cx (- 1);
            tok = fst sm;
            e1 = Sampler_sample smpl cx (- 1) tok
        in if llama_vocab_is_eog L vc tok then (output, snd sm, [e1])
           else
             let w2 = llama_sampler_accept L (snd sm) smpl tok;
                 output2 = output @ piece L vc tok;
                 next = llama_batch_get_one [tok] 0 1;
                 d = llama_decode L w2 cx next;
                 es = [e1, Sampler_accept smpl tok, Decode cx next (fst d)]
             in if fst d \<noteq> 0
                then (output2, snd d,
                      es @ [Log ERROR ''llama_decode failed during generation at step %d''
                              [LInt t]])
                else let r = generate L cx vc smpl predict (t + 1) (snd d) output2
                     in (fst r, fst (snd r), es @ snd (snd r))
      else (output, w, []))"
  by pat_completeness auto
termination
  by (relation "measure (\<lambda>(L, cx, vc, smpl, predict, t, w, output). nat (predict - t))") auto

declare generate.simps [simp del]

definition sample_and_generate ::
  "'w llama \<Rightarrow> 'j host \<Rightarrow> 'w \<Rightarrow> ptr \<Rightarrow> ptr \<Rightarrow> jint \<Rightarrow> jfloat \<Rightarrow> jfloat \<Rightarrow> jint
     \<Rightarrow> 'j \<times> 'w \<times> event list" where
  \<comment> \<open>from \<open>llama_sampler_chain_init\<close> to the final \<open>return toJStr(env, output)\<close>\<close>
  "sample_and_generate L env w cx vc maxTokens temp topP seed =
     (let T = temperature_of temp;
          P = top_p_of topP;
          ci = llama_sampler_chain_init L w;
          smpl = fst ci
      in if smpl = 0
         then (toJStr env [], snd ci,
               [Sampler_chain_init smpl, Log ERROR ''Failed to init sampler chain'' []])
         else
           let s = seed_of L seed;
               bc = build_chain L (snd ci) smpl T P s;
               w3 = llama_sampler_reset L (fst bc) smpl;
               g = generate L cx vc smpl (predict_of maxTokens) 0 w3 [];
               w5 = llama_sampler_free L (fst (snd g)) smpl
           in (toJStr env (fst g), w5,
               [Sampler_chain_init smpl] @ snd bc @ [Sampler_reset smpl] @ snd (snd g)
                 @ [Sampler_free smpl]))"

definition evaluate_and_generate ::
  "'w llama \<Rightarrow> 'j host \<Rightarrow> 'w \<Rightarrow> ptr \<Rightarrow> ptr \<Rightarrow> llama_token list \<Rightarrow> int \<Rightarrow> jint \<Rightarrow> jfloat
     \<Rightarrow> jfloat \<Rightarrow> jint \<Rightarrow> (ub + 'j \<times> 'w \<times> event list) option" where
  \<comment> \<open>from \<open>const int n_batch = llama_n_batch(h->ctx)\<close> on\<close>
  "evaluate_and_generate L env w cx vc toks n_prompt maxTokens temp topP seed =
     (let n_batch = sint (llama_n_batch L cx)
      in case eval_prompt L cx toks n_prompt n_batch 0 w of
           None \<Rightarrow> None
         | Some (Inl u) \<Rightarrow> Some (Inl u)
         | Some (Inr (ok, w3, e4)) \<Rightarrow>
             if \<not> ok then Some (Inr (toJStr env [], w3, e4))
             else Some (prepend e4
                    (Inr (sample_and_generate L env w3 cx vc maxTokens temp topP seed))))"

subsection \<open>The entry point\<close>

definition setup_events :: "'j host \<Rightarrow> jint \<Rightarrow> jint \<Rightarrow> jfloat \<Rightarrow> jfloat \<Rightarrow> jint \<Rightarrow> ptr \<Rightarrow> event list" where
  \<comment> \<open>\<open>llama_set_n_threads(h->ctx, nth, nth); LOGI("Completion config: ...")\<close>\<close>
  "setup_events env nThreads maxTokens temp topP seed cx =
     [Set_n_threads cx (n_threads_of env nThreads) (n_threads_of env nThreads),
      Log INFO ''Completion config: n_threads=%d, maxTokens=%d, temp=%.3f, topP=%.3f, seed=%d''
        [LInt (n_threads_of env nThreads), LInt (sint maxTokens), LFloat temp, LFloat topP,
         LInt (sint seed)]]"

definition complete_prompt ::
  "'w llama \<Rightarrow> 'j host \<Rightarrow> 'w \<Rightarrow> LlamaHandle \<Rightarrow> string \<Rightarrow> jint \<Rightarrow> jint \<Rightarrow> jfloat \<Rightarrow> jfloat
     \<Rightarrow> jint \<Rightarrow> (ub + 'j \<times> 'w \<times> event list) option" where
  \<comment> \<open>the body of \<open>nativeCompletion\<close> from the empty-prompt test on\<close>
  "complete_prompt L env w h prompt nThreads maxTokens temp topP seed =
     (if prompt = [] then Some (Inr (toJStr env [], w, [Log WARN ''Empty prompt'' []]))
      else
        let cl = clear_loop L (ctx h) 0 w;
            nth = n_threads_of env nThreads;
            w2 = llama_set_n_threads L (fst cl) (ctx h) nth nth;
            e2 = snd cl @ setup_events env nThreads maxTokens temp topP seed (ctx h);
            n_prompt = count_tokens L (vocab h) prompt
        in if n_prompt \<le> 0
           then Some (Inr (toJStr env [], w2,
                  e2 @ [Log WARN ''Tokenization resulted in <= 0 tokens'' []]))
           else
             let ft = fill_tokens L (vocab h) prompt n_prompt
             in if sint (fst ft) < 0
                then Some (Inr (toJStr env [], w2, e2 @ [Log ERROR ''Tokenization failed'' []]))
                else
                  let e3 = e2 @ capacity_check n_prompt (predict_of maxTokens) (sint (n_ctx h))
                  in map_option (prepend e3)
                       (evaluate_and_generate L env w2 (ctx h) (vocab h) (snd ft) n_prompt
                          maxTokens temp topP seed))"

definition handle_rejected :: "(jlong \<Rightarrow> LlamaHandle option) \<Rightarrow> jlong \<Rightarrow> bool" where
  \<comment> \<open>\<open>!h || !h->ctx || !h->model || !h->vocab\<close>, for a handle that is null or live\<close>
  "handle_rejected hs jHandle =
     (jHandle = 0 \<or>
      (case hs jHandle of None \<Rightarrow> False
       | Some h \<Rightarrow> ctx h = 0 \<or> model h = 0 \<or> vocab h = 0))"

definition nativeCompletion ::
  "'w llama \<Rightarrow> 'j host \<Rightarrow> 'w \<Rightarrow> (jlong \<Rightarrow> LlamaHandle option) \<Rightarrow> jlong \<Rightarrow> 'j \<Rightarrow> jint \<Rightarrow> jint
     \<Rightarrow> jfloat \<Rightarrow> jfloat \<Rightarrow> jint \<Rightarrow> (ub + 'j \<times> 'w \<times> event list) option" where
  "nativeCompletion L env w hs jHandle jPrompt nThreads maxTokens temp topP seed =
     (if handle_rejected hs jHandle
      then Some (Inr (toJStr env [], w, [Log ERROR ''Invalid handle or context'' []]))
      else case hs jHandle of
             None \<Rightarrow> Some (Inl DanglingHandle)
           | Some h \<Rightarrow>
               complete_prompt L env w h (std_string (GetStringUTFChars env jPrompt))
                 nThreads maxTokens temp topP seed)"

section \<open>\<open>nativeFree\<close>\<close>

definition nativeFree ::
  "'w llama \<Rightarrow> 'w \<Rightarrow> (jlong \<Rightarrow> LlamaHandle option) \<Rightarrow> jlong
     \<Rightarrow> ub + 'w \<times> (jlong \<Rightarrow> LlamaHandle option) \<times> event list" where
  "nativeFree L w hs jHandle =
     (if jHandle = 0 then Inr (w, hs, [])
      else case hs jHandle of
             None \<Rightarrow> Inl DanglingHandle
           | Some h \<Rightarrow>
               let w1 = (if ctx h \<noteq> 0 then llama_free L w (ctx h) else w);
                   e1 = (if ctx h \<noteq> 0 then [Free (ctx h)] else []);
                   w2 = (if model h \<noteq> 0 then llama_model_free L w1 (model h) else w1);
                   e2 = (if model h \<noteq> 0 then [Model_free (model h)] else [])
               in Inr (w2, hs(jHandle := None), e1 @ e2))"


section \<open>Reading a list of calls\<close>

fun sampled :: "event list \<Rightarrow> llama_token list" where
  \<comment> \<open>the tokens \<open>llama_sampler_sample\<close> returned, in order\<close>
  "sampled [] = []"
| "sampled (Sampler_sample smpl cx idx tok # es) = tok # sampled es"
| "sampled (e # es) = sampled es"

fun is_error :: "event \<Rightarrow> bool" where
  "is_error (Log lv msg args) = (lv = ERROR)"
| "is_error e = False"

fun is_log :: "event \<Rightarrow> bool" where
  "is_log (Log lv msg args) = True"
| "is_log e = False"

fun is_decode :: "event \<Rightarrow> bool" where
  "is_decode (Decode cx b rc) = True"
| "is_decode e = False"

fun failed_decode :: "event \<Rightarrow> bool" where
  "failed_decode (Decode cx b rc) = (rc \<noteq> 0)"
| "failed_decode e = False"

fun is_chain_init :: "event \<Rightarrow> bool" where
  "is_chain_init (Sampler_chain_init smpl) = True"
| "is_chain_init e = False"

fun is_stage :: "event \<Rightarrow> bool" where
  \<comment> \<open>the calls that create a sampler stage or add one to a chain\<close>
  "is_stage (Sampler_init_greedy p) = True"
| "is_stage (Sampler_init_top_p P k p) = True"
| "is_stage (Sampler_init_temp T p) = True"
| "is_stage (Sampler_init_dist s p) = True"
| "is_stage (Sampler_chain_add smpl p) = True"
| "is_stage e = False"

fun before_sampling :: "event \<Rightarrow> bool" where
  \<comment> \<open>the calls of a request up to a prompt that is evaluated in full: the cache is
      cleared, the threads are set, lines are logged below \<open>ERROR\<close>, chunks are decoded\<close>
  "before_sampling (Memory_seq_rm mem seq p0 p1) = True"
| "before_sampling (Set_n_threads cx a b) = True"
| "before_sampling (Log lv msg args) = (lv \<noteq> ERROR)"
| "before_sampling (Decode cx b rc) = (rc = 0)"
| "before_sampling e = False"

fun in_loop :: "event \<Rightarrow> bool" where
  \<comment> \<open>the calls the generation loop makes\<close>
  "in_loop (Sampler_sample smpl cx idx tok) = True"
| "in_loop (Sampler_accept smpl tok) = True"
| "in_loop (Decode cx b rc) = True"
| "in_loop (Log lv msg args) = (lv = ERROR)"
| "in_loop e = False"

fun decode_for :: "ptr \<Rightarrow> event \<Rightarrow> bool" where
  \<comment> \<open>a decode is on context \<open>cx\<close> and its batch holds as many tokens as it says\<close>
  "decode_for cx (Decode c b rc) = (c = cx \<and> n_tokens b = int (length (token b)))"
| "decode_for cx e = True"

definition from_chain_init :: "event list \<Rightarrow> event list" where
  \<comment> \<open>the calls from the creation of the sampler chain on\<close>
  "from_chain_init tr = dropWhile (\<lambda>e. \<not> is_chain_init e) tr"

definition before_chain_init :: "event list \<Rightarrow> event list" where
  "before_chain_init tr = takeWhile (\<lambda>e. \<not> is_chain_init e) tr"

fun decoded :: "event list \<Rightarrow> llama_token list list" where
  \<comment> \<open>the token batches handed to \<open>llama_decode\<close>, in order\<close>
  "decoded [] = []"
| "decoded (Decode cx b rc # es) = token b # decoded es"
| "decoded (e # es) = decoded es"

definition loop_end :: "'w llama \<Rightarrow> ptr \<Rightarrow> ptr \<Rightarrow> ptr \<Rightarrow> event list \<Rightarrow> bool" where
  \<comment> \<open>how the calls of the generation loop end: with the sample of an end-of-generation
      token, with a failed decode and its error line, or with neither\<close>
  "loop_end L cx vc smpl ev =
    (if list_ex (llama_vocab_is_eog L vc) (sampled ev)
     then (\<exists>pre. ev = pre @ [Sampler_sample smpl cx (- 1) (last (sampled ev))])
            \<and> \<not> list_ex is_log ev \<and> \<not> list_ex failed_decode ev
     else if list_ex failed_decode ev
     then (\<exists>pre rc n. ev = pre @ [Sampler_sample smpl cx (- 1) (last (sampled ev)),
               Sampler_accept smpl (last (sampled ev)),
               Decode cx (llama_batch_get_one [last (sampled ev)] 0 1) rc,
               Log ERROR ''llama_decode failed during generation at step %d'' [LInt n]]
             \<and> rc \<noteq> 0 \<and> \<not> list_ex failed_decode pre \<and> \<not> list_ex is_log pre)
     else \<not> list_ex is_log ev)"

definition prompt_end :: "ptr \<Rightarrow> bool \<Rightarrow> event list \<Rightarrow> bool" where
  \<comment> \<open>the calls of prompt evaluation: successful decodes, followed by a failed one and
      its error line when the evaluation did not succeed\<close>
  "prompt_end cx ok ev =
     (if ok then list_all before_sampling ev \<and> list_all is_decode ev
      else \<exists>pre b rc. ev = pre @ [Decode cx b rc,
                          Log ERROR ''llama_decode failed on prompt chunk'' []]
             \<and> rc \<noteq> 0 \<and> list_all before_sampling pre \<and> list_all is_decode pre)"

definition unlogged ::
  "(ub + 'a \<times> 'w \<times> event list) option \<Rightarrow> (ub + 'a \<times> 'w \<times> event list) option" where
  \<comment> \<open>a result without the log lines: what is returned, the engine's state and the calls
      made to the engine\<close>
  "unlogged r =
     map_option (\<lambda>x. case x of Inl u \<Rightarrow> Inl u
                  | Inr (a, w, tr) \<Rightarrow> Inr (a, w, filter (\<lambda>e. \<not> is_log e) tr)) r"

definition prompt_loop_bounded :: "'w llama \<Rightarrow> 'j host \<Rightarrow> LlamaHandle \<Rightarrow> 'j \<Rightarrow> bool" where
  \<comment> \<open>the engine reports a positive batch size for the context, and the prompt's token
      count plus the batch size fits an \<open>int\<close>: the counter of the prompt loop then
      neither stalls nor overflows\<close>
  "prompt_loop_bounded L env h jPrompt =
     (0 < sint (llama_n_batch L (ctx h)) \<and>
      count_tokens L (vocab h) (std_string (GetStringUTFChars env jPrompt))
        + sint (llama_n_batch L (ctx h)) < 2 ^ 31)"

text \<open>
  The calls of a list, run again on the engine: the state each call is made in is the
  one the call before it left.
\<close>

fun call :: "'w llama \<Rightarrow> event \<Rightarrow> 'w \<Rightarrow> 'w" where
  \<comment> \<open>the engine's state after one recorded call made in state \<open>w\<close>\<close>
  "call L (Log lv msg args) w = w"
| "call L Backend_init w = llama_backend_init L w"
| "call L (Model_load_from_file path md) w = snd (llama_model_load_from_file L w path)"
| "call L (Init_from_model md cp cx) w = snd (llama_init_from_model L w md cp)"
| "call L (Model_free md) w = llama_model_free L w md"
| "call L (Free cx) w = llama_free L w cx"
| "call L (Memory_seq_rm mem seq p0 p1) w = snd (llama_memory_seq_rm L w mem seq p0 p1)"
| "call L (Set_n_threads cx a b) w = llama_set_n_threads L w cx a b"
| "call L (Decode cx b rc) w = snd (llama_decode L w cx b)"
| "call L (Sampler_chain_init smpl) w = snd (llama_sampler_chain_init L w)"
| "call L (Sampler_init_greedy p) w = snd (llama_sampler_init_greedy L w)"
| "call L (Sampler_init_top_p P k p) w = snd (llama_sampler_init_top_p L w P k)"
| "call L (Sampler_init_temp T p) w = snd (llama_sampler_init_temp L w T)"
| "call L (Sampler_init_dist s p) w = snd (llama_sampler_init_dist L w s)"
| "call L (Sampler_chain_add smpl p) w = llama_sampler_chain_add L w smpl p"
| "call L (Sampler_reset smpl) w = llama_sampler_reset L w smpl"
| "call L (Sampler_sample smpl cx idx tok) w = snd (llama_sampler_sample L w smpl cx idx)"
| "call L (Sampler_accept smpl tok) w = llama_sampler_accept L w smpl tok"
| "call L (Sampler_free smpl) w = llama_sampler_free L w smpl"

definition replay :: "'w llama \<Rightarrow> event list \<Rightarrow> 'w \<Rightarrow> 'w" where
  \<comment> \<open>the engine's state after the recorded calls \<open>evs\<close>, made in this order from \<open>w\<close>\<close>
  "replay L evs w = fold (call L) evs w"

fun returned :: "'w llama \<Rightarrow> event \<Rightarrow> 'w \<Rightarrow> bool" where
  \<comment> \<open>the value recorded with a call is the one the engine returns for it in state \<open>w\<close>\<close>
  "returned L (Model_load_from_file path md) w = (md = fst (llama_model_load_from_file L w path))"
| "returned L (Init_from_model md cp cx) w = (cx = fst (llama_init_from_model L w md cp))"
| "returned L (Decode cx b rc) w = (rc = fst (llama_decode L w cx b))"
| "returned L (Sampler_chain_init smpl) w = (smpl = fst (llama_sampler_chain_init L w))"
| "returned L (Sampler_init_greedy p) w = (p = fst (llama_sampler_init_greedy L w))"
| "returned L (Sampler_init_top_p P k p) w = (p = fst (llama_sampler_init_top_p L w P k))"
| "returned L (Sampler_init_temp T p) w = (p = fst (llama_sampler_init_temp L w T))"
| "returned L (Sampler_init_dist s p) w = (p = fst (llama_sampler_init_dist L w s))"
| "returned L (Sampler_sample smpl cx idx tok) w
     = (tok = fst (llama_sampler_sample L w smpl cx idx))"
| "returned L e w = True"

fun executes :: "'w llama \<Rightarrow> event list \<Rightarrow> 'w \<Rightarrow> bool" where
  \<comment> \<open>the calls \<open>evs\<close> are a run of the engine from \<open>w\<close>: each is made in the state the
      calls before it left and returns what the engine returns there\<close>
  "executes L [] w = True"
| "executes L (e # evs) w = (returned L e w \<and> executes L evs (call L e w))"

section \<open>Chunked evaluation, as the specification words it\<close>

text \<open>
  The specification's prompt evaluation: the token sequence is split into consecutive
  chunks no larger than the batch capacity, and the chunks are evaluated in order until
  one fails.
\<close>

function spec_chunks :: "nat \<Rightarrow> 'a list \<Rightarrow> 'a list list" where
  "spec_chunks n xs = (if n = 0 \<or> xs = [] then [] else take n xs # spec_chunks n (drop n xs))"
  by pat_completeness auto
termination
  by (relation "measure (\<lambda>(n, xs). length xs)") auto

declare spec_chunks.simps [simp del]

fun spec_evaluate_chunks ::
  "'w llama \<Rightarrow> ptr \<Rightarrow> llama_token list list \<Rightarrow> 'w \<Rightarrow> bool \<times> 'w \<times> event list" where
  "spec_evaluate_chunks L cx [] w = (True, w, [])"
| "spec_evaluate_chunks L cx (c # cs) w =
     (let b = \<lparr>n_tokens = int (length c), token = c\<rparr>;
          r = llama_decode L w cx b
      in if fst r \<noteq> 0
         then (False, snd r,
               [Decode cx b (fst r), Log ERROR ''llama_decode failed on prompt chunk'' []])
         else let q = spec_evaluate_chunks L cx cs (snd r)
              in (fst q, fst (snd q), Decode cx b (fst r) # snd (snd q)))"

section \<open>A small engine to run the bridge on\<close>

text \<open>
  An engine to evaluate the bridge on concrete requests. Its world is the list of tokens
  the sampler will still return (token 2, the end-of-generation token, once the list is
  empty); a prompt is tokenized into one token per character; decoding fails on a batch
  that is empty or holds token 33; the piece of a token is the character with its code.
\<close>

definition toy_llama :: "32 word \<Rightarrow> (llama_token list) llama" where
  "toy_llama nb =
     \<lparr>llama_backend_init = (\<lambda>w. w),
      llama_model_load_from_file = (\<lambda>w path. (1, w)),
      llama_model_get_vocab = (\<lambda>md. 3),
      llama_init_from_model = (\<lambda>w md cp. (2, w)),
      llama_model_free = (\<lambda>w md. w),
      llama_free = (\<lambda>w cx. w),
      llama_get_memory = (\<lambda>cx. 5),
      llama_memory_seq_rm = (\<lambda>w mem seq p0 p1. (True, w)),
      llama_set_n_threads = (\<lambda>w cx a b. w),
      llama_tokenize = (\<lambda>vc text len cap bos special.
         if cap < int (length text) then (- of_nat (length text), [])
         else (of_nat (length text), map (\<lambda>c. of_nat (of_char c)) text)),
      llama_n_batch = (\<lambda>cx. nb),
      llama_decode = (\<lambda>w cx b.
         if n_tokens b \<le> 0 \<or> 33 \<in> set (token b) then (1, w) else (0, w)),
      llama_sampler_chain_init = (\<lambda>w. (7, w)),
      llama_sampler_init_greedy = (\<lambda>w. (8, w)),
      llama_sampler_init_top_p = (\<lambda>w P k. (9, w)),
      llama_sampler_init_temp = (\<lambda>w T. (10, w)),
      llama_sampler_init_dist = (\<lambda>w s. (11, w)),
      llama_sampler_chain_add = (\<lambda>w smpl p. w),
      llama_sampler_reset = (\<lambda>w smpl. w),
      llama_sampler_sample = (\<lambda>w smpl cx idx. case w of [] \<Rightarrow> (2, []) | t # ts \<Rightarrow> (t, ts)),
      llama_sampler_accept = (\<lambda>w smpl tok. w),
      llama_sampler_free = (\<lambda>w smpl. w),
      llama_vocab_is_eog = (\<lambda>vc tok. tok = 2),
      llama_token_to_piece = (\<lambda>vc tok n lstrip special. (1, [char_of (unat tok)])),
      LLAMA_DEFAULT_SEED = 0xFFFFFFFF\<rparr>"

definition toy_host :: "string host" where
  "toy_host =
     \<lparr>GetStringUTFChars = Some, NewStringUTF = (\<lambda>s. s), sysconf_NPROCESSORS_ONLN = 4,
      new_LlamaHandle = (\<lambda>hs. 4096)\<rparr>"

definition toy_handle :: LlamaHandle where
  "toy_handle = \<lparr>model = 1, ctx = 2, vocab = 3, n_ctx = 2048\<rparr>"

definition toy_handles :: "jlong \<Rightarrow> LlamaHandle option" where
  "toy_handles = (\<lambda>a. if a = 4096 then Some toy_handle else None)"

definition toy_setup :: "jint \<Rightarrow> jfloat \<Rightarrow> jfloat \<Rightarrow> jint \<Rightarrow> event list" where
  \<comment> \<open>the calls of a request on \<open>toy_handle\<close> before the prompt is tokenized\<close>
  "toy_setup maxTokens temp topP seed =
     [Memory_seq_rm 5 0 0 (- 1), Memory_seq_rm 5 1 0 (- 1), Memory_seq_rm 5 2 0 (- 1),
      Memory_seq_rm 5 3 0 (- 1), Memory_seq_rm 5 4 0 (- 1), Memory_seq_rm 5 5 0 (- 1),
      Memory_seq_rm 5 6 0 (- 1), Memory_seq_rm 5 7 0 (- 1), Memory_seq_rm 5 8 0 (- 1),
      Memory_seq_rm 5 9 0 (- 1), Memory_seq_rm 5 10 0 (- 1), Memory_seq_rm 5 11 0 (- 1),
      Memory_seq_rm 5 12 0 (- 1), Memory_seq_rm 5 13 0 (- 1), Memory_seq_rm 5 14 0 (- 1),
      Memory_seq_rm 5 15 0 (- 1), Set_n_threads 2 4 4,
      Log INFO ''Completion config: n_threads=%d, maxTokens=%d, temp=%.3f, topP=%.3f, seed=%d''
        [LInt 4, LInt (sint maxTokens), LFloat temp, LFloat topP, LInt (sint seed)]]"

text \<open>
  The same engine with a key/value cache: its world also lists the sequence ids that
  have cells in the cache. \<open>llama_memory_seq_rm\<close> takes a sequence out of the list and a
  successful \<open>llama_decode\<close> adds cells of sequence 0.
\<close>

definition cache_llama :: "(int list \<times> llama_token list) llama" where
  "cache_llama =
     \<lparr>llama_backend_init = (\<lambda>w. w),
      llama_model_load_from_file = (\<lambda>w path. (1, w)),
      llama_model_get_vocab = (\<lambda>md. 3),
      llama_init_from_model = (\<lambda>w md cp. (2, w)),
      llama_model_free = (\<lambda>w md. w),
      llama_free = (\<lambda>w cx. w),
      llama_get_memory = (\<lambda>cx. 5),
      llama_memory_seq_rm = (\<lambda>w mem seq p0 p1. (True, (removeAll seq (fst w), snd w))),
      llama_set_n_threads = (\<lambda>w cx a b. w),
      llama_tokenize = (\<lambda>vc text len cap bos special.
         if cap < int (length text) then (- of_nat (length text), [])
         else (of_nat (length text), map (\<lambda>c. of_nat (of_char c)) text)),
      llama_n_batch = (\<lambda>cx. 2),
      llama_decode = (\<lambda>w cx b.
         if n_tokens b \<le> 0 \<or> 33 \<in> set (token b) then (1, w) else (0, (0 # fst w, snd w))),
      llama_sampler_chain_init = (\<lambda>w. (7, w)),
      llama_sampler_init_greedy = (\<lambda>w. (8, w)),
      llama_sampler_init_top_p = (\<lambda>w P k. (9, w)),
      llama_sampler_init_temp = (\<lambda>w T. (10, w)),
      llama_sampler_init_dist = (\<lambda>w s. (11, w)),
      llama_sampler_chain_add = (\<lambda>w smpl p. w),
      llama_sampler_reset = (\<lambda>w smpl. w),
      llama_sampler_sample = (\<lambda>w smpl cx idx.
         case snd w of [] \<Rightarrow> (2, w) | t # ts \<Rightarrow> (t, (fst w, ts))),
      llama_sampler_accept = (\<lambda>w smpl tok. w),
      llama_sampler_free = (\<lambda>w smpl. w),
      llama_vocab_is_eog = (\<lambda>vc tok. tok = 2),
      llama_token_to_piece = (\<lambda>vc tok n lstrip special. (1, [char_of (unat tok)])),
      LLAMA_DEFAULT_SEED = 0xFFFFFFFF\<rparr>"

declare eval_prompt.simps [code]

section \<open>The generation loop\<close>
lemma sampled_append [simp]: "sampled (xs @ ys) = sampled xs @ sampled ys"
  by (induction xs rule: sampled.induct) auto

lemma decoded_append [simp]: "decoded (xs @ ys) = decoded xs @ decoded ys"
  by (induction xs rule: decoded.induct) auto

lemma generate_stop:
  "\<not> t < predict \<Longrightarrow> generate L cx vc smpl predict t w out = (out, w, [])"
  by (subst generate.simps) simp

lemma generate_eog:
  assumes "t < predict"
    and "sm = llama_sampler_sample L w smpl cx (- 1)"
    and "llama_vocab_is_eog L vc (fst sm)"
  shows "generate L cx vc smpl predict t w out =
           (out, snd sm, [Sampler_sample smpl cx (- 1) (fst sm)])"
  using assms by (subst generate.simps) (simp add: Let_def)

lemma generate_fail:
  assumes "t < predict"
    and "sm = llama_sampler_sample L w smpl cx (- 1)"
    and "\<not> llama_vocab_is_eog L vc (fst sm)"
    and "d = llama_decode L (llama_sampler_accept L (snd sm) smpl (fst sm)) cx
               (llama_batch_get_one [fst sm] 0 1)"
    and "fst d \<noteq> 0"
  shows "generate L cx vc smpl predict t w out =
           (out @ piece L vc (fst sm), snd d,
            [Sampler_sample smpl cx (- 1) (fst sm), Sampler_accept smpl (fst sm),
             Decode cx (llama_batch_get_one [fst sm] 0 1) (fst d),
             Log ERROR ''llama_decode failed during generation at step %d'' [LInt t]])"
  using assms by (subst generate.simps) (simp add: Let_def)

lemma generate_cont:
  assumes "t < predict"
    and "sm = llama_sampler_sample L w smpl cx (- 1)"
    and "\<not> llama_vocab_is_eog L vc (fst sm)"
    and "d = llama_decode L (llama_sampler_accept L (snd sm) smpl (fst sm)) cx
               (llama_batch_get_one [fst sm] 0 1)"
    and "fst d = 0"
    and "r = generate L cx vc smpl predict (t + 1) (snd d) (out @ piece L vc (fst sm))"
  shows "generate L cx vc smpl predict t w out =
           (fst r, fst (snd r),
            [Sampler_sample smpl cx (- 1) (fst sm), Sampler_accept smpl (fst sm),
             Decode cx (llama_batch_get_one [fst sm] 0 1) 0] @ snd (snd r))"
  using assms by (subst generate.simps) (simp add: Let_def)

text \<open>One rule for every property of the loop: the four ways an iteration can go.\<close>

lemma generate_rule [case_names stop eog fail cont]:
  assumes stop: "\<And>t w out. \<not> t < predict \<Longrightarrow> P t w out (out, w, [])"
    and eog: "\<And>t w out tok w1. t < predict \<Longrightarrow> llama_vocab_is_eog L vc tok \<Longrightarrow>
           P t w out (out, w1, [Sampler_sample smpl cx (- 1) tok])"
    and fail: "\<And>t w out tok w1 rc. t < predict \<Longrightarrow> \<not> llama_vocab_is_eog L vc tok \<Longrightarrow>
           rc \<noteq> 0 \<Longrightarrow>
           P t w out (out @ piece L vc tok, w1,
             [Sampler_sample smpl cx (- 1) tok, Sampler_accept smpl tok,
              Decode cx (llama_batch_get_one [tok] 0 1) rc,
              Log ERROR ''llama_decode failed during generation at step %d'' [LInt t]])"
    and cont: "\<And>t w out tok w1 r. t < predict \<Longrightarrow> \<not> llama_vocab_is_eog L vc tok \<Longrightarrow>
           P (t + 1) w1 (out @ piece L vc tok) r \<Longrightarrow>
           P t w out (fst r, fst (snd r),
             [Sampler_sample smpl cx (- 1) tok, Sampler_accept smpl tok,
              Decode cx (llama_batch_get_one [tok] 0 1) 0] @ snd (snd r))"
  shows "P t w out (generate L cx vc smpl predict t w out)"
proof (induction "nat (predict - t)" arbitrary: t w out)
  case 0
  then have "\<not> t < predict" by simp
  then show ?case using stop by (simp add: generate_stop)
next
  case (Suc n)
  have lt: "t < predict" using Suc(2) by simp
  define sm where "sm = llama_sampler_sample L w smpl cx (- 1)"
  define d where "d = llama_decode L (llama_sampler_accept L (snd sm) smpl (fst sm)) cx
               (llama_batch_get_one [fst sm] 0 1)"
  define r where "r = generate L cx vc smpl predict (t + 1) (snd d) (out @ piece L vc (fst sm))"
  have ih: "P (t + 1) (snd d) (out @ piece L vc (fst sm)) r"
    unfolding r_def using Suc(1)[of "t + 1"] Suc(2) by simp
  consider (a) "llama_vocab_is_eog L vc (fst sm)"
    | (b) "\<not> llama_vocab_is_eog L vc (fst sm)" "fst d \<noteq> 0"
    | (c) "\<not> llama_vocab_is_eog L vc (fst sm)" "fst d = 0" by blast
  then show ?case
  proof cases
    case a
    show ?thesis unfolding generate_eog[OF lt sm_def a] by (rule eog[OF lt a])
  next
    case b
    show ?thesis unfolding generate_fail[OF lt sm_def b(1) d_def b(2)]
      by (rule fail[OF lt b])
  next
    case c
    show ?thesis unfolding generate_cont[OF lt sm_def c(1) d_def c(2) r_def]
      by (rule cont[OF lt c(1) ih])
  qed
qed


lemma generate_output:
  "fst (generate L cx vc smpl predict t w out) =
     out @ concat (map (piece L vc)
       (filter (\<lambda>k. \<not> llama_vocab_is_eog L vc k)
          (sampled (snd (snd (generate L cx vc smpl predict t w out))))))"
  by (rule generate_rule[where P = "\<lambda>t w out r. fst r =
     out @ concat (map (piece L vc)
       (filter (\<lambda>k. \<not> llama_vocab_is_eog L vc k) (sampled (snd (snd r)))))"])
    auto

lemma generate_eog_last:
  "list_all (\<lambda>k. \<not> llama_vocab_is_eog L vc k)
     (butlast (sampled (snd (snd (generate L cx vc smpl predict t w out)))))"
  by (rule generate_rule[where P = "\<lambda>t w out r.
       list_all (\<lambda>k. \<not> llama_vocab_is_eog L vc k) (butlast (sampled (snd (snd r))))"])
    auto

lemma generate_in_loop:
  "list_all in_loop (snd (snd (generate L cx vc smpl predict t w out)))"
  by (rule generate_rule[where P = "\<lambda>t w out r. list_all in_loop (snd (snd r))"]) auto

lemma generate_sampled_nonempty:
  "t < predict \<Longrightarrow> sampled (snd (snd (generate L cx vc smpl predict t w out))) \<noteq> []"
  by (rule generate_rule[where P = "\<lambda>t w out r. t < predict \<longrightarrow> sampled (snd (snd r)) \<noteq> []",
        THEN mp]) auto

text \<open>How the calls of the loop end, by the way it stopped.\<close>

lemma generate_ends:
  "loop_end L cx vc smpl (snd (snd (generate L cx vc smpl predict t w out)))"
proof (rule generate_rule[where P = "\<lambda>t w out r. loop_end L cx vc smpl (snd (snd r))"])
  fix t w out assume "\<not> t < predict"
  show "loop_end L cx vc smpl (snd (snd (out, w, [])))" by (simp add: loop_end_def)
next
  fix t w out tok w1 assume "t < predict" "llama_vocab_is_eog L vc tok"
  then show "loop_end L cx vc smpl (snd (snd (out, w1, [Sampler_sample smpl cx (- 1) tok])))"
    by (simp add: loop_end_def)
next
  fix t w out tok w1 rc assume "t < predict" "\<not> llama_vocab_is_eog L vc tok" "rc \<noteq> (0::int)"
  then show "loop_end L cx vc smpl (snd (snd (out @ piece L vc tok, w1,
             [Sampler_sample smpl cx (- 1) tok, Sampler_accept smpl tok,
              Decode cx (llama_batch_get_one [tok] 0 1) rc,
              Log ERROR ''llama_decode failed during generation at step %d'' [LInt t]])))"
    by (simp add: loop_end_def)
next
  fix t w out tok w1 r
  assume a: "t < predict" "\<not> llama_vocab_is_eog L vc tok" "loop_end L cx vc smpl (snd (snd r))"
  let ?es = "[Sampler_sample smpl cx (- 1) tok, Sampler_accept smpl tok,
              Decode cx (llama_batch_get_one [tok] 0 1) 0]"
  let ?ev = "snd (snd r)"
  have s: "sampled (?es @ ?ev) = tok # sampled ?ev" by simp
  show "loop_end L cx vc smpl (snd (snd (fst r, fst (snd r), ?es @ snd (snd r))))"
  proof (cases "list_ex (llama_vocab_is_eog L vc) (sampled ?ev)")
    case True
    then have ne: "sampled ?ev \<noteq> []" by auto
    from True a(3) obtain pre where
      p: "?ev = pre @ [Sampler_sample smpl cx (- 1) (last (sampled ?ev))]"
         "\<not> list_ex is_log ?ev" "\<not> list_ex failed_decode ?ev"
      by (auto simp: loop_end_def)
    have "?es @ ?ev = (?es @ pre) @ [Sampler_sample smpl cx (- 1) (last (sampled (?es @ ?ev)))]"
      using p(1) ne by simp
    then have c1: "\<exists>pre'. ?es @ ?ev
        = pre' @ [Sampler_sample smpl cx (- 1) (last (sampled (?es @ ?ev)))]" by blast
    have c0: "list_ex (llama_vocab_is_eog L vc) (sampled (?es @ ?ev))" using True by simp
    have c2: "\<not> list_ex is_log (?es @ ?ev)" using p(2) by simp
    have c3: "\<not> list_ex failed_decode (?es @ ?ev)" using p(3) by simp
    show ?thesis unfolding loop_end_def snd_conv if_P[OF c0] by (intro conjI c1 c2 c3)
  next
    case False
    show ?thesis
    proof (cases "list_ex failed_decode ?ev")
      case fd: True
      with False a(3) obtain pre rc n where
        p: "?ev = pre @ [Sampler_sample smpl cx (- 1) (last (sampled ?ev)),
               Sampler_accept smpl (last (sampled ?ev)),
               Decode cx (llama_batch_get_one [last (sampled ?ev)] 0 1) rc,
               Log ERROR ''llama_decode failed during generation at step %d'' [LInt n]]"
           "rc \<noteq> 0" "\<not> list_ex failed_decode pre" "\<not> list_ex is_log pre"
        unfolding loop_end_def by auto
      have ne: "sampled ?ev \<noteq> []" by (subst p(1)) simp
      have "?es @ ?ev = (?es @ pre) @ [Sampler_sample smpl cx (- 1) (last (sampled (?es @ ?ev))),
               Sampler_accept smpl (last (sampled (?es @ ?ev))),
               Decode cx (llama_batch_get_one [last (sampled (?es @ ?ev))] 0 1) rc,
               Log ERROR ''llama_decode failed during generation at step %d'' [LInt n]]"
        using p(1) ne by simp
      then have c1: "\<exists>pre' rc n. ?es @ ?ev
          = pre' @ [Sampler_sample smpl cx (- 1) (last (sampled (?es @ ?ev))),
               Sampler_accept smpl (last (sampled (?es @ ?ev))),
               Decode cx (llama_batch_get_one [last (sampled (?es @ ?ev))] 0 1) rc,
               Log ERROR ''llama_decode failed during generation at step %d'' [LInt n]]
            \<and> rc \<noteq> 0 \<and> \<not> list_ex failed_decode pre' \<and> \<not> list_ex is_log pre'"
        using p(2,3,4) by (intro exI[of _ "?es @ pre"] exI[of _ rc] exI[of _ n]) simp
      have c0: "\<not> list_ex (llama_vocab_is_eog L vc) (sampled (?es @ ?ev))"
        using False a(2) by simp
      have c2: "list_ex failed_decode (?es @ ?ev)" using fd by simp
      show ?thesis unfolding loop_end_def snd_conv if_not_P[OF c0] if_P[OF c2] by (rule c1)
    next
      case nfd: False
      with False a(3) have "\<not> list_ex is_log ?ev" by (simp add: loop_end_def)
      then show ?thesis using False nfd a(2) by (simp add: loop_end_def)
    qed
  qed
qed

section \<open>The prompt loop\<close>

lemma prompt_end_Cons:
  "prompt_end cx ok ev \<Longrightarrow> prompt_end cx ok (Decode cx b 0 # ev)"
  unfolding prompt_end_def
  apply (cases ok)
   apply simp
  apply simp
  apply (elim exE conjE)
  subgoal for pre b' rc
    by (rule exI[of _ "Decode cx b 0 # pre"]) simp
  done

lemma eval_prompt_end:
  assumes "eval_prompt L cx toks n_prompt n_batch i w = Some y"
  shows "\<forall>ok w' ev. y = Inr (ok, w', ev) \<longrightarrow> prompt_end cx ok ev"
proof (rule eval_prompt.raw_induct[where P = "\<lambda>L cx toks n_prompt n_batch i w y.
         \<forall>ok w' ev. y = Inr (ok, w', ev) \<longrightarrow> prompt_end cx ok ev", OF _ assms], goal_cases)
  case (1 eval_prompt L cx toks n_prompt n_batch i w y)
  show ?case
  proof (cases "i < n_prompt")
    case False
    then show ?thesis using 1(2) by (auto simp: prompt_end_def)
  next
    case True
    note lt = this
    show ?thesis
    proof (cases "i < 0")
      case True
      then show ?thesis using 1(2) lt by auto
    next
      case False
      define batch where "batch = llama_batch_get_one toks i (min n_batch (n_prompt - i))"
      define r where "r = llama_decode L w cx batch"
      show ?thesis
      proof (cases "fst r = 0")
        case False
        then have "y = Inr (False, snd r, [Decode cx batch (fst r),
                        Log ERROR ''llama_decode failed on prompt chunk'' []])"
          using 1(2) lt \<open>\<not> i < 0\<close> by (simp add: Let_def r_def batch_def)
        then show ?thesis using False unfolding prompt_end_def by auto
      next
        case True
        then obtain res where
          res: "eval_prompt L cx toks n_prompt n_batch (s32 (i + n_batch)) (snd r) = Some res"
               "y = prepend [Decode cx batch 0] res"
          using 1(2) lt \<open>\<not> i < 0\<close>
          by (auto simp: Let_def r_def batch_def bind_eq_Some_conv)
        from 1(1)[OF res(1)] res(2) show ?thesis
          by (auto simp: prepend_def prompt_end_Cons split: sum.splits)
      qed
    qed
  qed
qed

lemma s32_id: "- (2 ^ 31) \<le> x \<Longrightarrow> x < 2 ^ 31 \<Longrightarrow> s32 x = x"
  unfolding s32_def sint_sbintrunc' by (rule signed_take_bit_int_eq_self) simp_all

lemma spec_chunks_concat: "0 < n \<Longrightarrow> concat (spec_chunks n xs) = xs"
proof (induction n xs rule: spec_chunks.induct)
  case (1 n xs)
  then show ?case by (subst spec_chunks.simps) auto
qed

lemma spec_chunks_sizes: "c \<in> set (spec_chunks n xs) \<Longrightarrow> 0 < length c \<and> length c \<le> n"
proof (induction n xs rule: spec_chunks.induct)
  case (1 n xs)
  from 1(2) show ?case
    apply (subst (asm) spec_chunks.simps)
    using 1(1) by (auto split: if_splits)
qed

lemma spec_chunks_full:
  "Suc j < length (spec_chunks n xs) \<Longrightarrow> length (spec_chunks n xs ! j) = n"
proof (induction n xs arbitrary: j rule: spec_chunks.induct)
  case (1 n xs)
  show ?case
  proof (cases "n = 0 \<or> xs = []")
    case True
    then show ?thesis using 1(2) by (subst (asm) spec_chunks.simps) simp
  next
    case False
    then have e: "spec_chunks n xs = take n xs # spec_chunks n (drop n xs)"
      by (subst spec_chunks.simps) simp
    show ?thesis
    proof (cases j)
      case 0
      have "spec_chunks n (drop n xs) \<noteq> []" using 1(2) e 0 by auto
      then have "drop n xs \<noteq> []" by (subst (asm) spec_chunks.simps) (auto split: if_splits)
      then show ?thesis using e 0 by simp
    next
      case (Suc k)
      then show ?thesis using 1(1)[OF False, of k] 1(2) e by simp
    qed
  qed
qed

lemma eval_prompt_chunks:
  assumes "0 < n_batch" and "n_prompt = int (length toks)" and "n_prompt + n_batch < 2 ^ 31"
    and "0 \<le> i"
  shows "eval_prompt L cx toks n_prompt n_batch i w =
           Some (Inr (spec_evaluate_chunks L cx
                        (spec_chunks (nat n_batch) (drop (nat i) toks)) w))"
  using assms(4)
proof (induction "length toks - nat i" arbitrary: i w rule: less_induct)
  case less
  show ?case
  proof (cases "i < n_prompt")
    case False
    then have "drop (nat i) toks = []" using assms(2) less(2) by simp
    then show ?thesis using False
      by (subst eval_prompt.simps) (simp add: spec_chunks.simps)
  next
    case True
    define m where "m = min n_batch (n_prompt - i)"
    define batch where "batch = llama_batch_get_one toks i m"
    define r where "r = llama_decode L w cx batch"
    have ne: "drop (nat i) toks \<noteq> []" using True assms(2) less(2) by simp
    have tk: "take (nat n_batch) (drop (nat i) toks) = take (nat m) (drop (nat i) toks)"
    proof (cases "n_batch \<le> n_prompt - i")
      case True
      then show ?thesis by (simp add: m_def min_def)
    next
      case False
      then have "length (drop (nat i) toks) \<le> nat n_batch" "length (drop (nat i) toks) \<le> nat m"
        using assms(2) less(2) by (auto simp: m_def min_def)
      then show ?thesis by simp
    qed
    have mpos: "0 < m" "m \<le> n_prompt - i" using True assms(1) by (simp_all add: m_def)
    have "nat m \<le> length toks - nat i" using mpos assms(2) less(2) by linarith
    then have len: "int (length (take (nat m) (drop (nat i) toks))) = m"
      using mpos by (simp add: min_absorb2)
    have b: "batch = \<lparr>n_tokens = int (length (take (nat n_batch) (drop (nat i) toks))),
                      token = take (nat n_batch) (drop (nat i) toks)\<rparr>"
      unfolding batch_def llama_batch_get_one_def tk len ..
    have ch: "spec_chunks (nat n_batch) (drop (nat i) toks) =
        take (nat n_batch) (drop (nat i) toks)
          # spec_chunks (nat n_batch) (drop (nat (i + n_batch)) toks)"
      using ne assms(1) less(2)
      by (subst spec_chunks.simps) (simp add: nat_add_distrib add.commute)
    have s: "s32 (i + n_batch) = i + n_batch"
      using True assms(1,3) less(2) by (intro s32_id) auto
    have step: "eval_prompt L cx toks n_prompt n_batch i w =
        (if fst r \<noteq> 0
         then Some (Inr (False, snd r,
                [Decode cx batch (fst r), Log ERROR ''llama_decode failed on prompt chunk'' []]))
         else Option.bind (eval_prompt L cx toks n_prompt n_batch (i + n_batch) (snd r))
                (\<lambda>res. Some (prepend [Decode cx batch (fst r)] res)))"
      using True less(2) unfolding r_def batch_def m_def
      by (subst eval_prompt.simps) (simp add: Let_def s)
    have sc: "spec_evaluate_chunks L cx (spec_chunks (nat n_batch) (drop (nat i) toks)) w =
        (if fst r \<noteq> 0
         then (False, snd r,
               [Decode cx batch (fst r), Log ERROR ''llama_decode failed on prompt chunk'' []])
         else let q = spec_evaluate_chunks L cx
                        (spec_chunks (nat n_batch) (drop (nat (i + n_batch)) toks)) (snd r)
              in (fst q, fst (snd q), Decode cx batch (fst r) # snd (snd q)))"
      unfolding ch spec_evaluate_chunks.simps b[symmetric] Let_def r_def[symmetric] ..
    show ?thesis
    proof (cases "fst r = 0")
      case False
      then show ?thesis unfolding step sc by simp
    next
      case z: True
      have "length toks - nat (i + n_batch) < length toks - nat i"
        using True assms(1,2) less(2) by auto
      from less(1)[OF this, of "snd r"] less(2) assms(1)
      have ih: "eval_prompt L cx toks n_prompt n_batch (i + n_batch) (snd r) =
           Some (Inr (spec_evaluate_chunks L cx
                        (spec_chunks (nat n_batch) (drop (nat (i + n_batch)) toks)) (snd r)))"
        by simp
      show ?thesis unfolding step sc ih using z
        by (simp add: prepend_def Let_def split: prod.splits)
    qed
  qed
qed

section \<open>The calls of a request\<close>

lemma clear_loop_events:
  "0 \<le> i \<Longrightarrow> i \<le> 16 \<Longrightarrow>
   snd (clear_loop L cx i w) = map (\<lambda>s. Memory_seq_rm (llama_get_memory L cx) s 0 (- 1)) [i..15]"
proof (induction "nat (16 - i)" arbitrary: i w)
  case 0
  then have "i = 16" by simp
  then show ?case by (subst clear_loop.simps) simp
next
  case (Suc n)
  then have lt: "i < 16" by simp
  have u: "[i..15] = i # [i + 1..15]" using lt by (simp add: upto_rec1)
  have "n = nat (16 - (i + 1))" using Suc(2) by simp
  from Suc(1)[OF this] Suc(3) lt
  have ih: "snd (clear_loop L cx (i + 1) w') =
      map (\<lambda>s. Memory_seq_rm (llama_get_memory L cx) s 0 (- 1)) [i + 1..15]" for w'
    by simp
  show ?case using lt by (subst clear_loop.simps) (simp add: Let_def ih u)
qed

lemma upto_0_15:
  "[0..15] = [0, 1, 2, 3, 4, 5, 6, 7, 8, 9, 10, 11, 12, 13, 14, 15 :: int]"
  by (simp add: upto_rec1)

lemma clear_loop_length: "length (snd (clear_loop L cx 0 w)) = 16"
  by (simp add: clear_loop_events)

lemma clear_loop_before_sampling: "list_all before_sampling (snd (clear_loop L cx 0 w))"
  by (simp add: clear_loop_events list_all_iff)

lemma setup_events_before_sampling:
  "list_all before_sampling (setup_events env nThreads maxTokens temp topP seed cx)"
  by (simp add: setup_events_def)

lemma capacity_check_before_sampling:
  "list_all before_sampling (capacity_check n p c)"
  by (simp add: capacity_check_def)

lemma before_sampling_event:
  "before_sampling e \<Longrightarrow>
     \<not> is_error e \<and> \<not> is_chain_init e \<and> \<not> is_stage e \<and> \<not> failed_decode e
       \<and> sampled (e # es) = sampled es"
  by (cases e) auto

lemma before_sampling_sampled: "list_all before_sampling pre \<Longrightarrow> sampled pre = []"
  by (induction pre) (auto simp: before_sampling_event)

lemma before_sampling_facts:
  assumes "list_all before_sampling pre"
  shows "\<not> list_ex is_error pre" and "\<not> list_ex is_chain_init pre"
    and "\<not> list_ex is_stage pre" and "\<not> list_ex failed_decode pre"
  using assms before_sampling_event by (auto simp: list_all_iff list_ex_iff)

lemma in_loop_event: "in_loop e \<Longrightarrow> \<not> is_chain_init e \<and> \<not> is_stage e"
  by (cases e) auto

lemma in_loop_facts:
  assumes "list_all in_loop ev"
  shows "\<not> list_ex is_chain_init ev" and "\<not> list_ex is_stage ev"
  using assms in_loop_event by (auto simp: list_all_iff list_ex_iff)

lemma prompt_end_ok: "prompt_end cx True ev \<Longrightarrow> list_all before_sampling ev"
  by (simp add: prompt_end_def)



lemma build_chain_stochastic:
  "\<not> feq T (Finite 0) \<Longrightarrow>
   \<exists>a b c. snd (build_chain L w smpl T P s) =
     [Sampler_init_top_p P 1 a, Sampler_chain_add smpl a,
      Sampler_init_temp T b, Sampler_chain_add smpl b,
      Sampler_init_dist s c, Sampler_chain_add smpl c]"
  by (simp add: build_chain_def Let_def)

text \<open>What a call that returns has done, by the place it returned from.\<close>

lemma sample_and_generate_cases [case_names no_chain generated]:
  assumes "sample_and_generate L env w cx vc maxTokens temp topP seed = (res, w', ev)"
  obtains (no_chain) "res = toJStr env []"
      "ev = [Sampler_chain_init 0, Log ERROR ''Failed to init sampler chain'' []]"
  | (generated) smpl w1 w3 g where "smpl \<noteq> 0"
      "g = generate L cx vc smpl (predict_of maxTokens) 0 w3 []"
      "res = toJStr env (fst g)"
      "ev = [Sampler_chain_init smpl]
              @ snd (build_chain L w1 smpl (temperature_of temp) (top_p_of topP) (seed_of L seed))
              @ [Sampler_reset smpl] @ snd (snd g) @ [Sampler_free smpl]"
proof (cases "fst (llama_sampler_chain_init L w) = 0")
  case True
  then show ?thesis using assms no_chain by (simp add: sample_and_generate_def Let_def)
next
  case False
  define smpl where "smpl = fst (llama_sampler_chain_init L w)"
  define w1 where "w1 = snd (llama_sampler_chain_init L w)"
  define w3 where "w3 = llama_sampler_reset L
      (fst (build_chain L w1 smpl (temperature_of temp) (top_p_of topP) (seed_of L seed))) smpl"
  define g where "g = generate L cx vc smpl (predict_of maxTokens) 0 w3 []"
  have ne: "smpl \<noteq> 0" using False by (simp add: smpl_def)
  have "sample_and_generate L env w cx vc maxTokens temp topP seed =
      (toJStr env (fst g), llama_sampler_free L (fst (snd g)) smpl,
       [Sampler_chain_init smpl]
         @ snd (build_chain L w1 smpl (temperature_of temp) (top_p_of topP) (seed_of L seed))
         @ [Sampler_reset smpl] @ snd (snd g) @ [Sampler_free smpl])"
    using False unfolding g_def w3_def w1_def smpl_def
    by (simp add: sample_and_generate_def Let_def)
  with assms have "res = toJStr env (fst g)"
    "ev = [Sampler_chain_init smpl]
         @ snd (build_chain L w1 smpl (temperature_of temp) (top_p_of topP) (seed_of L seed))
         @ [Sampler_reset smpl] @ snd (snd g) @ [Sampler_free smpl]"
    by simp_all
  then show ?thesis using generated[OF ne g_def] by blast
qed

lemma evaluate_and_generate_cases [case_names prompt_failed sampling]:
  assumes "evaluate_and_generate L env w cx vc toks n_prompt maxTokens temp topP seed
             = Some (Inr (res, w', ev))"
  obtains (prompt_failed) "res = toJStr env []" "prompt_end cx False ev"
  | (sampling) e4 w3 ev' where "prompt_end cx True e4"
      "sample_and_generate L env w3 cx vc maxTokens temp topP seed = (res, w', ev')"
      "ev = e4 @ ev'"
proof -
  from assms obtain y where
    y: "eval_prompt L cx toks n_prompt (sint (llama_n_batch L cx)) 0 w = Some y"
    by (auto simp: evaluate_and_generate_def Let_def split: option.splits)
  then obtain ok w3 e4 where y': "y = Inr (ok, w3, e4)"
    using assms by (cases y) (auto simp: evaluate_and_generate_def Let_def)
  have pe: "prompt_end cx ok e4" using eval_prompt_end[OF y] y' by simp
  show ?thesis
  proof (cases ok)
    case False
    then show ?thesis using assms y y' pe prompt_failed
      by (simp add: evaluate_and_generate_def Let_def)
  next
    case True
    obtain r1 r2 r3 where
      sg: "sample_and_generate L env w3 cx vc maxTokens temp topP seed = (r1, r2, r3)"
      by (cases "sample_and_generate L env w3 cx vc maxTokens temp topP seed") auto
    then show ?thesis using assms y y' pe True
      by (intro sampling[of e4 w3 r3]) (simp_all add: evaluate_and_generate_def Let_def prepend_def)
  qed
qed

lemma complete_prompt_cases
  [consumes 1, case_names empty no_tokens tokenize_failed evaluated]:
  assumes "complete_prompt L env w h prompt nThreads maxTokens temp topP seed
             = Some (Inr (res, w', tr))"
  obtains (empty) "prompt = []" "res = toJStr env []" "w' = w"
      "tr = [Log WARN ''Empty prompt'' []]"
  | (no_tokens) "prompt \<noteq> []" "count_tokens L (vocab h) prompt \<le> 0" "res = toJStr env []"
      "tr = snd (clear_loop L (ctx h) 0 w)
            @ setup_events env nThreads maxTokens temp topP seed (ctx h)
            @ [Log WARN ''Tokenization resulted in <= 0 tokens'' []]"
  | (tokenize_failed) "prompt \<noteq> []" "0 < count_tokens L (vocab h) prompt"
      "sint (fst (fill_tokens L (vocab h) prompt (count_tokens L (vocab h) prompt))) < 0"
      "res = toJStr env []"
      "tr = snd (clear_loop L (ctx h) 0 w)
            @ setup_events env nThreads maxTokens temp topP seed (ctx h)
            @ [Log ERROR ''Tokenization failed'' []]"
  | (evaluated) w2 ev where "prompt \<noteq> []" "0 < count_tokens L (vocab h) prompt"
      "0 \<le> sint (fst (fill_tokens L (vocab h) prompt (count_tokens L (vocab h) prompt)))"
      "evaluate_and_generate L env w2 (ctx h) (vocab h)
         (snd (fill_tokens L (vocab h) prompt (count_tokens L (vocab h) prompt)))
         (count_tokens L (vocab h) prompt) maxTokens temp topP seed = Some (Inr (res, w', ev))"
      "tr = snd (clear_loop L (ctx h) 0 w)
            @ setup_events env nThreads maxTokens temp topP seed (ctx h)
            @ capacity_check (count_tokens L (vocab h) prompt) (predict_of maxTokens)
                (sint (n_ctx h))
            @ ev"
proof (cases "prompt = []")
  case True
  then show ?thesis using assms empty by (simp add: complete_prompt_def)
next
  case ne: False
  define n where "n = count_tokens L (vocab h) prompt"
  show ?thesis
  proof (cases "n \<le> 0")
    case True
    then show ?thesis using assms ne no_tokens unfolding n_def
      by (simp add: complete_prompt_def Let_def)
  next
    case pos: False
    show ?thesis
    proof (cases "sint (fst (fill_tokens L (vocab h) prompt n)) < 0")
      case True
      then show ?thesis using assms ne pos tokenize_failed unfolding n_def
        by (simp add: complete_prompt_def Let_def)
    next
      case False
      define w2 where "w2 = llama_set_n_threads L (fst (clear_loop L (ctx h) 0 w)) (ctx h)
          (n_threads_of env nThreads) (n_threads_of env nThreads)"
      from assms ne pos False obtain y where
        y: "evaluate_and_generate L env w2 (ctx h) (vocab h) (snd (fill_tokens L (vocab h) prompt n))
              n maxTokens temp topP seed = Some y"
        and r: "Inr (res, w', tr) = prepend (snd (clear_loop L (ctx h) 0 w)
            @ setup_events env nThreads maxTokens temp topP seed (ctx h)
            @ capacity_check n (predict_of maxTokens) (sint (n_ctx h))) y"
        unfolding n_def w2_def by (auto simp: complete_prompt_def Let_def)
      from r obtain ev where "y = Inr (res, w', ev)"
        "tr = snd (clear_loop L (ctx h) 0 w)
            @ setup_events env nThreads maxTokens temp topP seed (ctx h)
            @ capacity_check n (predict_of maxTokens) (sint (n_ctx h)) @ ev"
        by (cases y) (auto simp: prepend_def)
      then show ?thesis using evaluated[of w2 ev] ne pos False y unfolding n_def by simp
    qed
  qed
qed

lemma nativeCompletion_cases [consumes 1, case_names rejected live]:
  assumes "nativeCompletion L env w hs jHandle jPrompt nThreads maxTokens temp topP seed
             = Some (Inr (res, w', tr))"
  obtains (rejected) "handle_rejected hs jHandle" "res = toJStr env []" "w' = w"
      "tr = [Log ERROR ''Invalid handle or context'' []]"
  | (live) h where "hs jHandle = Some h" "\<not> handle_rejected hs jHandle"
      "complete_prompt L env w h (std_string (GetStringUTFChars env jPrompt))
         nThreads maxTokens temp topP seed = Some (Inr (res, w', tr))"
  using assms
  by (cases "handle_rejected hs jHandle"; cases "hs jHandle")
     (auto simp: nativeCompletion_def)

lemma build_chain_stages:
  "list_all is_stage (snd (build_chain L w smpl T P s))"
  by (simp add: build_chain_def Let_def)

lemma stage_event: "is_stage e \<Longrightarrow> \<not> is_chain_init e \<and> \<not> is_error e \<and> \<not> failed_decode e
    \<and> \<not> is_log e \<and> sampled (e # es) = sampled es"
  by (cases e) auto

lemma stages_sampled: "list_all is_stage ev \<Longrightarrow> sampled ev = []"
  by (induction ev) (auto simp: stage_event)

lemma stages_facts:
  assumes "list_all is_stage ev"
  shows "\<not> list_ex is_chain_init ev" and "\<not> list_ex is_error ev"
    and "\<not> list_ex failed_decode ev" and "\<not> list_ex is_log ev"
  using assms stage_event by (auto simp: list_all_iff list_ex_iff)

text \<open>
  A call that returns either never created a sampler chain, or went through every
  stage: with \<open>pre\<close> the calls up to the evaluated prompt and the run of the generation
  loop after the chain was built and reset.
\<close>

lemma complete_prompt_structure:
  assumes "complete_prompt L env w h prompt nThreads maxTokens temp topP seed
             = Some (Inr (res, w', tr))"
  shows "(res = toJStr env [] \<and> sampled tr = [] \<and> \<not> list_ex is_chain_init tr
            \<and> \<not> list_ex is_stage tr)
     \<or> (\<exists>pre. list_all before_sampling pre \<and> res = toJStr env [] \<and>
          tr = pre @ [Sampler_chain_init 0, Log ERROR ''Failed to init sampler chain'' []])
     \<or> (\<exists>pre smpl w1 w3. list_all before_sampling pre \<and> smpl \<noteq> 0 \<and>
          res = toJStr env (fst (generate L (ctx h) (vocab h) smpl (predict_of maxTokens) 0 w3 []))
          \<and> tr = pre @ [Sampler_chain_init smpl]
              @ snd (build_chain L w1 smpl (temperature_of temp) (top_p_of topP) (seed_of L seed))
              @ [Sampler_reset smpl]
              @ snd (snd (generate L (ctx h) (vocab h) smpl (predict_of maxTokens) 0 w3 []))
              @ [Sampler_free smpl])"
  using assms(1)
proof (cases rule: complete_prompt_cases)
  case empty
  then show ?thesis by simp
next
  case no_tokens
  have c: "list_all before_sampling (snd (clear_loop L (ctx h) 0 w)
            @ setup_events env nThreads maxTokens temp topP seed (ctx h))"
    by (simp add: clear_loop_before_sampling setup_events_before_sampling)
  show ?thesis using no_tokens(3,4) before_sampling_facts(2,3)[OF c] before_sampling_sampled[OF c]
    by simp
next
  case tokenize_failed
  have c: "list_all before_sampling (snd (clear_loop L (ctx h) 0 w)
            @ setup_events env nThreads maxTokens temp topP seed (ctx h))"
    by (simp add: clear_loop_before_sampling setup_events_before_sampling)
  show ?thesis
    using tokenize_failed(4,5) before_sampling_facts(2,3)[OF c] before_sampling_sampled[OF c]
    by simp
next
  case (evaluated w2 ev)
  let ?pre0 = "snd (clear_loop L (ctx h) 0 w)
            @ setup_events env nThreads maxTokens temp topP seed (ctx h)
            @ capacity_check (count_tokens L (vocab h) prompt) (predict_of maxTokens)
                (sint (n_ctx h))"
  have p0: "list_all before_sampling ?pre0"
    by (simp add: clear_loop_before_sampling setup_events_before_sampling
        capacity_check_before_sampling)
  from evaluated(4) show ?thesis
  proof (cases rule: evaluate_and_generate_cases)
    case prompt_failed
    then obtain pre b rc where ev: "ev = pre @ [Decode (ctx h) b rc,
          Log ERROR ''llama_decode failed on prompt chunk'' []]" "list_all before_sampling pre"
      by (auto simp: prompt_end_def)
    have c: "list_all before_sampling (?pre0 @ pre)" using p0 ev(2) by simp
    have "tr = (?pre0 @ pre) @ [Decode (ctx h) b rc,
          Log ERROR ''llama_decode failed on prompt chunk'' []]"
      using evaluated(5) ev(1) by simp
    then show ?thesis
      using prompt_failed(1) before_sampling_facts(2,3)[OF c] before_sampling_sampled[OF c]
      by simp
  next
    case (sampling e4 w3 ev')
    have p: "list_all before_sampling (?pre0 @ e4)"
      using p0 prompt_end_ok[OF sampling(1)] by simp
    from sampling(2) show ?thesis
    proof (cases rule: sample_and_generate_cases)
      case no_chain
      have "\<exists>pre. list_all before_sampling pre \<and> res = toJStr env [] \<and>
          tr = pre @ [Sampler_chain_init 0, Log ERROR ''Failed to init sampler chain'' []]"
        using p evaluated(5) sampling(3) no_chain by (intro exI[of _ "?pre0 @ e4"]) simp
      then show ?thesis by blast
    next
      case (generated smpl w1 w3' g)
      have "\<exists>pre smpl w1 w3. list_all before_sampling pre \<and> smpl \<noteq> 0 \<and>
          res = toJStr env (fst (generate L (ctx h) (vocab h) smpl (predict_of maxTokens) 0 w3 []))
          \<and> tr = pre @ [Sampler_chain_init smpl]
              @ snd (build_chain L w1 smpl (temperature_of temp) (top_p_of topP) (seed_of L seed))
              @ [Sampler_reset smpl]
              @ snd (snd (generate L (ctx h) (vocab h) smpl (predict_of maxTokens) 0 w3 []))
              @ [Sampler_free smpl]"
        apply (rule exI[of _ "?pre0 @ e4"], rule exI[of _ smpl], rule exI[of _ w1],
          rule exI[of _ w3'])
        using p evaluated(5) sampling(3) generated by simp
      then show ?thesis by blast
    qed
  qed
qed

text \<open>When the call returns.\<close>

lemma fill_tokens_length:
  "0 \<le> n \<Longrightarrow> length (snd (fill_tokens L vc prompt n)) = nat n"
  by (simp add: fill_tokens_def Let_def)

lemma evaluate_and_generate_returns:
  assumes "0 < sint (llama_n_batch L cx)" and "n_prompt = int (length toks)"
    and "n_prompt + sint (llama_n_batch L cx) < 2 ^ 31"
  shows "\<exists>res w' ev. evaluate_and_generate L env w cx vc toks n_prompt maxTokens temp topP seed
           = Some (Inr (res, w', ev))"
proof -
  obtain ok w3 e4 where "spec_evaluate_chunks L cx
      (spec_chunks (nat (sint (llama_n_batch L cx))) (drop (nat 0) toks)) w = (ok, w3, e4)"
    using prod_cases3 by blast
  then have e: "eval_prompt L cx toks n_prompt (sint (llama_n_batch L cx)) 0 w
      = Some (Inr (ok, w3, e4))"
    using eval_prompt_chunks[OF assms, of 0 L cx w] by simp
  obtain r1 r2 r3 where
    "sample_and_generate L env w3 cx vc maxTokens temp topP seed = (r1, r2, r3)"
    using prod_cases3 by blast
  then show ?thesis using e
    by (cases ok) (simp_all add: evaluate_and_generate_def prepend_def)
qed

lemma complete_prompt_returns:
  assumes "0 < sint (llama_n_batch L (ctx h))"
    and "count_tokens L (vocab h) prompt + sint (llama_n_batch L (ctx h)) < 2 ^ 31"
  shows "\<exists>res w' tr. complete_prompt L env w h prompt nThreads maxTokens temp topP seed
           = Some (Inr (res, w', tr))"
proof -
  define n where "n = count_tokens L (vocab h) prompt"
  define w2 where "w2 = llama_set_n_threads L (fst (clear_loop L (ctx h) 0 w)) (ctx h)
          (n_threads_of env nThreads) (n_threads_of env nThreads)"
  show ?thesis
  proof (cases "prompt = [] \<or> n \<le> 0 \<or> sint (fst (fill_tokens L (vocab h) prompt n)) < 0")
    case True
    then show ?thesis unfolding n_def by (auto simp: complete_prompt_def Let_def)
  next
    case False
    then have "n = int (length (snd (fill_tokens L (vocab h) prompt n)))"
      by (simp add: fill_tokens_length)
    from evaluate_and_generate_returns[OF assms(1) this, of env w2 "vocab h" maxTokens
        temp topP seed] assms(2)
    obtain res w' ev where "evaluate_and_generate L env w2 (ctx h) (vocab h)
        (snd (fill_tokens L (vocab h) prompt n)) n maxTokens temp topP seed
           = Some (Inr (res, w', ev))"
      unfolding n_def by auto
    then show ?thesis using False unfolding n_def w2_def
      by (simp add: complete_prompt_def Let_def prepend_def)
  qed
qed

lemma nativeCompletion_returns:
  assumes "hs jHandle = Some h"
    and "0 < sint (llama_n_batch L (ctx h))"
    and "count_tokens L (vocab h) (std_string (GetStringUTFChars env jPrompt))
           + sint (llama_n_batch L (ctx h)) < 2 ^ 31"
  shows "\<exists>res w' tr. nativeCompletion L env w hs jHandle jPrompt nThreads maxTokens temp topP seed
           = Some (Inr (res, w', tr))"
  using assms(1) complete_prompt_returns[OF assms(2,3), of env w nThreads maxTokens temp topP seed]
  by (auto simp: nativeCompletion_def)

lemma nativeCompletion_structure:
  assumes "nativeCompletion L env w hs jHandle jPrompt nThreads maxTokens temp topP seed
             = Some (Inr (res, w', tr))"
    and "hs jHandle = Some h"
  shows "(res = toJStr env [] \<and> sampled tr = [] \<and> \<not> list_ex is_chain_init tr
            \<and> \<not> list_ex is_stage tr)
     \<or> (\<exists>pre. list_all before_sampling pre \<and> res = toJStr env [] \<and>
          tr = pre @ [Sampler_chain_init 0, Log ERROR ''Failed to init sampler chain'' []])
     \<or> (\<exists>pre smpl w1 w3. list_all before_sampling pre \<and> smpl \<noteq> 0 \<and>
          res = toJStr env (fst (generate L (ctx h) (vocab h) smpl (predict_of maxTokens) 0 w3 []))
          \<and> tr = pre @ [Sampler_chain_init smpl]
              @ snd (build_chain L w1 smpl (temperature_of temp) (top_p_of topP) (seed_of L seed))
              @ [Sampler_reset smpl]
              @ snd (snd (generate L (ctx h) (vocab h) smpl (predict_of maxTokens) 0 w3 []))
              @ [Sampler_free smpl])"
  using assms(1)
proof (cases rule: nativeCompletion_cases)
  case rejected
  then show ?thesis by simp
next
  case (live h')
  then have "h' = h" using assms(2) by simp
  then show ?thesis using complete_prompt_structure[OF live(3)] by simp
qed

lemma nativeCompletion_bounded_returns:
  assumes "hs jHandle = Some h" and "prompt_loop_bounded L env h jPrompt"
  shows "\<exists>res w' tr. nativeCompletion L env w hs jHandle jPrompt nThreads maxTokens temp topP seed
           = Some (Inr (res, w', tr))"
  using assms nativeCompletion_returns[of hs jHandle h L env jPrompt]
  by (simp add: prompt_loop_bounded_def)

lemma no_log_no_error: "\<not> list_ex is_log ev \<Longrightarrow> \<not> list_ex is_error ev"
proof -
  have "is_error e \<Longrightarrow> is_log e" for e by (cases e) auto
  then show "\<not> list_ex is_log ev \<Longrightarrow> \<not> list_ex is_error ev"
    by (auto simp: list_ex_iff)
qed

text \<open>The tokens a run of the loop sampled: only the last can end the generation.\<close>

lemma eog_is_last:
  assumes "list_all (\<lambda>t. \<not> E t) (butlast xs)" and "0 < k" and "k \<le> length xs"
    and "E (xs ! (k - 1))"
  shows "length xs = k" and "filter (\<lambda>t. \<not> E t) xs = take (k - 1) xs"
    and "last xs = xs ! (k - 1)" and "list_ex E xs"
proof -
  have ne: "xs \<noteq> []" using assms(2,3) by auto
  show len: "length xs = k"
  proof (rule ccontr)
    assume "length xs \<noteq> k"
    then have "k - 1 < length (butlast xs)" using assms(2,3) by simp
    then have "\<not> E (butlast xs ! (k - 1))" using assms(1) by (simp add: list_all_length)
    moreover have "butlast xs ! (k - 1) = xs ! (k - 1)"
      using \<open>k - 1 < length (butlast xs)\<close> by (simp add: nth_butlast)
    ultimately show False using assms(4) by simp
  qed
  show l: "last xs = xs ! (k - 1)" using ne len by (simp add: last_conv_nth)
  have xs: "xs = butlast xs @ [last xs]" using ne by simp
  have "filter (\<lambda>t. \<not> E t) xs = filter (\<lambda>t. \<not> E t) (butlast xs) @ filter (\<lambda>t. \<not> E t) [last xs]"
    by (subst xs) simp
  also have "\<dots> = butlast xs" using assms(1,4) l by (simp add: list_all_iff)
  also have "\<dots> = take (k - 1) xs" using len by (simp add: butlast_conv_take)
  finally show "filter (\<lambda>t. \<not> E t) xs = take (k - 1) xs" .
  show "list_ex E xs" using assms(2,3,4) by (auto simp: list_ex_iff intro!: bexI[of _ "xs ! (k - 1)"])
qed

lemma from_chain_init_none: "\<not> list_ex is_chain_init tr \<Longrightarrow> from_chain_init tr = []"
  by (simp add: from_chain_init_def list_ex_iff)

lemma from_chain_init_at:
  "\<not> list_ex is_chain_init pre \<Longrightarrow>
   from_chain_init (pre @ Sampler_chain_init smpl # rest) = Sampler_chain_init smpl # rest"
  by (simp add: from_chain_init_def list_ex_iff dropWhile_append2)

lemma before_chain_init_at:
  "\<not> list_ex is_chain_init pre \<Longrightarrow>
   before_chain_init (pre @ Sampler_chain_init smpl # rest) = pre"
  by (simp add: before_chain_init_def list_ex_iff takeWhile_append2)

lemma before_chain_init_none: "\<not> list_ex is_chain_init tr \<Longrightarrow> before_chain_init tr = tr"
  by (simp add: before_chain_init_def list_ex_iff)

text \<open>What a request returns and does to the engine, read without the log.\<close>

lemma unlogged_prepend:
  assumes "filter (\<lambda>e. \<not> is_log e) e1 = filter (\<lambda>e. \<not> is_log e) e2"
  shows "unlogged (map_option (prepend e1) r) = unlogged (map_option (prepend e2) r)"
proof (cases r)
  case None
  then show ?thesis by (simp add: unlogged_def)
next
  case (Some y)
  then show ?thesis using assms
    by (cases y) (auto simp: unlogged_def prepend_def)
qed

lemma setup_events_unlogged:
  "filter (\<lambda>e. \<not> is_log e) (setup_events env nThreads maxTokens temp topP seed cx) =
     [Set_n_threads cx (n_threads_of env nThreads) (n_threads_of env nThreads)]"
  by (simp add: setup_events_def)

lemma capacity_check_unlogged: "filter (\<lambda>e. \<not> is_log e) (capacity_check n p c) = []"
  by (simp add: capacity_check_def)

lemma evaluate_and_generate_cong:
  assumes "\<And>w3. sample_and_generate L env w3 cx vc m1 t1 p1 s1
                 = sample_and_generate L env w3 cx vc m2 t2 p2 s2"
  shows "evaluate_and_generate L env w cx vc toks n m1 t1 p1 s1
           = evaluate_and_generate L env w cx vc toks n m2 t2 p2 s2"
  unfolding evaluate_and_generate_def Let_def
  by (auto simp: assms split: option.splits sum.splits)

lemma complete_prompt_unlogged_cong:
  assumes "ctx h1 = ctx h2" and "vocab h1 = vocab h2"
    and "\<And>w3. sample_and_generate L env w3 (ctx h1) (vocab h1) m1 t1 p1 s1
                 = sample_and_generate L env w3 (ctx h1) (vocab h1) m2 t2 p2 s2"
  shows "unlogged (complete_prompt L env w h1 prompt nThreads m1 t1 p1 s1)
           = unlogged (complete_prompt L env w h2 prompt nThreads m2 t2 p2 s2)"
proof -
  define n where "n = count_tokens L (vocab h1) prompt"
  define cl where "cl = clear_loop L (ctx h1) 0 w"
  define w2 where "w2 = llama_set_n_threads L (fst cl) (ctx h1)
          (n_threads_of env nThreads) (n_threads_of env nThreads)"
  define E1 where "E1 = snd cl @ setup_events env nThreads m1 t1 p1 s1 (ctx h1)"
  define E2 where "E2 = snd cl @ setup_events env nThreads m2 t2 p2 s2 (ctx h1)"
  have E: "filter (\<lambda>e. \<not> is_log e) E1 = filter (\<lambda>e. \<not> is_log e) E2"
    by (simp add: E1_def E2_def setup_events_unlogged)
  have c1: "complete_prompt L env w h1 prompt nThreads m1 t1 p1 s1 =
      (if prompt = [] then Some (Inr (toJStr env [], w, [Log WARN ''Empty prompt'' []]))
       else if n \<le> 0 then Some (Inr (toJStr env [], w2,
                  E1 @ [Log WARN ''Tokenization resulted in <= 0 tokens'' []]))
       else if sint (fst (fill_tokens L (vocab h1) prompt n)) < 0
            then Some (Inr (toJStr env [], w2, E1 @ [Log ERROR ''Tokenization failed'' []]))
       else map_option (prepend (E1 @ capacity_check n (predict_of m1) (sint (n_ctx h1))))
              (evaluate_and_generate L env w2 (ctx h1) (vocab h1)
                 (snd (fill_tokens L (vocab h1) prompt n)) n m1 t1 p1 s1))"
    unfolding complete_prompt_def Let_def n_def cl_def w2_def E1_def by simp
  have c2: "complete_prompt L env w h2 prompt nThreads m2 t2 p2 s2 =
      (if prompt = [] then Some (Inr (toJStr env [], w, [Log WARN ''Empty prompt'' []]))
       else if n \<le> 0 then Some (Inr (toJStr env [], w2,
                  E2 @ [Log WARN ''Tokenization resulted in <= 0 tokens'' []]))
       else if sint (fst (fill_tokens L (vocab h1) prompt n)) < 0
            then Some (Inr (toJStr env [], w2, E2 @ [Log ERROR ''Tokenization failed'' []]))
       else map_option (prepend (E2 @ capacity_check n (predict_of m2) (sint (n_ctx h2))))
              (evaluate_and_generate L env w2 (ctx h1) (vocab h1)
                 (snd (fill_tokens L (vocab h1) prompt n)) n m2 t2 p2 s2))"
    unfolding complete_prompt_def Let_def n_def cl_def w2_def E2_def assms(1,2) by simp
  have eg: "evaluate_and_generate L env w2 (ctx h1) (vocab h1)
                 (snd (fill_tokens L (vocab h1) prompt n)) n m1 t1 p1 s1
      = evaluate_and_generate L env w2 (ctx h1) (vocab h1)
                 (snd (fill_tokens L (vocab h1) prompt n)) n m2 t2 p2 s2"
    by (rule evaluate_and_generate_cong) (rule assms(3))
  have up: "unlogged (map_option (prepend (E1 @ capacity_check n (predict_of m1) (sint (n_ctx h1)))) r)
      = unlogged (map_option (prepend (E2 @ capacity_check n (predict_of m2) (sint (n_ctx h2)))) r)"
    for r :: "(ub + 'b \<times> 'a \<times> event list) option"
    by (rule unlogged_prepend) (simp add: E capacity_check_unlogged)
  show ?thesis unfolding c1 c2 eg
    using E up by (simp add: unlogged_def)
qed



lemma temperature_of_positive: "fless (Finite 0) temp \<Longrightarrow> temperature_of temp = temp"
  by (simp add: temperature_of_def std_max_def)

lemma positive_not_zero: "fless (Finite 0) temp \<Longrightarrow> \<not> feq temp (Finite 0)"
  by (cases temp) auto

lemma temperature_of_zero:
  "temperature_of temp = Finite 0 \<longleftrightarrow> \<not> fless (Finite 0) temp"
  by (cases temp) (auto simp: temperature_of_def std_max_def)

lemma top_p_of_cases:
  "top_p_of topP =
     (case topP of
        Finite p \<Rightarrow> if p \<le> 0 then f_0_95 else if 1 < p then Finite 1 else Finite p
      | PInf \<Rightarrow> Finite 1
      | NInf \<Rightarrow> f_0_95
      | NaN \<Rightarrow> NaN)"
  by (cases topP) (auto simp: top_p_of_def std_clamp_def Let_def)



lemma filter_stage_all: "list_all is_stage ev \<Longrightarrow> filter is_stage ev = ev"
  by (simp add: list_all_iff)

text \<open>The batch size \<open>nativeLoadModel\<close> configures.\<close>

lemma context_params_n_ctx_pos: "cp_n_ctx (context_params env jNCtx) \<noteq> 0"
  by (auto simp: context_params_def Let_def)

lemma unat_512: "unat (512 :: 32 word) = 512"
  by simp

lemma small_word_sint:
  fixes x :: "32 word"
  assumes "unat x \<le> 512"
  shows "sint x = int (unat x)"
proof -
  have p: "(2 :: int) ^ 31 = 2147483648" by simp
  have "int (unat x) < 2147483648" using assms by linarith
  then have lt: "uint x < 2 ^ 31" unfolding p by simp
  have ge: "- (2 ^ 31) \<le> uint x"
  proof -
    have "(0 :: int) \<le> uint x" by simp
    then show ?thesis unfolding p by linarith
  qed
  have "sint x = signed_take_bit 31 (uint x)" by (simp add: sint_uint)
  also have "\<dots> = uint x" using ge lt by (rule signed_take_bit_int_eq_self)
  finally show ?thesis by simp
qed

lemma min_512_word:
  fixes nc :: "32 word"
  shows "unat (if (512 :: 32 word) \<le> nc then 512 else nc) = min 512 (unat nc)"
proof (cases "(512 :: 32 word) \<le> nc")
  case True
  then have "unat (512 :: 32 word) \<le> unat nc" unfolding word_le_nat_alt .
  then have "512 \<le> unat nc" unfolding unat_512 .
  then have "min 512 (unat nc) = 512" by (rule min_absorb1)
  then show ?thesis using True unat_512 by (simp only: if_True)
next
  case False
  then have "\<not> unat (512 :: 32 word) \<le> unat nc" unfolding word_le_nat_alt .
  then have "\<not> 512 \<le> unat nc" unfolding unat_512 .
  then have "unat nc \<le> 512" by linarith
  then have "min 512 (unat nc) = unat nc" by (rule min_absorb2)
  then show ?thesis using False by (simp only: if_False)
qed

lemma context_params_n_batch:
  "unat (cp_n_batch (context_params env jNCtx))
     = min 512 (unat (cp_n_ctx (context_params env jNCtx)))"
proof -
  define nc where "nc = cp_n_ctx (context_params env jNCtx)"
  have "cp_n_batch (context_params env jNCtx) = (if (512 :: 32 word) \<le> nc then 512 else nc)"
    unfolding nc_def context_params_def Let_def by (simp only: llama_context_params.simps)
  then show ?thesis unfolding nc_def[symmetric] by (simp only: min_512_word)
qed

lemma context_params_n_batch_sint:
  "sint (cp_n_batch (context_params env jNCtx))
     = int (min 512 (unat (cp_n_ctx (context_params env jNCtx))))"
proof -
  have "unat (cp_n_batch (context_params env jNCtx)) \<le> 512"
    unfolding context_params_n_batch by (rule min.cobounded1)
  from small_word_sint[OF this] show ?thesis unfolding context_params_n_batch .
qed

lemma context_params_n_batch_pos:
  "0 < min 512 (unat (cp_n_ctx (context_params env jNCtx)))"
  using context_params_n_ctx_pos[of env jNCtx] by (simp add: unat_gt_0)

text \<open>
  The handle \<open>nativeLoadModel\<close> returns holds the context window it asked the engine
  for, and the engine was asked for a batch size of \<open>min(512, n_ctx)\<close>.
\<close>

lemma nativeLoadModel_handle:
  assumes "nativeLoadModel L env w hs jModelPath jNCtx = (a, w', hs', ev)"
    and "list_ex (\<lambda>e. e = Log INFO ''Model loaded. n_ctx=%d, n_batch=%u, n_threads=%d''
             [LInt (sint (cp_n_ctx (context_params env jNCtx))),
              LUInt (unat (cp_n_batch (context_params env jNCtx))),
              LInt (cp_n_threads (context_params env jNCtx))]) ev"
  shows "\<exists>h. hs' a = Some h \<and> n_ctx h = cp_n_ctx (context_params env jNCtx)
           \<and> ctx h \<noteq> 0 \<and> model h \<noteq> 0
           \<and> list_ex (\<lambda>e. e = Init_from_model (model h) (context_params env jNCtx) (ctx h)) ev"
  using assms
  by (auto simp: nativeLoadModel_def Let_def split: if_splits)

text \<open>The calls of a chunked evaluation.\<close>

lemma decoded_before_sampling_log:
  "decoded (Log lv msg args # ev) = decoded ev"
  by simp

lemma spec_evaluate_chunks_calls:
  "prompt_end cx (fst (spec_evaluate_chunks L cx cs w)) (snd (snd (spec_evaluate_chunks L cx cs w)))
   \<and> (\<exists>j\<le>length cs. decoded (snd (snd (spec_evaluate_chunks L cx cs w))) = take j cs
         \<and> (fst (spec_evaluate_chunks L cx cs w) \<longrightarrow> j = length cs))
   \<and> list_all (decode_for cx) (snd (snd (spec_evaluate_chunks L cx cs w)))"
proof (induction cs arbitrary: w)
  case Nil
  show ?case by (simp add: prompt_end_def)
next
  case (Cons c cs)
  define b where "b = \<lparr>n_tokens = int (length c), token = c\<rparr>"
  define r where "r = llama_decode L w cx b"
  define q where "q = spec_evaluate_chunks L cx cs (snd r)"
  show ?case
  proof (cases "fst r = 0")
    case False
    then have e: "spec_evaluate_chunks L cx (c # cs) w = (False, snd r,
        [Decode cx b (fst r), Log ERROR ''llama_decode failed on prompt chunk'' []])"
      by (simp add: Let_def b_def r_def)
    have "prompt_end cx False
        [Decode cx b (fst r), Log ERROR ''llama_decode failed on prompt chunk'' []]"
      unfolding prompt_end_def using False
      by (simp only: if_False) (rule exI[of _ "[]"], simp)
    moreover have "decoded [Decode cx b (fst r),
        Log ERROR ''llama_decode failed on prompt chunk'' []] = take 1 (c # cs)"
      by (simp add: b_def)
    ultimately show ?thesis unfolding e
      by (simp only: fst_conv snd_conv) (auto simp: b_def intro!: exI[of _ 1])
  next
    case True
    then have e: "spec_evaluate_chunks L cx (c # cs) w =
        (fst q, fst (snd q), Decode cx b 0 # snd (snd q))"
      by (simp add: Let_def b_def r_def q_def)
    from Cons[of "snd r"] obtain j where
      ih: "prompt_end cx (fst q) (snd (snd q))" "j \<le> length cs"
          "decoded (snd (snd q)) = take j cs" "fst q \<longrightarrow> j = length cs"
          "list_all (decode_for cx) (snd (snd q))"
      unfolding q_def by blast
    have "decoded (Decode cx b 0 # snd (snd q)) = take (Suc j) (c # cs)"
      using ih(3) by (simp add: b_def)
    moreover have "Suc j \<le> length (c # cs)" using ih(2) by simp
    moreover have "fst q \<longrightarrow> Suc j = length (c # cs)" using ih(4) by simp
    ultimately have "\<exists>j\<le>length (c # cs). decoded (Decode cx b 0 # snd (snd q)) = take j (c # cs)
         \<and> (fst q \<longrightarrow> j = length (c # cs))" by blast
    then show ?thesis unfolding e using prompt_end_Cons[OF ih(1), of b] ih(5)
      by (simp add: b_def)
  qed
qed

lemma prompt_end_failed:
  "prompt_end cx ok ev \<Longrightarrow> list_ex failed_decode ev \<longleftrightarrow> \<not> ok"
  by (cases ok) (auto simp: prompt_end_def before_sampling_facts(4))

lemma prompt_end_no_chain_init:
  "prompt_end cx ok ev \<Longrightarrow> \<not> list_ex is_chain_init ev"
  by (cases ok) (auto simp: prompt_end_def before_sampling_facts(2))

lemma decoded_no_decode: "\<not> list_ex is_decode ev \<Longrightarrow> decoded ev = []"
proof (induction ev)
  case Nil
  show ?case by simp
next
  case (Cons e ev)
  then show ?case by (cases e) auto
qed

lemma setup_no_decode:
  "\<not> list_ex is_decode (snd (clear_loop L cx 0 w)
      @ setup_events env nThreads maxTokens temp topP seed cx' @ capacity_check n p c)"
  by (auto simp: clear_loop_events setup_events_def capacity_check_def list_ex_iff)

lemma setup_decode_for:
  "list_all (decode_for cx'') (snd (clear_loop L cx 0 w)
      @ setup_events env nThreads maxTokens temp topP seed cx' @ capacity_check n p c)"
  by (auto simp: clear_loop_events setup_events_def capacity_check_def list_all_iff)

lemma sample_and_generate_starts:
  "\<exists>smpl rest. snd (snd (sample_and_generate L env w cx vc maxTokens temp topP seed))
     = Sampler_chain_init smpl # rest"
  by (simp add: sample_and_generate_def Let_def)

lemma complete_prompt_evaluated:
  assumes "prompt \<noteq> []" and "0 < count_tokens L (vocab h) prompt"
    and "0 \<le> sint (fst (fill_tokens L (vocab h) prompt (count_tokens L (vocab h) prompt)))"
  shows "complete_prompt L env w h prompt nThreads maxTokens temp topP seed =
     map_option
       (prepend (snd (clear_loop L (ctx h) 0 w)
          @ setup_events env nThreads maxTokens temp topP seed (ctx h)
          @ capacity_check (count_tokens L (vocab h) prompt) (predict_of maxTokens)
              (sint (n_ctx h))))
       (evaluate_and_generate L env
          (llama_set_n_threads L (fst (clear_loop L (ctx h) 0 w)) (ctx h)
             (n_threads_of env nThreads) (n_threads_of env nThreads))
          (ctx h) (vocab h)
          (snd (fill_tokens L (vocab h) prompt (count_tokens L (vocab h) prompt)))
          (count_tokens L (vocab h) prompt) maxTokens temp topP seed)"
  using assms unfolding complete_prompt_def Let_def by simp

lemma evaluate_and_generate_chunks:
  assumes "0 < sint (llama_n_batch L cx)" and "n = int (length toks)"
    and "n + sint (llama_n_batch L cx) < 2 ^ 31"
    and "r = spec_evaluate_chunks L cx (spec_chunks (nat (sint (llama_n_batch L cx))) toks) w"
  shows "evaluate_and_generate L env w cx vc toks n maxTokens temp topP seed =
     (if \<not> fst r then Some (Inr (toJStr env [], fst (snd r), snd (snd r)))
      else Some (prepend (snd (snd r))
             (Inr (sample_and_generate L env (fst (snd r)) cx vc maxTokens temp topP seed))))"
proof -
  have "eval_prompt L cx toks n (sint (llama_n_batch L cx)) 0 w = Some (Inr r)"
    using eval_prompt_chunks[OF assms(1,2,3), of 0 L cx w] assms(4) by simp
  then show ?thesis
    by (cases r) (simp add: evaluate_and_generate_def Let_def)
qed

text \<open>
  The capacity check. The test of the bridge is the comparison of the specification as long
  as the sum fits an \<open>int\<close>; the warning is then logged; and whatever the test says, the
  request goes on: the context size of the handle is read by nothing but the test and
  its log line.
\<close>

lemma capacity_exceeded_exact:
  assumes "- (2 ^ 31) \<le> n_prompt + predict" and "n_prompt + predict + 8 < 2 ^ 31"
  shows "capacity_exceeded n_prompt predict nctx \<longleftrightarrow> nctx < n_prompt + predict + 8"
proof -
  have a: "s32 (n_prompt + predict) = n_prompt + predict"
    using assms by (intro s32_id) simp_all
  have b: "s32 (n_prompt + predict + 8) = n_prompt + predict + 8"
    using assms by (intro s32_id) simp_all
  show ?thesis unfolding capacity_exceeded_def a b ..
qed

lemma capacity_check_warns:
  assumes "- (2 ^ 31) \<le> n_prompt + predict" and "n_prompt + predict + 8 < 2 ^ 31"
    and "nctx < n_prompt + predict + 8"
  shows "capacity_check n_prompt predict nctx =
     [Log WARN ''Potential context overflow: n_prompt=%d, n_predict=%d, n_ctx=%d''
        [LInt n_prompt, LInt predict, LInt nctx]]"
  using assms unfolding capacity_check_def by (simp add: capacity_exceeded_exact)

lemma capacity_check_never_rejects:
  assumes "hs jHandle = Some h"
  shows "unlogged (nativeCompletion L env w hs jHandle jPrompt nThreads maxTokens temp topP seed)
       = unlogged (nativeCompletion L env w (hs(jHandle \<mapsto> h\<lparr>n_ctx := c\<rparr>)) jHandle jPrompt
                     nThreads maxTokens temp topP seed)"
proof -
  have r: "handle_rejected (hs(jHandle \<mapsto> h\<lparr>n_ctx := c\<rparr>)) jHandle = handle_rejected hs jHandle"
    using assms by (simp add: handle_rejected_def)
  have c: "unlogged (complete_prompt L env w h (std_string (GetStringUTFChars env jPrompt))
                nThreads maxTokens temp topP seed)
         = unlogged (complete_prompt L env w (h\<lparr>n_ctx := c\<rparr>)
                (std_string (GetStringUTFChars env jPrompt)) nThreads maxTokens temp topP seed)"
    by (rule complete_prompt_unlogged_cong) simp_all
  show ?thesis unfolding nativeCompletion_def r using assms c by simp
qed

text \<open>
  The state a request leaves the engine in is the one its calls produce, in the order
  they were made.
\<close>

lemma replay_Nil [simp]: "replay L [] w = w"
  by (simp add: replay_def)

lemma replay_Cons [simp]: "replay L (e # evs) w = replay L evs (call L e w)"
  by (simp add: replay_def)

lemma replay_append [simp]: "replay L (xs @ ys) w = replay L ys (replay L xs w)"
  by (simp add: replay_def)

lemma replay_logs: "list_all is_log evs \<Longrightarrow> replay L evs w = w"
proof (induction evs arbitrary: w)
  case Nil
  show ?case by simp
next
  case (Cons e evs)
  then show ?case by (cases e) simp_all
qed

lemma clear_loop_replay:
  "fst (clear_loop L cx i w) = replay L (snd (clear_loop L cx i w)) w"
proof (induction "nat (16 - i)" arbitrary: i w)
  case 0
  then have "\<not> i < 16" by simp
  then show ?case by (subst (1 2) clear_loop.simps) simp
next
  case (Suc n)
  then have lt: "i < 16" by simp
  have "n = nat (16 - (i + 1))" using Suc(2) by simp
  note ih = Suc(1)[OF this]
  show ?case using lt by (subst (1 2) clear_loop.simps) (simp add: Let_def ih)
qed

lemma eval_prompt_replay:
  assumes "eval_prompt L cx toks n_prompt n_batch i w = Some y"
  shows "\<forall>ok w' ev. y = Inr (ok, w', ev) \<longrightarrow> w' = replay L ev w"
proof (rule eval_prompt.raw_induct[where P = "\<lambda>L cx toks n_prompt n_batch i w y.
         \<forall>ok w' ev. y = Inr (ok, w', ev) \<longrightarrow> w' = replay L ev w", OF _ assms], goal_cases)
  case (1 eval_prompt L cx toks n_prompt n_batch i w y)
  show ?case
  proof (cases "i < n_prompt")
    case False
    then show ?thesis using 1(2) by auto
  next
    case True
    note lt = this
    show ?thesis
    proof (cases "i < 0")
      case True
      then show ?thesis using 1(2) lt by auto
    next
      case False
      define batch where "batch = llama_batch_get_one toks i (min n_batch (n_prompt - i))"
      define r where "r = llama_decode L w cx batch"
      show ?thesis
      proof (cases "fst r = 0")
        case False
        then have "y = Inr (False, snd r, [Decode cx batch (fst r),
                        Log ERROR ''llama_decode failed on prompt chunk'' []])"
          using 1(2) lt \<open>\<not> i < 0\<close> by (simp add: Let_def r_def batch_def)
        then show ?thesis by (auto simp: r_def)
      next
        case True
        then obtain res where
          res: "eval_prompt L cx toks n_prompt n_batch (s32 (i + n_batch)) (snd r) = Some res"
               "y = prepend [Decode cx batch 0] res"
          using 1(2) lt \<open>\<not> i < 0\<close>
          by (auto simp: Let_def r_def batch_def bind_eq_Some_conv)
        from 1(1)[OF res(1)] res(2) show ?thesis
          by (auto simp: prepend_def r_def split: sum.splits)
      qed
    qed
  qed
qed

lemma build_chain_replay:
  "fst (build_chain L w smpl T P s) = replay L (snd (build_chain L w smpl T P s)) w"
  by (simp add: build_chain_def Let_def)

lemma generate_replay:
  "fst (snd (generate L cx vc smpl predict t w out))
     = replay L (snd (snd (generate L cx vc smpl predict t w out))) w"
proof (induction "nat (predict - t)" arbitrary: t w out)
  case 0
  then have "\<not> t < predict" by simp
  then show ?case by (simp add: generate_stop)
next
  case (Suc n)
  have lt: "t < predict" using Suc(2) by simp
  define sm where "sm = llama_sampler_sample L w smpl cx (- 1)"
  define d where "d = llama_decode L (llama_sampler_accept L (snd sm) smpl (fst sm)) cx
               (llama_batch_get_one [fst sm] 0 1)"
  define r where "r = generate L cx vc smpl predict (t + 1) (snd d) (out @ piece L vc (fst sm))"
  have ih: "fst (snd r) = replay L (snd (snd r)) (snd d)"
    unfolding r_def using Suc(1)[of "t + 1"] Suc(2) by simp
  consider (a) "llama_vocab_is_eog L vc (fst sm)"
    | (b) "\<not> llama_vocab_is_eog L vc (fst sm)" "fst d \<noteq> 0"
    | (c) "\<not> llama_vocab_is_eog L vc (fst sm)" "fst d = 0" by blast
  then show ?case
  proof cases
    case a
    show ?thesis unfolding generate_eog[OF lt sm_def a] by (simp add: sm_def)
  next
    case b
    show ?thesis unfolding generate_fail[OF lt sm_def b(1) d_def b(2)]
      by (simp add: sm_def d_def)
  next
    case c
    show ?thesis unfolding generate_cont[OF lt sm_def c(1) d_def c(2) r_def]
      by (simp add: ih) (simp add: sm_def d_def)
  qed
qed

lemma sample_and_generate_replay:
  assumes "sample_and_generate L env w cx vc maxTokens temp topP seed = (res, w', ev)"
  shows "w' = replay L ev w"
proof (cases "fst (llama_sampler_chain_init L w) = 0")
  case True
  then show ?thesis using assms by (auto simp: sample_and_generate_def Let_def)
next
  case False
  define smpl where "smpl = fst (llama_sampler_chain_init L w)"
  define w1 where "w1 = snd (llama_sampler_chain_init L w)"
  define bc where
    "bc = build_chain L w1 smpl (temperature_of temp) (top_p_of topP) (seed_of L seed)"
  define w3 where "w3 = llama_sampler_reset L (fst bc) smpl"
  define g where "g = generate L cx vc smpl (predict_of maxTokens) 0 w3 []"
  have "sample_and_generate L env w cx vc maxTokens temp topP seed =
      (toJStr env (fst g), llama_sampler_free L (fst (snd g)) smpl,
       [Sampler_chain_init smpl] @ snd bc @ [Sampler_reset smpl] @ snd (snd g)
         @ [Sampler_free smpl])"
    using False unfolding g_def w3_def bc_def w1_def smpl_def
    by (simp add: sample_and_generate_def Let_def)
  with assms have w': "w' = llama_sampler_free L (fst (snd g)) smpl"
    and ev: "ev = [Sampler_chain_init smpl] @ snd bc @ [Sampler_reset smpl] @ snd (snd g)
         @ [Sampler_free smpl]"
    by simp_all
  have b: "fst bc = replay L (snd bc) w1" unfolding bc_def by (rule build_chain_replay)
  have g': "fst (snd g) = replay L (snd (snd g)) w3" unfolding g_def by (rule generate_replay)
  show ?thesis unfolding w' ev by (simp add: g' w3_def b w1_def)
qed

lemma evaluate_and_generate_replay:
  assumes "evaluate_and_generate L env w cx vc toks n_prompt maxTokens temp topP seed
             = Some (Inr (res, w', ev))"
  shows "w' = replay L ev w"
proof -
  from assms obtain y where
    y: "eval_prompt L cx toks n_prompt (sint (llama_n_batch L cx)) 0 w = Some y"
    by (auto simp: evaluate_and_generate_def Let_def split: option.splits)
  then obtain ok w3 e4 where y': "y = Inr (ok, w3, e4)"
    using assms by (cases y) (auto simp: evaluate_and_generate_def Let_def)
  have w3: "w3 = replay L e4 w" using eval_prompt_replay[OF y] y' by simp
  show ?thesis
  proof (cases ok)
    case False
    then show ?thesis using assms y y' w3 by (auto simp: evaluate_and_generate_def Let_def)
  next
    case True
    obtain r1 r2 r3 where
      sg: "sample_and_generate L env w3 cx vc maxTokens temp topP seed = (r1, r2, r3)"
      by (cases "sample_and_generate L env w3 cx vc maxTokens temp topP seed") auto
    from sample_and_generate_replay[OF sg] have "r2 = replay L r3 w3" .
    then show ?thesis using assms y y' True sg w3
      by (auto simp: evaluate_and_generate_def Let_def prepend_def)
  qed
qed

lemma setup_events_replay:
  "replay L (setup_events env nThreads maxTokens temp topP seed cx) w
     = llama_set_n_threads L w cx (n_threads_of env nThreads) (n_threads_of env nThreads)"
  by (simp add: setup_events_def)

lemma capacity_check_replay: "replay L (capacity_check n p c) w = w"
  by (simp add: capacity_check_def)

lemma complete_prompt_replay:
  assumes "complete_prompt L env w h prompt nThreads maxTokens temp topP seed
             = Some (Inr (res, w', tr))"
  shows "w' = replay L tr w"
  using assms
proof (cases rule: complete_prompt_cases)
  case empty
  then show ?thesis by simp
next
  case no_tokens
  then show ?thesis using assms
    by (simp add: complete_prompt_def Let_def setup_events_replay clear_loop_replay)
next
  case tokenize_failed
  then show ?thesis using assms
    by (simp add: complete_prompt_def Let_def setup_events_replay clear_loop_replay)
next
  case (evaluated w2 ev)
  define v where "v = llama_set_n_threads L (fst (clear_loop L (ctx h) 0 w)) (ctx h)
             (n_threads_of env nThreads) (n_threads_of env nThreads)"
  have "complete_prompt L env w h prompt nThreads maxTokens temp topP seed =
     map_option
       (prepend (snd (clear_loop L (ctx h) 0 w)
          @ setup_events env nThreads maxTokens temp topP seed (ctx h)
          @ capacity_check (count_tokens L (vocab h) prompt) (predict_of maxTokens)
              (sint (n_ctx h))))
       (evaluate_and_generate L env v (ctx h) (vocab h)
          (snd (fill_tokens L (vocab h) prompt (count_tokens L (vocab h) prompt)))
          (count_tokens L (vocab h) prompt) maxTokens temp topP seed)"
    unfolding v_def by (rule complete_prompt_evaluated[OF evaluated(1,2,3)])
  with assms obtain y where
    y: "evaluate_and_generate L env v (ctx h) (vocab h)
          (snd (fill_tokens L (vocab h) prompt (count_tokens L (vocab h) prompt)))
          (count_tokens L (vocab h) prompt) maxTokens temp topP seed = Some y"
    and p: "prepend (snd (clear_loop L (ctx h) 0 w)
          @ setup_events env nThreads maxTokens temp topP seed (ctx h)
          @ capacity_check (count_tokens L (vocab h) prompt) (predict_of maxTokens)
              (sint (n_ctx h))) y = Inr (res, w', tr)"
    by auto
  from p obtain ev' where y': "y = Inr (res, w', ev')"
    and t: "tr = (snd (clear_loop L (ctx h) 0 w)
          @ setup_events env nThreads maxTokens temp topP seed (ctx h)
          @ capacity_check (count_tokens L (vocab h) prompt) (predict_of maxTokens)
              (sint (n_ctx h))) @ ev'"
    by (cases y) (auto simp: prepend_def)
  note e = y[unfolded y']
  have "w' = replay L ev' v" by (rule evaluate_and_generate_replay[OF e])
  then show ?thesis unfolding t v_def
    by (simp add: setup_events_replay capacity_check_replay clear_loop_replay)
qed

lemma nativeCompletion_replay:
  assumes "nativeCompletion L env w hs jHandle jPrompt nThreads maxTokens temp topP seed
             = Some (Inr (res, w', tr))"
  shows "w' = replay L tr w"
  using assms
proof (cases rule: nativeCompletion_cases)
  case rejected
  then show ?thesis by simp
next
  case (live h)
  then show ?thesis by (simp add: complete_prompt_replay)
qed

text \<open>
  The state a request evaluates its prompt in. \<open>cached\<close> stands for the sequence ids that
  hold cells in the key/value cache of the context: what \<open>llama_memory_seq_rm\<close> does to
  them is the engine's.
\<close>

lemma replay_seq_rm_cached:
  fixes cached :: "'w \<Rightarrow> int set"
  assumes "\<And>v s. cached (snd (llama_memory_seq_rm L v mem s 0 (- 1))) = cached v - {s}"
  shows "cached (replay L (map (\<lambda>s. Memory_seq_rm mem s 0 (- 1)) xs) w) = cached w - set xs"
proof (induction xs arbitrary: w)
  case Nil
  show ?case by simp
next
  case (Cons x xs)
  show ?case by (simp add: Cons assms) blast
qed

lemma eval_prompt_first_call:
  assumes "eval_prompt L cx toks n_prompt n_batch 0 w = Some (Inr (ok, w', ev))"
    and "0 < n_prompt"
  shows "\<exists>b rc rest. ev = Decode cx b rc # rest"
proof -
  define batch where "batch = llama_batch_get_one toks 0 (min n_batch (n_prompt - 0))"
  define r where "r = llama_decode L w cx batch"
  show ?thesis
  proof (cases "fst r = 0")
    case False
    then have "ev = [Decode cx batch (fst r),
                        Log ERROR ''llama_decode failed on prompt chunk'' []]"
      using assms by (subst (asm) eval_prompt.simps) (simp add: Let_def r_def batch_def)
    then show ?thesis by blast
  next
    case True
    then obtain res where "prepend [Decode cx batch 0] res = Inr (ok, w', ev)"
      using assms
      by (subst (asm) eval_prompt.simps) (auto simp: Let_def r_def batch_def bind_eq_Some_conv)
    then show ?thesis by (cases res) (auto simp: prepend_def)
  qed
qed

lemma evaluate_and_generate_first_call:
  assumes "evaluate_and_generate L env w cx vc toks n_prompt maxTokens temp topP seed
             = Some (Inr (res, w', ev))"
    and "0 < n_prompt"
  shows "\<exists>b rc rest. ev = Decode cx b rc # rest"
proof -
  from assms(1) obtain y where
    y: "eval_prompt L cx toks n_prompt (sint (llama_n_batch L cx)) 0 w = Some y"
    by (auto simp: evaluate_and_generate_def Let_def split: option.splits)
  then obtain ok w3 e4 where y': "y = Inr (ok, w3, e4)"
    using assms(1) by (cases y) (auto simp: evaluate_and_generate_def Let_def)
  from eval_prompt_first_call[OF y[unfolded y'] assms(2)]
  obtain b rc rest where e4: "e4 = Decode cx b rc # rest" by blast
  show ?thesis
  proof (cases ok)
    case False
    then have "ev = e4" using assms(1) y y' by (auto simp: evaluate_and_generate_def Let_def)
    then show ?thesis using e4 by blast
  next
    case True
    then obtain ev' where "ev = e4 @ ev'" using assms(1) y y'
      by (cases "sample_and_generate L env w3 cx vc maxTokens temp topP seed")
         (auto simp: evaluate_and_generate_def Let_def prepend_def)
    then show ?thesis using e4 by simp
  qed
qed

lemma capacity_check_logs: "list_all is_log (capacity_check n p c)"
  by (simp add: capacity_check_def)

lemma complete_prompt_before_decode:
  assumes "complete_prompt L env w h prompt nThreads maxTokens temp topP seed
             = Some (Inr (res, w', tr))"
    and "prompt \<noteq> []"
  shows "\<exists>logs. list_all is_log logs \<and>
           takeWhile (\<lambda>e. \<not> is_decode e) tr
             = snd (clear_loop L (ctx h) 0 w)
               @ setup_events env nThreads maxTokens temp topP seed (ctx h) @ logs"
  using assms(1)
proof (cases rule: complete_prompt_cases)
  case empty
  then show ?thesis using assms(2) by simp
next
  case no_tokens
  have "takeWhile (\<lambda>e. \<not> is_decode e) tr = tr" unfolding no_tokens(4)
    by (simp add: clear_loop_events setup_events_def)
  then show ?thesis unfolding no_tokens(4)
    by (intro exI[of _ "[Log WARN ''Tokenization resulted in <= 0 tokens'' []]"]) simp
next
  case tokenize_failed
  have "takeWhile (\<lambda>e. \<not> is_decode e) tr = tr" unfolding tokenize_failed(5)
    by (simp add: clear_loop_events setup_events_def)
  then show ?thesis unfolding tokenize_failed(5)
    by (intro exI[of _ "[Log ERROR ''Tokenization failed'' []]"]) simp
next
  case (evaluated w2 ev)
  let ?pre = "snd (clear_loop L (ctx h) 0 w)
            @ setup_events env nThreads maxTokens temp topP seed (ctx h)
            @ capacity_check (count_tokens L (vocab h) prompt) (predict_of maxTokens)
                (sint (n_ctx h))"
  from evaluate_and_generate_first_call[OF evaluated(4) evaluated(2)]
  obtain b rc rest where ev: "ev = Decode (ctx h) b rc # rest" by blast
  have nd: "\<forall>e \<in> set ?pre. \<not> is_decode e"
    by (auto simp: clear_loop_events setup_events_def capacity_check_def)
  have t: "tr = ?pre @ ev" unfolding evaluated(5) by simp
  have "takeWhile (\<lambda>e. \<not> is_decode e) tr = ?pre"
    unfolding t ev using nd by (subst takeWhile_append2) simp_all
  then show ?thesis
    by (intro exI[of _ "capacity_check (count_tokens L (vocab h) prompt) (predict_of maxTokens)
                (sint (n_ctx h))"]) (simp add: capacity_check_logs)
qed


text \<open>The calls of a request are a run of the engine.\<close>

lemma executes_append [simp]:
  "executes L (xs @ ys) w = (executes L xs w \<and> executes L ys (replay L xs w))"
  by (induction xs arbitrary: w) auto

lemma executes_seq_rm: "executes L (map (\<lambda>s. Memory_seq_rm mem s p0 p1) xs) w"
  by (induction xs arbitrary: w) auto

lemma executes_logs: "list_all is_log evs \<Longrightarrow> executes L evs w"
proof (induction evs arbitrary: w)
  case Nil
  show ?case by simp
next
  case (Cons e evs)
  then show ?case by (cases e) simp_all
qed

lemma eval_prompt_executes:
  assumes "eval_prompt L cx toks n_prompt n_batch i w = Some y"
  shows "\<forall>ok w' ev. y = Inr (ok, w', ev) \<longrightarrow> executes L ev w"
proof (rule eval_prompt.raw_induct[where P = "\<lambda>L cx toks n_prompt n_batch i w y.
         \<forall>ok w' ev. y = Inr (ok, w', ev) \<longrightarrow> executes L ev w", OF _ assms], goal_cases)
  case (1 eval_prompt L cx toks n_prompt n_batch i w y)
  show ?case
  proof (cases "i < n_prompt")
    case False
    then show ?thesis using 1(2) by auto
  next
    case True
    note lt = this
    show ?thesis
    proof (cases "i < 0")
      case True
      then show ?thesis using 1(2) lt by auto
    next
      case False
      define batch where "batch = llama_batch_get_one toks i (min n_batch (n_prompt - i))"
      define r where "r = llama_decode L w cx batch"
      show ?thesis
      proof (cases "fst r = 0")
        case False
        then have "y = Inr (False, snd r, [Decode cx batch (fst r),
                        Log ERROR ''llama_decode failed on prompt chunk'' []])"
          using 1(2) lt \<open>\<not> i < 0\<close> by (simp add: Let_def r_def batch_def)
        then show ?thesis by (auto simp: r_def)
      next
        case True
        then obtain res where
          res: "eval_prompt L cx toks n_prompt n_batch (s32 (i + n_batch)) (snd r) = Some res"
               "y = prepend [Decode cx batch 0] res"
          using 1(2) lt \<open>\<not> i < 0\<close>
          by (auto simp: Let_def r_def batch_def bind_eq_Some_conv)
        from 1(1)[OF res(1)] res(2) True show ?thesis
          by (auto simp: prepend_def r_def split: sum.splits)
      qed
    qed
  qed
qed

lemma build_chain_executes: "executes L (snd (build_chain L w smpl T P s)) w"
  by (simp add: build_chain_def Let_def)

lemma generate_executes:
  "executes L (snd (snd (generate L cx vc smpl predict t w out))) w"
proof (induction "nat (predict - t)" arbitrary: t w out)
  case 0
  then have "\<not> t < predict" by simp
  then show ?case by (simp add: generate_stop)
next
  case (Suc n)
  have lt: "t < predict" using Suc(2) by simp
  define sm where "sm = llama_sampler_sample L w smpl cx (- 1)"
  define d where "d = llama_decode L (llama_sampler_accept L (snd sm) smpl (fst sm)) cx
               (llama_batch_get_one [fst sm] 0 1)"
  define r where "r = generate L cx vc smpl predict (t + 1) (snd d) (out @ piece L vc (fst sm))"
  have ih: "executes L (snd (snd r)) (snd d)"
    unfolding r_def using Suc(1)[of "t + 1"] Suc(2) by simp
  consider (a) "llama_vocab_is_eog L vc (fst sm)"
    | (b) "\<not> llama_vocab_is_eog L vc (fst sm)" "fst d \<noteq> 0"
    | (c) "\<not> llama_vocab_is_eog L vc (fst sm)" "fst d = 0" by blast
  then show ?case
  proof cases
    case a
    show ?thesis unfolding generate_eog[OF lt sm_def a] by (simp add: sm_def)
  next
    case b
    show ?thesis unfolding generate_fail[OF lt sm_def b(1) d_def b(2)]
      by (simp add: sm_def d_def)
  next
    case c
    have "executes L (snd (snd r)) (snd (llama_decode L
        (llama_sampler_accept L (snd (llama_sampler_sample L w smpl cx (- 1))) smpl
           (fst (llama_sampler_sample L w smpl cx (- 1)))) cx
        (llama_batch_get_one [fst (llama_sampler_sample L w smpl cx (- 1))] 0 1)))"
      using ih unfolding d_def sm_def .
    moreover have "0 = fst (llama_decode L
        (llama_sampler_accept L (snd (llama_sampler_sample L w smpl cx (- 1))) smpl
           (fst (llama_sampler_sample L w smpl cx (- 1)))) cx
        (llama_batch_get_one [fst (llama_sampler_sample L w smpl cx (- 1))] 0 1))"
      using c(2) unfolding d_def sm_def by simp
    ultimately show ?thesis unfolding generate_cont[OF lt sm_def c(1) d_def c(2) r_def]
      by (simp add: sm_def)
  qed
qed

lemma sample_and_generate_executes:
  assumes "sample_and_generate L env w cx vc maxTokens temp topP seed = (res, w', ev)"
  shows "executes L ev w"
proof (cases "fst (llama_sampler_chain_init L w) = 0")
  case True
  then show ?thesis using assms by (auto simp: sample_and_generate_def Let_def)
next
  case False
  define smpl where "smpl = fst (llama_sampler_chain_init L w)"
  define w1 where "w1 = snd (llama_sampler_chain_init L w)"
  define bc where
    "bc = build_chain L w1 smpl (temperature_of temp) (top_p_of topP) (seed_of L seed)"
  define w3 where "w3 = llama_sampler_reset L (fst bc) smpl"
  define g where "g = generate L cx vc smpl (predict_of maxTokens) 0 w3 []"
  have "sample_and_generate L env w cx vc maxTokens temp topP seed =
      (toJStr env (fst g), llama_sampler_free L (fst (snd g)) smpl,
       [Sampler_chain_init smpl] @ snd bc @ [Sampler_reset smpl] @ snd (snd g)
         @ [Sampler_free smpl])"
    using False unfolding g_def w3_def bc_def w1_def smpl_def
    by (simp add: sample_and_generate_def Let_def)
  with assms have ev: "ev = [Sampler_chain_init smpl] @ snd bc @ [Sampler_reset smpl]
         @ snd (snd g) @ [Sampler_free smpl]"
    by simp
  have b: "fst bc = replay L (snd bc) w1" unfolding bc_def by (rule build_chain_replay)
  have be: "executes L (snd bc) w1" unfolding bc_def by (rule build_chain_executes)
  have ge: "executes L (snd (snd g)) w3" unfolding g_def by (rule generate_executes)
  have ge': "executes L (snd (snd g)) (llama_sampler_reset L (replay L (snd bc) w1) smpl)"
    using ge unfolding w3_def b .
  show ?thesis unfolding ev using be ge' by (simp add: smpl_def w1_def)
qed

lemma evaluate_and_generate_executes:
  assumes "evaluate_and_generate L env w cx vc toks n_prompt maxTokens temp topP seed
             = Some (Inr (res, w', ev))"
  shows "executes L ev w"
proof -
  from assms obtain y where
    y: "eval_prompt L cx toks n_prompt (sint (llama_n_batch L cx)) 0 w = Some y"
    by (auto simp: evaluate_and_generate_def Let_def split: option.splits)
  then obtain ok w3 e4 where y': "y = Inr (ok, w3, e4)"
    using assms by (cases y) (auto simp: evaluate_and_generate_def Let_def)
  have w3: "w3 = replay L e4 w" using eval_prompt_replay[OF y] y' by simp
  have e4: "executes L e4 w" using eval_prompt_executes[OF y] y' by simp
  show ?thesis
  proof (cases ok)
    case False
    then show ?thesis using assms y y' e4 by (auto simp: evaluate_and_generate_def Let_def)
  next
    case True
    obtain r1 r2 r3 where
      sg: "sample_and_generate L env w3 cx vc maxTokens temp topP seed = (r1, r2, r3)"
      by (cases "sample_and_generate L env w3 cx vc maxTokens temp topP seed") auto
    from sample_and_generate_executes[OF sg] have "executes L r3 (replay L e4 w)"
      unfolding w3 .
    then show ?thesis using assms y y' True sg e4
      by (auto simp: evaluate_and_generate_def Let_def prepend_def)
  qed
qed

lemma complete_prompt_executes:
  assumes "complete_prompt L env w h prompt nThreads maxTokens temp topP seed
             = Some (Inr (res, w', tr))"
  shows "executes L tr w"
  using assms
proof (cases rule: complete_prompt_cases)
  case empty
  then show ?thesis by simp
next
  case no_tokens
  show ?thesis unfolding no_tokens(4)
    by (simp add: clear_loop_events executes_seq_rm setup_events_def)
next
  case tokenize_failed
  show ?thesis unfolding tokenize_failed(5)
    by (simp add: clear_loop_events executes_seq_rm setup_events_def)
next
  case (evaluated w2 ev)
  define v where "v = llama_set_n_threads L (fst (clear_loop L (ctx h) 0 w)) (ctx h)
             (n_threads_of env nThreads) (n_threads_of env nThreads)"
  let ?pre = "snd (clear_loop L (ctx h) 0 w)
          @ setup_events env nThreads maxTokens temp topP seed (ctx h)
          @ capacity_check (count_tokens L (vocab h) prompt) (predict_of maxTokens)
              (sint (n_ctx h))"
  have "complete_prompt L env w h prompt nThreads maxTokens temp topP seed =
     map_option (prepend ?pre)
       (evaluate_and_generate L env v (ctx h) (vocab h)
          (snd (fill_tokens L (vocab h) prompt (count_tokens L (vocab h) prompt)))
          (count_tokens L (vocab h) prompt) maxTokens temp topP seed)"
    unfolding v_def by (rule complete_prompt_evaluated[OF evaluated(1,2,3)])
  with assms obtain y where
    y: "evaluate_and_generate L env v (ctx h) (vocab h)
          (snd (fill_tokens L (vocab h) prompt (count_tokens L (vocab h) prompt)))
          (count_tokens L (vocab h) prompt) maxTokens temp topP seed = Some y"
    and p: "prepend ?pre y = Inr (res, w', tr)"
    by auto
  from p obtain ev' where y': "y = Inr (res, w', ev')" and t: "tr = ?pre @ ev'"
    by (cases y) (auto simp: prepend_def)
  note e = y[unfolded y']
  have rp: "replay L ?pre w = v" unfolding v_def
    by (simp add: setup_events_replay capacity_check_replay clear_loop_replay)
  have ep: "executes L ?pre w"
    by (simp add: clear_loop_events executes_seq_rm setup_events_def executes_logs
        capacity_check_logs)
  have "executes L ev' v" by (rule evaluate_and_generate_executes[OF e])
  then show ?thesis unfolding t using ep rp by (simp only: executes_append)
qed

lemma nativeCompletion_executes:
  assumes "nativeCompletion L env w hs jHandle jPrompt nThreads maxTokens temp topP seed
             = Some (Inr (res, w', tr))"
  shows "executes L tr w"
  using assms
proof (cases rule: nativeCompletion_cases)
  case rejected
  then show ?thesis by simp
next
  case (live h)
  then show ?thesis by (simp add: complete_prompt_executes)
qed

section \<open>The generation loop of a request\<close>

text \<open>
  How the loop ends at an end-of-generation token. A call on a live handle returns
  whenever the prompt loop is bounded. Whenever it returns and the \<open>k\<close>-th token it
  sampled is an end-of-generation token, that token is the last one sampled, the string
  returned is \<open>toJStr\<close> of the pieces of the \<open>k - 1\<close> tokens sampled before it, in
  order, no error line was logged, and after that sample the call only released the
  sampler chain: the end token was neither accepted, nor turned into text, nor decoded.
\<close>

theorem end_of_generation_stops_the_loop:
  assumes "hs jHandle = Some h"
  shows "(prompt_loop_bounded L env h jPrompt \<longrightarrow>
           (\<exists>res w' tr. nativeCompletion L env w hs jHandle jPrompt nThreads maxTokens temp topP
                          seed = Some (Inr (res, w', tr))))
       \<and> (\<forall>res w' tr k.
            nativeCompletion L env w hs jHandle jPrompt nThreads maxTokens temp topP seed
              = Some (Inr (res, w', tr))
            \<and> 0 < k \<and> k \<le> length (sampled tr)
            \<and> llama_vocab_is_eog L (vocab h) (sampled tr ! (k - 1))
            \<longrightarrow> length (sampled tr) = k
              \<and> res = toJStr env (concat (map (piece L (vocab h)) (take (k - 1) (sampled tr))))
              \<and> \<not> list_ex is_error tr
              \<and> (\<exists>pre smpl. tr = pre @ [Sampler_sample smpl (ctx h) (- 1) (sampled tr ! (k - 1)),
                                        Sampler_free smpl]))"
proof (rule conjI, rule impI)
  assume b: "prompt_loop_bounded L env h jPrompt"
  show "\<exists>res w' tr. nativeCompletion L env w hs jHandle jPrompt nThreads maxTokens temp
      topP seed = Some (Inr (res, w', tr))"
    by (rule nativeCompletion_bounded_returns[where hs = hs and jHandle = jHandle, OF assms b])
next
  show "\<forall>res w' tr k.
            nativeCompletion L env w hs jHandle jPrompt nThreads maxTokens temp topP seed
              = Some (Inr (res, w', tr))
            \<and> 0 < k \<and> k \<le> length (sampled tr)
            \<and> llama_vocab_is_eog L (vocab h) (sampled tr ! (k - 1))
            \<longrightarrow> length (sampled tr) = k
              \<and> res = toJStr env (concat (map (piece L (vocab h)) (take (k - 1) (sampled tr))))
              \<and> \<not> list_ex is_error tr
              \<and> (\<exists>pre smpl. tr = pre @ [Sampler_sample smpl (ctx h) (- 1) (sampled tr ! (k - 1)),
                                        Sampler_free smpl])"
  proof (intro allI impI)
  fix res w' tr k
  assume a: "nativeCompletion L env w hs jHandle jPrompt nThreads maxTokens temp topP seed
              = Some (Inr (res, w', tr))
            \<and> 0 < k \<and> k \<le> length (sampled tr)
            \<and> llama_vocab_is_eog L (vocab h) (sampled tr ! (k - 1))"
  then have ne: "sampled tr \<noteq> []" by auto
  from nativeCompletion_structure[where hs = hs and jHandle = jHandle, OF conjunct1[OF a] assms] ne
  obtain pre smpl w1 w3 where s: "list_all before_sampling pre" "smpl \<noteq> 0"
    "res = toJStr env (fst (generate L (ctx h) (vocab h) smpl (predict_of maxTokens) 0 w3 []))"
    "tr = pre @ [Sampler_chain_init smpl]
              @ snd (build_chain L w1 smpl (temperature_of temp) (top_p_of topP) (seed_of L seed))
              @ [Sampler_reset smpl]
              @ snd (snd (generate L (ctx h) (vocab h) smpl (predict_of maxTokens) 0 w3 []))
              @ [Sampler_free smpl]"
    by (auto simp: before_sampling_sampled)
  define g where "g = generate L (ctx h) (vocab h) smpl (predict_of maxTokens) 0 w3 []"
  define bc where
    "bc = snd (build_chain L w1 smpl (temperature_of temp) (top_p_of topP) (seed_of L seed))"
  have tr: "tr = pre @ [Sampler_chain_init smpl] @ bc @ [Sampler_reset smpl] @ snd (snd g)
      @ [Sampler_free smpl]"
    using s(4) by (simp add: g_def bc_def)
  have bcs: "list_all is_stage bc" unfolding bc_def by (rule build_chain_stages)
  have st: "sampled tr = sampled (snd (snd g))"
    unfolding tr by (simp add: before_sampling_sampled[OF s(1)] stages_sampled[OF bcs])
  have bl: "list_all (\<lambda>t. \<not> llama_vocab_is_eog L (vocab h) t) (butlast (sampled tr))"
    unfolding st g_def by (rule generate_eog_last)
  note e = eog_is_last[OF bl, of k] a
  have len: "length (sampled tr) = k" using e by blast
  have flt: "filter (\<lambda>t. \<not> llama_vocab_is_eog L (vocab h) t) (sampled tr)
      = take (k - 1) (sampled tr)" using e by blast
  have lst: "last (sampled tr) = sampled tr ! (k - 1)" using e by blast
  have ex: "list_ex (llama_vocab_is_eog L (vocab h)) (sampled (snd (snd g)))"
    using e unfolding st by blast
  have "fst g = concat (map (piece L (vocab h)) (take (k - 1) (sampled tr)))"
    unfolding g_def using generate_output[of L "ctx h" "vocab h" smpl "predict_of maxTokens" 0 w3 "[]"]
    flt by (simp add: st g_def)
  then have res: "res = toJStr env (concat (map (piece L (vocab h)) (take (k - 1) (sampled tr))))"
    using s(3) by (simp add: g_def)
  have le: "loop_end L (ctx h) (vocab h) smpl (snd (snd g))"
    unfolding g_def by (rule generate_ends)
  from le ex obtain pre' where
    l: "snd (snd g) = pre' @ [Sampler_sample smpl (ctx h) (- 1) (last (sampled (snd (snd g))))]"
       "\<not> list_ex is_log (snd (snd g))"
    unfolding loop_end_def by auto
  define tk where "tk = sampled tr ! (k - 1)"
  have lst': "last (sampled (snd (snd g))) = tk" using lst st tk_def by simp
  have "tr = (pre @ [Sampler_chain_init smpl] @ bc @ [Sampler_reset smpl] @ pre')
      @ [Sampler_sample smpl (ctx h) (- 1) tk, Sampler_free smpl]"
    by (subst tr, subst l(1)) (simp add: lst')
  then have tail: "\<exists>pre smpl. tr = pre @ [Sampler_sample smpl (ctx h) (- 1) (sampled tr ! (k - 1)),
                                        Sampler_free smpl]" unfolding tk_def by blast
  have ner: "\<not> list_ex is_error tr"
    unfolding tr using before_sampling_facts(1)[OF s(1)] stages_facts(2)[OF bcs]
      no_log_no_error[OF l(2)] by simp
  show "length (sampled tr) = k
      \<and> res = toJStr env (concat (map (piece L (vocab h)) (take (k - 1) (sampled tr))))
      \<and> \<not> list_ex is_error tr
      \<and> (\<exists>pre smpl. tr = pre @ [Sampler_sample smpl (ctx h) (- 1) (sampled tr ! (k - 1)),
                                        Sampler_free smpl])"
    using len res ner tail by blast
  qed
qed

lemma toy_run_eog: "nativeCompletion (toy_llama 2) toy_host [104, 105, 2, 106] toy_handles 4096 ''abc'' 0 5
     (Finite 0) (Finite 0) (- 1) =
   Some (Inr (''hi'', [106], toy_setup 5 (Finite 0) (Finite 0) (- 1) @
     [Decode 2 \<lparr>n_tokens = 2, token = [97, 98]\<rparr> 0,
      Decode 2 \<lparr>n_tokens = 1, token = [99]\<rparr> 0,
      Sampler_chain_init 7, Sampler_init_greedy 8, Sampler_chain_add 7 8, Sampler_reset 7,
      Sampler_sample 7 2 (- 1) 104, Sampler_accept 7 104,
      Decode 2 \<lparr>n_tokens = 1, token = [104]\<rparr> 0,
      Sampler_sample 7 2 (- 1) 105, Sampler_accept 7 105,
      Decode 2 \<lparr>n_tokens = 1, token = [105]\<rparr> 0,
      Sampler_sample 7 2 (- 1) 2, Sampler_free 7]))"
  by code_simp


theorem end_of_generation_stops_the_loop_witness:
  "toy_handles 4096 = Some toy_handle
   \<and> prompt_loop_bounded (toy_llama 2) toy_host toy_handle ''abc''
   \<and> (\<exists>w' tr. nativeCompletion (toy_llama 2) toy_host [104, 105, 2, 106] toy_handles 4096 ''abc''
                   0 5 (Finite 0) (Finite 0) (- 1) = Some (Inr (''hi'', w', tr))
          \<and> sampled tr = [104, 105, 2]
          \<and> llama_vocab_is_eog (toy_llama 2) (vocab toy_handle) (sampled tr ! (3 - 1))
          \<and> length (sampled tr) = 3
          \<and> ''hi'' = toJStr toy_host
                (concat (map (piece (toy_llama 2) (vocab toy_handle)) (take (3 - 1) (sampled tr))))
          \<and> \<not> list_ex is_error tr)"
proof -
  let ?tr = "toy_setup 5 (Finite 0) (Finite 0) (- 1) @
     [Decode 2 \<lparr>n_tokens = 2, token = [97, 98]\<rparr> 0,
      Decode 2 \<lparr>n_tokens = 1, token = [99]\<rparr> 0,
      Sampler_chain_init 7, Sampler_init_greedy 8, Sampler_chain_add 7 8, Sampler_reset 7,
      Sampler_sample 7 2 (- 1) 104, Sampler_accept 7 104,
      Decode 2 \<lparr>n_tokens = 1, token = [104]\<rparr> 0,
      Sampler_sample 7 2 (- 1) 105, Sampler_accept 7 105,
      Decode 2 \<lparr>n_tokens = 1, token = [105]\<rparr> 0,
      Sampler_sample 7 2 (- 1) 2, Sampler_free 7]"
  have h: "toy_handles 4096 = Some toy_handle" by (simp add: toy_handles_def)
  have b: "prompt_loop_bounded (toy_llama 2) toy_host toy_handle ''abc''" by code_simp
  have s: "sampled ?tr = [104, 105, 2]" by (simp add: toy_setup_def)
  have e: "llama_vocab_is_eog (toy_llama 2) (vocab toy_handle) (sampled ?tr ! (3 - 1))"
    unfolding s by (simp add: toy_llama_def)
  have k: "(0::nat) < 3 \<and> 3 \<le> length (sampled ?tr)" unfolding s by simp
  note t = end_of_generation_stops_the_loop[where hs = toy_handles and jHandle = 4096
      and L = "toy_llama 2" and env = toy_host and w = "[104, 105, 2, 106]"
      and jPrompt = "''abc''" and nThreads = 0 and maxTokens = 5 and temp = "Finite 0"
      and topP = "Finite 0" and seed = "- 1", OF h]
  from t[THEN conjunct2, rule_format, of "''hi''" "[106]" ?tr 3] toy_run_eog k e
  have c: "length (sampled ?tr) = 3
      \<and> ''hi'' = toJStr toy_host
            (concat (map (piece (toy_llama 2) (vocab toy_handle)) (take (3 - 1) (sampled ?tr))))
      \<and> \<not> list_ex is_error ?tr
      \<and> (\<exists>pre smpl. ?tr = pre @ [Sampler_sample smpl (ctx toy_handle) (- 1) (sampled ?tr ! (3 - 1)),
                                        Sampler_free smpl])"
    by blast
  show ?thesis using h b toy_run_eog s e c by blast
qed

text \<open>
  C1. When the \<open>k\<close>-th sampled token is an end-of-generation token, the loop stops
  without an error and the text returned is exactly the concatenation of the pieces of
  the first \<open>k - 1\<close> sampled tokens. The loop stops as said, and the output string of the
  bridge is that concatenation; but it is returned by \<open>toJStr\<close>, which hands
  \<open>output.c_str()\<close> to \<open>NewStringUTF\<close>, and a C string ends at its first NUL. A piece
  that holds a NUL byte, as the piece of a byte token can, cuts the returned text short.
  In the run below the tokens sampled are 104, 0 and 105, then the end-of-generation
  token 2 at step 4 of 5; their pieces are \<open>h\<close>, NUL and \<open>i\<close>, and the call returns \<open>h\<close>.
\<close>

theorem end_of_generation_text_is_cut_at_nul:
  "nativeCompletion (toy_llama 2) toy_host [104, 0, 105, 2] toy_handles 4096 ''abc'' 0 5
     (Finite 0) (Finite 0) (- 1) =
   Some (Inr (''h'', [], toy_setup 5 (Finite 0) (Finite 0) (- 1) @
     [Decode 2 \<lparr>n_tokens = 2, token = [97, 98]\<rparr> 0,
      Decode 2 \<lparr>n_tokens = 1, token = [99]\<rparr> 0,
      Sampler_chain_init 7, Sampler_init_greedy 8, Sampler_chain_add 7 8, Sampler_reset 7,
      Sampler_sample 7 2 (- 1) 104, Sampler_accept 7 104,
      Decode 2 \<lparr>n_tokens = 1, token = [104]\<rparr> 0,
      Sampler_sample 7 2 (- 1) 0, Sampler_accept 7 0,
      Decode 2 \<lparr>n_tokens = 1, token = [0]\<rparr> 0,
      Sampler_sample 7 2 (- 1) 105, Sampler_accept 7 105,
      Decode 2 \<lparr>n_tokens = 1, token = [105]\<rparr> 0,
      Sampler_sample 7 2 (- 1) 2, Sampler_free 7]))
   \<and> llama_vocab_is_eog (toy_llama 2) (vocab toy_handle) 2
   \<and> concat (map (piece (toy_llama 2) (vocab toy_handle)) [104, 0, 105])
       = [CHR ''h'', CHR 0x00, CHR ''i'']
   \<and> NewStringUTF toy_host [CHR ''h'', CHR 0x00, CHR ''i''] \<noteq> ''h''"
  by code_simp

text \<open>
  How the loop ends at a failed decode. A call on a live handle returns whenever the
  prompt loop is bounded. Whenever it returns and a decode failed after the sampler
  chain was created, that is, in the generation loop, the string returned is \<open>toJStr\<close>
  of the pieces of all the tokens sampled, the one whose decode failed included; that
  token was the last one sampled, and after its failed decode the call only logged the
  error line and released the sampler chain. The result is an ordinary return value.
\<close>

theorem failed_generation_decode_returns_partial_output:
  assumes "hs jHandle = Some h"
  shows "(prompt_loop_bounded L env h jPrompt \<longrightarrow>
           (\<exists>res w' tr. nativeCompletion L env w hs jHandle jPrompt nThreads maxTokens temp topP
                          seed = Some (Inr (res, w', tr))))
       \<and> (\<forall>res w' tr.
            nativeCompletion L env w hs jHandle jPrompt nThreads maxTokens temp topP seed
              = Some (Inr (res, w', tr))
            \<and> list_ex failed_decode (from_chain_init tr)
            \<longrightarrow> res = toJStr env (concat (map (piece L (vocab h)) (sampled tr)))
              \<and> (\<exists>pre smpl rc n. tr = pre @
                    [Sampler_sample smpl (ctx h) (- 1) (last (sampled tr)),
                     Sampler_accept smpl (last (sampled tr)),
                     Decode (ctx h) \<lparr>n_tokens = 1, token = [last (sampled tr)]\<rparr> rc,
                     Log ERROR ''llama_decode failed during generation at step %d'' [LInt n],
                     Sampler_free smpl]
                   \<and> rc \<noteq> 0 \<and> \<not> list_ex failed_decode pre))"
proof (rule conjI, rule impI)
  assume b: "prompt_loop_bounded L env h jPrompt"
  show "\<exists>res w' tr. nativeCompletion L env w hs jHandle jPrompt nThreads maxTokens temp
      topP seed = Some (Inr (res, w', tr))"
    by (rule nativeCompletion_bounded_returns[where hs = hs and jHandle = jHandle, OF assms b])
next
  show "\<forall>res w' tr.
            nativeCompletion L env w hs jHandle jPrompt nThreads maxTokens temp topP seed
              = Some (Inr (res, w', tr))
            \<and> list_ex failed_decode (from_chain_init tr)
            \<longrightarrow> res = toJStr env (concat (map (piece L (vocab h)) (sampled tr)))
              \<and> (\<exists>pre smpl rc n. tr = pre @
                    [Sampler_sample smpl (ctx h) (- 1) (last (sampled tr)),
                     Sampler_accept smpl (last (sampled tr)),
                     Decode (ctx h) \<lparr>n_tokens = 1, token = [last (sampled tr)]\<rparr> rc,
                     Log ERROR ''llama_decode failed during generation at step %d'' [LInt n],
                     Sampler_free smpl]
                   \<and> rc \<noteq> 0 \<and> \<not> list_ex failed_decode pre)"
  proof (intro allI impI)
    fix res w' tr
    assume a: "nativeCompletion L env w hs jHandle jPrompt nThreads maxTokens temp topP seed
              = Some (Inr (res, w', tr))
            \<and> list_ex failed_decode (from_chain_init tr)"
    have n1: "list_ex is_chain_init tr"
    proof (rule ccontr)
      assume "\<not> list_ex is_chain_init tr"
      then have "from_chain_init tr = []" by (rule from_chain_init_none)
      then show False using a by simp
    qed
    have n2: "\<not> (\<exists>pre. list_all before_sampling pre \<and> res = toJStr env [] \<and>
          tr = pre @ [Sampler_chain_init 0, Log ERROR ''Failed to init sampler chain'' []])"
    proof
      assume "\<exists>pre. list_all before_sampling pre \<and> res = toJStr env [] \<and>
          tr = pre @ [Sampler_chain_init 0, Log ERROR ''Failed to init sampler chain'' []]"
      then obtain pre where p: "list_all before_sampling pre"
        "tr = pre @ [Sampler_chain_init 0, Log ERROR ''Failed to init sampler chain'' []]"
        by blast
      have "from_chain_init tr
          = [Sampler_chain_init 0, Log ERROR ''Failed to init sampler chain'' []]"
        unfolding p(2) using from_chain_init_at[OF before_sampling_facts(2)[OF p(1)]] by simp
      then show False using a by simp
    qed
    from nativeCompletion_structure[where hs = hs and jHandle = jHandle, OF conjunct1[OF a] assms]
      n1 n2
    obtain pre smpl w1 w3 where s: "list_all before_sampling pre" "smpl \<noteq> 0"
      "res = toJStr env (fst (generate L (ctx h) (vocab h) smpl (predict_of maxTokens) 0 w3 []))"
      "tr = pre @ [Sampler_chain_init smpl]
              @ snd (build_chain L w1 smpl (temperature_of temp) (top_p_of topP) (seed_of L seed))
              @ [Sampler_reset smpl]
              @ snd (snd (generate L (ctx h) (vocab h) smpl (predict_of maxTokens) 0 w3 []))
              @ [Sampler_free smpl]"
      by blast
    define g where "g = generate L (ctx h) (vocab h) smpl (predict_of maxTokens) 0 w3 []"
    define bc where
      "bc = snd (build_chain L w1 smpl (temperature_of temp) (top_p_of topP) (seed_of L seed))"
    define gev where "gev = snd (snd g)"
    have tr: "tr = pre @ Sampler_chain_init smpl # (bc @ [Sampler_reset smpl] @ gev
        @ [Sampler_free smpl])"
      using s(4) by (simp add: g_def bc_def gev_def)
    have bcs: "list_all is_stage bc" unfolding bc_def by (rule build_chain_stages)
    have st: "sampled tr = sampled gev"
      unfolding tr by (simp add: before_sampling_sampled[OF s(1)] stages_sampled[OF bcs])
    have "from_chain_init tr = Sampler_chain_init smpl # (bc @ [Sampler_reset smpl] @ gev
        @ [Sampler_free smpl])"
      unfolding tr by (rule from_chain_init_at[OF before_sampling_facts(2)[OF s(1)]])
    then have fd: "list_ex failed_decode gev"
      using a stages_facts(3)[OF bcs] by simp
    have le: "loop_end L (ctx h) (vocab h) smpl gev"
      unfolding gev_def g_def by (rule generate_ends)
    have neog: "\<not> list_ex (llama_vocab_is_eog L (vocab h)) (sampled gev)"
      using le fd unfolding loop_end_def by (auto split: if_splits)
    from le fd neog obtain pre' rc n where
      l: "gev = pre' @ [Sampler_sample smpl (ctx h) (- 1) (last (sampled gev)),
               Sampler_accept smpl (last (sampled gev)),
               Decode (ctx h) (llama_batch_get_one [last (sampled gev)] 0 1) rc,
               Log ERROR ''llama_decode failed during generation at step %d'' [LInt n]]"
         "rc \<noteq> 0" "\<not> list_ex failed_decode pre'"
      unfolding loop_end_def by auto
    have "filter (\<lambda>t. \<not> llama_vocab_is_eog L (vocab h) t) (sampled gev) = sampled gev"
      using neog by (simp add: list_ex_iff)
    then have "fst g = concat (map (piece L (vocab h)) (sampled gev))"
      using generate_output[of L "ctx h" "vocab h" smpl "predict_of maxTokens" 0 w3 "[]"]
      by (simp add: g_def gev_def)
    then have res: "res = toJStr env (concat (map (piece L (vocab h)) (sampled tr)))"
      using s(3) st by (simp add: g_def)
    define tk where "tk = last (sampled tr)"
    have lst: "last (sampled gev) = tk" by (simp add: tk_def st)
    have nf: "\<not> list_ex failed_decode
        (pre @ Sampler_chain_init smpl # (bc @ [Sampler_reset smpl] @ pre'))"
      using before_sampling_facts(4)[OF s(1)] stages_facts(3)[OF bcs] l(3) by simp
    have "tr = (pre @ Sampler_chain_init smpl # (bc @ [Sampler_reset smpl] @ pre')) @
        [Sampler_sample smpl (ctx h) (- 1) tk, Sampler_accept smpl tk,
         Decode (ctx h) \<lparr>n_tokens = 1, token = [tk]\<rparr> rc,
         Log ERROR ''llama_decode failed during generation at step %d'' [LInt n],
         Sampler_free smpl]"
      by (subst tr, subst l(1)) (simp add: lst llama_batch_get_one_def)
    then have "\<exists>pre smpl rc n. tr = pre @
                    [Sampler_sample smpl (ctx h) (- 1) tk,
                     Sampler_accept smpl tk,
                     Decode (ctx h) \<lparr>n_tokens = 1, token = [tk]\<rparr> rc,
                     Log ERROR ''llama_decode failed during generation at step %d'' [LInt n],
                     Sampler_free smpl]
                   \<and> rc \<noteq> 0 \<and> \<not> list_ex failed_decode pre"
      using l(2) nf by blast
    then show "res = toJStr env (concat (map (piece L (vocab h)) (sampled tr)))
              \<and> (\<exists>pre smpl rc n. tr = pre @
                    [Sampler_sample smpl (ctx h) (- 1) (last (sampled tr)),
                     Sampler_accept smpl (last (sampled tr)),
                     Decode (ctx h) \<lparr>n_tokens = 1, token = [last (sampled tr)]\<rparr> rc,
                     Log ERROR ''llama_decode failed during generation at step %d'' [LInt n],
                     Sampler_free smpl]
                   \<and> rc \<noteq> 0 \<and> \<not> list_ex failed_decode pre)"
      using res unfolding tk_def by blast
  qed
qed

lemma toy_run_decode_fails:
  "nativeCompletion (toy_llama 2) toy_host [104, 33, 2, 106] toy_handles 4096 ''abc'' 0 5
     (Finite (7 / 10)) (Finite 0) (- 1) =
   Some (Inr (''h!'', [2, 106], toy_setup 5 (Finite (7 / 10)) (Finite 0) (- 1) @
     [Decode 2 \<lparr>n_tokens = 2, token = [97, 98]\<rparr> 0,
      Decode 2 \<lparr>n_tokens = 1, token = [99]\<rparr> 0,
      Sampler_chain_init 7, Sampler_init_top_p f_0_95 1 9, Sampler_chain_add 7 9,
      Sampler_init_temp (Finite (7 / 10)) 10, Sampler_chain_add 7 10,
      Sampler_init_dist 0xFFFFFFFF 11, Sampler_chain_add 7 11, Sampler_reset 7,
      Sampler_sample 7 2 (- 1) 104, Sampler_accept 7 104,
      Decode 2 \<lparr>n_tokens = 1, token = [104]\<rparr> 0,
      Sampler_sample 7 2 (- 1) 33, Sampler_accept 7 33,
      Decode 2 \<lparr>n_tokens = 1, token = [33]\<rparr> 1,
      Log ERROR ''llama_decode failed during generation at step %d'' [LInt 1],
      Sampler_free 7]))"
  by code_simp

theorem failed_generation_decode_returns_partial_output_witness:
  "toy_handles 4096 = Some toy_handle
   \<and> prompt_loop_bounded (toy_llama 2) toy_host toy_handle ''abc''
   \<and> (\<exists>w' tr. nativeCompletion (toy_llama 2) toy_host [104, 33, 2, 106] toy_handles 4096 ''abc''
                   0 5 (Finite (7 / 10)) (Finite 0) (- 1) = Some (Inr (''h!'', w', tr))
          \<and> list_ex failed_decode (from_chain_init tr)
          \<and> sampled tr = [104, 33]
          \<and> ''h!'' = toJStr toy_host
                (concat (map (piece (toy_llama 2) (vocab toy_handle)) (sampled tr))))"
proof -
  let ?tr = "toy_setup 5 (Finite (7 / 10)) (Finite 0) (- 1) @
     [Decode 2 \<lparr>n_tokens = 2, token = [97, 98]\<rparr> 0,
      Decode 2 \<lparr>n_tokens = 1, token = [99]\<rparr> 0,
      Sampler_chain_init 7, Sampler_init_top_p f_0_95 1 9, Sampler_chain_add 7 9,
      Sampler_init_temp (Finite (7 / 10)) 10, Sampler_chain_add 7 10,
      Sampler_init_dist 0xFFFFFFFF 11, Sampler_chain_add 7 11, Sampler_reset 7,
      Sampler_sample 7 2 (- 1) 104, Sampler_accept 7 104,
      Decode 2 \<lparr>n_tokens = 1, token = [104]\<rparr> 0,
      Sampler_sample 7 2 (- 1) 33, Sampler_accept 7 33,
      Decode 2 \<lparr>n_tokens = 1, token = [33]\<rparr> 1,
      Log ERROR ''llama_decode failed during generation at step %d'' [LInt 1],
      Sampler_free 7]"
  have h: "toy_handles 4096 = Some toy_handle" by (simp add: toy_handles_def)
  have b: "prompt_loop_bounded (toy_llama 2) toy_host toy_handle ''abc''" by code_simp
  have s: "sampled ?tr = [104, 33]" by (simp add: toy_setup_def)
  have f: "list_ex failed_decode (from_chain_init ?tr)"
    by (simp add: toy_setup_def from_chain_init_def)
  note t = failed_generation_decode_returns_partial_output[where hs = toy_handles
      and jHandle = 4096 and L = "toy_llama 2" and env = toy_host and w = "[104, 33, 2, 106]"
      and jPrompt = "''abc''" and nThreads = 0 and maxTokens = 5 and temp = "Finite (7 / 10)"
      and topP = "Finite 0" and seed = "- 1", OF h]
  from t[THEN conjunct2, rule_format, of "''h!''" "[2, 106]" ?tr] toy_run_decode_fails f
  have c: "''h!'' = toJStr toy_host
      (concat (map (piece (toy_llama 2) (vocab toy_handle)) (sampled ?tr)))"
    by blast
  show ?thesis using h b toy_run_decode_fails s f c by blast
qed

text \<open>
  C2. When the decode of a sampled token fails in the generation loop, the loop stops
  and the call returns, as an ordinary value, the text accumulated so far, the piece of
  the token whose decode failed included. The loop stops as said and the output string
  holds that piece; but the text is returned by \<open>toJStr\<close>, which cuts it at its first
  NUL. In the run below the tokens sampled are 104, 0 and 33, and the decode of 33
  fails; the pieces are \<open>h\<close>, NUL and \<open>!\<close>, and the call returns \<open>h\<close>: the piece of the
  failing token is not in the text returned.
\<close>

theorem failed_decode_text_is_cut_at_nul:
  "nativeCompletion (toy_llama 2) toy_host [104, 0, 33, 105] toy_handles 4096 ''abc'' 0 5
     (Finite 0) (Finite 0) (- 1) =
   Some (Inr (''h'', [105], toy_setup 5 (Finite 0) (Finite 0) (- 1) @
     [Decode 2 \<lparr>n_tokens = 2, token = [97, 98]\<rparr> 0,
      Decode 2 \<lparr>n_tokens = 1, token = [99]\<rparr> 0,
      Sampler_chain_init 7, Sampler_init_greedy 8, Sampler_chain_add 7 8, Sampler_reset 7,
      Sampler_sample 7 2 (- 1) 104, Sampler_accept 7 104,
      Decode 2 \<lparr>n_tokens = 1, token = [104]\<rparr> 0,
      Sampler_sample 7 2 (- 1) 0, Sampler_accept 7 0,
      Decode 2 \<lparr>n_tokens = 1, token = [0]\<rparr> 0,
      Sampler_sample 7 2 (- 1) 33, Sampler_accept 7 33,
      Decode 2 \<lparr>n_tokens = 1, token = [33]\<rparr> 1,
      Log ERROR ''llama_decode failed during generation at step %d'' [LInt 2],
      Sampler_free 7]))
   \<and> concat (map (piece (toy_llama 2) (vocab toy_handle)) [104, 0, 33])
       = [CHR ''h'', CHR 0x00, CHR ''!'']
   \<and> NewStringUTF toy_host [CHR ''h'', CHR 0x00, CHR ''!''] \<noteq> ''h''"
  by code_simp

section \<open>The sampler chain of a request\<close>

text \<open>
  The calls that build the chain. With \<open>temp > 0\<close>, a call that returns after creating
  sampler stages made exactly these calls to build its chain, one after the other: the
  chain is created; a top-p stage with threshold \<open>P'\<close> and minimum-keep 1 is created and
  added; a temperature stage with \<open>temp\<close> is created and added; a dist stage with the
  seed is created and added; the chain is reset. No other stage is created or added
  anywhere in the call. The seed is the caller's when it is not negative and
  \<open>LLAMA_DEFAULT_SEED\<close> otherwise; \<open>P'\<close> is what \<open>std::clamp(topP, 0, 1)\<close> gives, or
  \<open>0.95f\<close> when that is 0. A call on a live handle returns whenever the prompt loop is
  bounded.
\<close>

theorem stochastic_chain_is_top_p_temp_dist:
  assumes "fless (Finite 0) temp"
  shows "(\<forall>h. hs jHandle = Some h \<and> prompt_loop_bounded L env h jPrompt \<longrightarrow>
           (\<exists>res w' tr. nativeCompletion L env w hs jHandle jPrompt nThreads maxTokens temp topP
                          seed = Some (Inr (res, w', tr))))
       \<and> (\<forall>res w' tr.
            nativeCompletion L env w hs jHandle jPrompt nThreads maxTokens temp topP seed
              = Some (Inr (res, w', tr))
            \<and> list_ex is_stage tr
            \<longrightarrow> (\<exists>pre smpl a b c post.
                   tr = pre @ [Sampler_chain_init smpl,
                               Sampler_init_top_p (top_p_of topP) 1 a, Sampler_chain_add smpl a,
                               Sampler_init_temp temp b, Sampler_chain_add smpl b,
                               Sampler_init_dist (seed_of L seed) c, Sampler_chain_add smpl c,
                               Sampler_reset smpl] @ post
                   \<and> \<not> list_ex is_stage pre \<and> \<not> list_ex is_stage post))
       \<and> seed_of L seed = (if 0 \<le> sint seed then seed else LLAMA_DEFAULT_SEED L)
       \<and> top_p_of topP =
           (case topP of
              Finite p \<Rightarrow> if p \<le> 0 then Finite (15938355 / 16777216)
                          else if 1 < p then Finite 1 else Finite p
            | PInf \<Rightarrow> Finite 1
            | NInf \<Rightarrow> Finite (15938355 / 16777216)
            | NaN \<Rightarrow> NaN)"
proof (intro conjI)
  show "\<forall>h. hs jHandle = Some h \<and> prompt_loop_bounded L env h jPrompt \<longrightarrow>
           (\<exists>res w' tr. nativeCompletion L env w hs jHandle jPrompt nThreads maxTokens temp topP
                          seed = Some (Inr (res, w', tr)))"
  proof (intro allI impI)
    fix h assume x: "hs jHandle = Some h \<and> prompt_loop_bounded L env h jPrompt"
    show "\<exists>res w' tr. nativeCompletion L env w hs jHandle jPrompt nThreads maxTokens temp topP
                          seed = Some (Inr (res, w', tr))"
      by (rule nativeCompletion_bounded_returns[where hs = hs and jHandle = jHandle,
            OF conjunct1[OF x] conjunct2[OF x]])
  qed
next
  show "seed_of L seed = (if 0 \<le> sint seed then seed else LLAMA_DEFAULT_SEED L)"
    by (simp add: seed_of_def)
next
  show "top_p_of topP =
           (case topP of
              Finite p \<Rightarrow> if p \<le> 0 then Finite (15938355 / 16777216)
                          else if 1 < p then Finite 1 else Finite p
            | PInf \<Rightarrow> Finite 1
            | NInf \<Rightarrow> Finite (15938355 / 16777216)
            | NaN \<Rightarrow> NaN)"
    unfolding top_p_of_cases f_0_95_def ..
next
  show "\<forall>res w' tr.
            nativeCompletion L env w hs jHandle jPrompt nThreads maxTokens temp topP seed
              = Some (Inr (res, w', tr))
            \<and> list_ex is_stage tr
            \<longrightarrow> (\<exists>pre smpl a b c post.
                   tr = pre @ [Sampler_chain_init smpl,
                               Sampler_init_top_p (top_p_of topP) 1 a, Sampler_chain_add smpl a,
                               Sampler_init_temp temp b, Sampler_chain_add smpl b,
                               Sampler_init_dist (seed_of L seed) c, Sampler_chain_add smpl c,
                               Sampler_reset smpl] @ post
                   \<and> \<not> list_ex is_stage pre \<and> \<not> list_ex is_stage post)"
  proof (intro allI impI)
    fix res w' tr
    assume a: "nativeCompletion L env w hs jHandle jPrompt nThreads maxTokens temp topP seed
              = Some (Inr (res, w', tr)) \<and> list_ex is_stage tr"
    from conjunct1[OF a] obtain h where
      cp: "complete_prompt L env w h (std_string (GetStringUTFChars env jPrompt))
         nThreads maxTokens temp topP seed = Some (Inr (res, w', tr))"
      using a by (cases rule: nativeCompletion_cases) auto
    have n2: "\<not> (\<exists>pre. list_all before_sampling pre \<and> res = toJStr env [] \<and>
          tr = pre @ [Sampler_chain_init 0, Log ERROR ''Failed to init sampler chain'' []])"
      using a before_sampling_facts(3) by auto
    from complete_prompt_structure[OF cp] a n2
    obtain pre smpl w1 w3 where s: "list_all before_sampling pre"
      "tr = pre @ [Sampler_chain_init smpl]
              @ snd (build_chain L w1 smpl (temperature_of temp) (top_p_of topP) (seed_of L seed))
              @ [Sampler_reset smpl]
              @ snd (snd (generate L (ctx h) (vocab h) smpl (predict_of maxTokens) 0 w3 []))
              @ [Sampler_free smpl]"
      by blast
    define gev where
      "gev = snd (snd (generate L (ctx h) (vocab h) smpl (predict_of maxTokens) 0 w3 []))"
    have nz: "\<not> feq (temperature_of temp) (Finite 0)"
      using assms by (simp add: temperature_of_positive positive_not_zero)
    from build_chain_stochastic[OF nz, of L w1 smpl "top_p_of topP" "seed_of L seed"]
    obtain a b c where bc:
      "snd (build_chain L w1 smpl (temperature_of temp) (top_p_of topP) (seed_of L seed)) =
        [Sampler_init_top_p (top_p_of topP) 1 a, Sampler_chain_add smpl a,
         Sampler_init_temp temp b, Sampler_chain_add smpl b,
         Sampler_init_dist (seed_of L seed) c, Sampler_chain_add smpl c]"
      using assms by (auto simp: temperature_of_positive)
    have post: "\<not> list_ex is_stage (gev @ [Sampler_free smpl])"
      using in_loop_facts(2)[OF generate_in_loop, of L "ctx h" "vocab h" smpl
          "predict_of maxTokens" 0 w3 "[]"]
      by (simp add: gev_def)
    have "tr = pre @ [Sampler_chain_init smpl,
                               Sampler_init_top_p (top_p_of topP) 1 a, Sampler_chain_add smpl a,
                               Sampler_init_temp temp b, Sampler_chain_add smpl b,
                               Sampler_init_dist (seed_of L seed) c, Sampler_chain_add smpl c,
                               Sampler_reset smpl] @ (gev @ [Sampler_free smpl])"
      unfolding s(2) bc gev_def by simp
    then show "\<exists>pre smpl a b c post.
                   tr = pre @ [Sampler_chain_init smpl,
                               Sampler_init_top_p (top_p_of topP) 1 a, Sampler_chain_add smpl a,
                               Sampler_init_temp temp b, Sampler_chain_add smpl b,
                               Sampler_init_dist (seed_of L seed) c, Sampler_chain_add smpl c,
                               Sampler_reset smpl] @ post
                   \<and> \<not> list_ex is_stage pre \<and> \<not> list_ex is_stage post"
      using before_sampling_facts(3)[OF s(1)] post by blast
  qed
qed

theorem stochastic_chain_is_top_p_temp_dist_witness:
  "fless (Finite 0) (Finite (7 / 10))
   \<and> toy_handles 4096 = Some toy_handle
   \<and> prompt_loop_bounded (toy_llama 2) toy_host toy_handle ''abc''
   \<and> (\<exists>res w' tr. nativeCompletion (toy_llama 2) toy_host [104, 33, 2, 106] toy_handles 4096
                   ''abc'' 0 5 (Finite (7 / 10)) (Finite 0) (- 1) = Some (Inr (res, w', tr))
          \<and> list_ex is_stage tr
          \<and> (\<exists>pre post.
                 tr = pre @ [Sampler_chain_init 7,
                             Sampler_init_top_p (Finite (15938355 / 16777216)) 1 9,
                             Sampler_chain_add 7 9,
                             Sampler_init_temp (Finite (7 / 10)) 10, Sampler_chain_add 7 10,
                             Sampler_init_dist 0xFFFFFFFF 11, Sampler_chain_add 7 11,
                             Sampler_reset 7] @ post
                 \<and> \<not> list_ex is_stage pre \<and> \<not> list_ex is_stage post))
   \<and> seed_of (toy_llama 2) (- 1) = 0xFFFFFFFF
   \<and> top_p_of (Finite 0) = Finite (15938355 / 16777216)"
proof -
  let ?tr = "toy_setup 5 (Finite (7 / 10)) (Finite 0) (- 1) @
     [Decode 2 \<lparr>n_tokens = 2, token = [97, 98]\<rparr> 0,
      Decode 2 \<lparr>n_tokens = 1, token = [99]\<rparr> 0,
      Sampler_chain_init 7, Sampler_init_top_p f_0_95 1 9, Sampler_chain_add 7 9,
      Sampler_init_temp (Finite (7 / 10)) 10, Sampler_chain_add 7 10,
      Sampler_init_dist 0xFFFFFFFF 11, Sampler_chain_add 7 11, Sampler_reset 7,
      Sampler_sample 7 2 (- 1) 104, Sampler_accept 7 104,
      Decode 2 \<lparr>n_tokens = 1, token = [104]\<rparr> 0,
      Sampler_sample 7 2 (- 1) 33, Sampler_accept 7 33,
      Decode 2 \<lparr>n_tokens = 1, token = [33]\<rparr> 1,
      Log ERROR ''llama_decode failed during generation at step %d'' [LInt 1],
      Sampler_free 7]"
  have p: "fless (Finite 0) (Finite (7 / 10))" by simp
  have h: "toy_handles 4096 = Some toy_handle" by (simp add: toy_handles_def)
  have b: "prompt_loop_bounded (toy_llama 2) toy_host toy_handle ''abc''" by code_simp
  have st: "list_ex is_stage ?tr" by (simp add: toy_setup_def)
  note t = stochastic_chain_is_top_p_temp_dist[where hs = toy_handles
      and jHandle = 4096 and L = "toy_llama 2" and env = toy_host and w = "[104, 33, 2, 106]"
      and jPrompt = "''abc''" and nThreads = 0 and maxTokens = 5 and temp = "Finite (7 / 10)"
      and topP = "Finite 0" and seed = "- 1", OF p]
  have sd: "seed_of (toy_llama 2) (- 1) = 0xFFFFFFFF"
    using t[THEN conjunct2, THEN conjunct2, THEN conjunct1] by (simp add: toy_llama_def)
  have tp: "top_p_of (Finite 0) = Finite (15938355 / 16777216)"
    using t[THEN conjunct2, THEN conjunct2, THEN conjunct2] by simp
  from t[THEN conjunct2, THEN conjunct1, rule_format, of res w' ?tr for res w']
    toy_run_decode_fails st
  obtain pre smpl a b c post where c:
    "?tr = pre @ [Sampler_chain_init smpl,
           Sampler_init_top_p (top_p_of (Finite 0)) 1 a, Sampler_chain_add smpl a,
           Sampler_init_temp (Finite (7 / 10)) b, Sampler_chain_add smpl b,
           Sampler_init_dist (seed_of (toy_llama 2) (- 1)) c, Sampler_chain_add smpl c,
           Sampler_reset smpl] @ post"
    "\<not> list_ex is_stage pre" "\<not> list_ex is_stage post"
    by blast
  let ?pre = "toy_setup 5 (Finite (7 / 10)) (Finite 0) (- 1) @
     [Decode 2 \<lparr>n_tokens = 2, token = [97, 98]\<rparr> 0,
      Decode 2 \<lparr>n_tokens = 1, token = [99]\<rparr> 0]"
  let ?post = "[Sampler_sample 7 2 (- 1) 104, Sampler_accept 7 104,
      Decode 2 \<lparr>n_tokens = 1, token = [104]\<rparr> 0,
      Sampler_sample 7 2 (- 1) 33, Sampler_accept 7 33,
      Decode 2 \<lparr>n_tokens = 1, token = [33]\<rparr> 1,
      Log ERROR ''llama_decode failed during generation at step %d'' [LInt 1],
      Sampler_free 7]"
  have "?tr = ?pre @ [Sampler_chain_init 7,
                             Sampler_init_top_p (Finite (15938355 / 16777216)) 1 9,
                             Sampler_chain_add 7 9,
                             Sampler_init_temp (Finite (7 / 10)) 10, Sampler_chain_add 7 10,
                             Sampler_init_dist 0xFFFFFFFF 11, Sampler_chain_add 7 11,
                             Sampler_reset 7] @ ?post
     \<and> \<not> list_ex is_stage ?pre \<and> \<not> list_ex is_stage ?post"
    by (simp add: toy_setup_def f_0_95_def)
  then have e: "\<exists>pre post. ?tr = pre @ [Sampler_chain_init 7,
                             Sampler_init_top_p (Finite (15938355 / 16777216)) 1 9,
                             Sampler_chain_add 7 9,
                             Sampler_init_temp (Finite (7 / 10)) 10, Sampler_chain_add 7 10,
                             Sampler_init_dist 0xFFFFFFFF 11, Sampler_chain_add 7 11,
                             Sampler_reset 7] @ post
                 \<and> \<not> list_ex is_stage pre \<and> \<not> list_ex is_stage post"
    by blast
  show ?thesis using p h b toy_run_decode_fails st e sd tp c by blast
qed

text \<open>
  C3. With a temperature above 0 the chain is a top-p stage with threshold \<open>P'\<close> and
  minimum-keep 1, then a temperature stage, then a dist stage with the caller's seed or
  the default one, where \<open>P'\<close> is \<open>topP\<close> clamped to \<open>[0, 1]\<close> and replaced by 0.95 when it
  is 0. The stages are created and added in this order, but \<open>std::clamp\<close> clamps by
  comparing, and every comparison with NaN is false: a \<open>topP\<close> that is NaN passes the
  clamp and the test against 0 unchanged, and the top-p stage is created with the
  threshold NaN, which is not in \<open>[0, 1]\<close>. The run below is a request with
  \<open>temp = 0.5\<close> and \<open>topP = NaN\<close>.
\<close>

theorem top_p_threshold_is_nan_for_nan:
  "nativeCompletion (toy_llama 2) toy_host [104, 2] toy_handles 4096 ''abc'' 0 5
     (Finite (1 / 2)) NaN 42 =
   Some (Inr (''h'', [], toy_setup 5 (Finite (1 / 2)) NaN 42 @
     [Decode 2 \<lparr>n_tokens = 2, token = [97, 98]\<rparr> 0,
      Decode 2 \<lparr>n_tokens = 1, token = [99]\<rparr> 0,
      Sampler_chain_init 7, Sampler_init_top_p NaN 1 9, Sampler_chain_add 7 9,
      Sampler_init_temp (Finite (1 / 2)) 10, Sampler_chain_add 7 10,
      Sampler_init_dist 42 11, Sampler_chain_add 7 11, Sampler_reset 7,
      Sampler_sample 7 2 (- 1) 104, Sampler_accept 7 104,
      Decode 2 \<lparr>n_tokens = 1, token = [104]\<rparr> 0,
      Sampler_sample 7 2 (- 1) 2, Sampler_free 7]))
   \<and> fless (Finite 0) (Finite (1 / 2))
   \<and> top_p_of NaN = NaN
   \<and> \<not> fless NaN (Finite 0) \<and> \<not> fless (Finite 1) NaN \<and> \<not> feq NaN (Finite 0)"
  by code_simp




section \<open>The cache and the prompt of a request\<close>

text \<open>
  C5. On a live handle that passes the validity test and with a prompt that has
  characters, a call that returns has first made sixteen calls
  \<open>llama_memory_seq_rm(llama_get_memory(h->ctx), seq_id, 0, -1)\<close>, for \<open>seq_id\<close> from 0 to
  15 in this order; every other call of the request, every \<open>llama_decode\<close> among them,
  comes after these. The calls of the request are a run of the engine from the state
  the request started in: each call is made in the state the calls before it left and
  returns what the engine returns there, and the state of the engine after the request
  is the one they leave. Let
  \<open>cached\<close> be the sequence ids with cells in the key/value cache of the context, so that
  \<open>llama_memory_seq_rm(mem, seq_id, 0, -1)\<close> takes \<open>seq_id\<close> out of them and
  \<open>llama_set_n_threads\<close> leaves them alone. Then after the sixteen calls, and still when
  the first \<open>llama_decode\<close> of the request is made, no sequence from 0 to 15 has cells in
  the cache, whatever earlier requests left there; the cache is empty when it held
  nothing but such sequences. (The bridge itself decodes with \<open>llama_batch_get_one\<close>,
  which puts every token in sequence 0.) Such a call returns whenever the prompt loop is
  bounded.
\<close>

theorem cache_is_cleared_first:
  fixes cached :: "'w \<Rightarrow> int set"
  assumes "hs jHandle = Some h" and "\<not> handle_rejected hs jHandle"
    and "std_string (GetStringUTFChars env jPrompt) \<noteq> []"
    and "\<And>v s. cached (snd (llama_memory_seq_rm L v (llama_get_memory L (ctx h)) s 0 (- 1)))
                 = cached v - {s}"
    and "\<And>v a b. cached (llama_set_n_threads L v (ctx h) a b) = cached v"
  shows "(prompt_loop_bounded L env h jPrompt \<longrightarrow>
           (\<exists>res w' tr. nativeCompletion L env w hs jHandle jPrompt nThreads maxTokens temp topP
                          seed = Some (Inr (res, w', tr))))
       \<and> (\<forall>res w' tr.
            nativeCompletion L env w hs jHandle jPrompt nThreads maxTokens temp topP seed
              = Some (Inr (res, w', tr))
            \<longrightarrow> (\<exists>rest. tr = map (\<lambda>seq_id. Memory_seq_rm (llama_get_memory L (ctx h)) seq_id 0 (- 1))
                                 [0..15] @ rest)
              \<and> \<not> list_ex is_decode (take 16 tr)
              \<and> w' = replay L tr w \<and> executes L tr w
              \<and> cached (replay L (take 16 tr) w) = cached w - {0..15}
              \<and> cached (replay L (takeWhile (\<lambda>e. \<not> is_decode e) tr) w) = cached w - {0..15}
              \<and> (cached w \<subseteq> {0..15} \<longrightarrow>
                   cached (replay L (takeWhile (\<lambda>e. \<not> is_decode e) tr) w) = {}))"
proof (rule conjI, rule impI)
  assume b: "prompt_loop_bounded L env h jPrompt"
  show "\<exists>res w' tr. nativeCompletion L env w hs jHandle jPrompt nThreads maxTokens temp
      topP seed = Some (Inr (res, w', tr))"
    by (rule nativeCompletion_bounded_returns[where hs = hs and jHandle = jHandle, OF assms(1) b])
next
  show "\<forall>res w' tr.
            nativeCompletion L env w hs jHandle jPrompt nThreads maxTokens temp topP seed
              = Some (Inr (res, w', tr))
            \<longrightarrow> (\<exists>rest. tr = map (\<lambda>seq_id. Memory_seq_rm (llama_get_memory L (ctx h)) seq_id 0 (- 1))
                                 [0..15] @ rest)
              \<and> \<not> list_ex is_decode (take 16 tr)
              \<and> w' = replay L tr w \<and> executes L tr w
              \<and> cached (replay L (take 16 tr) w) = cached w - {0..15}
              \<and> cached (replay L (takeWhile (\<lambda>e. \<not> is_decode e) tr) w) = cached w - {0..15}
              \<and> (cached w \<subseteq> {0..15} \<longrightarrow>
                   cached (replay L (takeWhile (\<lambda>e. \<not> is_decode e) tr) w) = {})"
  proof (intro allI impI)
    fix res w' tr
    assume a: "nativeCompletion L env w hs jHandle jPrompt nThreads maxTokens temp topP seed
              = Some (Inr (res, w', tr))"
    let ?cl = "map (\<lambda>seq_id. Memory_seq_rm (llama_get_memory L (ctx h)) seq_id 0 (- 1)) [0..15]"
    let ?su = "setup_events env nThreads maxTokens temp topP seed (ctx h)"
    have cl: "snd (clear_loop L (ctx h) 0 w) = ?cl" by (simp add: clear_loop_events)
    from a have cp: "complete_prompt L env w h (std_string (GetStringUTFChars env jPrompt))
         nThreads maxTokens temp topP seed = Some (Inr (res, w', tr))"
      using assms(1,2) by (simp add: nativeCompletion_def)
    from cp have "\<exists>rest. tr = snd (clear_loop L (ctx h) 0 w) @ rest"
      using assms(3) by (cases rule: complete_prompt_cases) auto
    then obtain rest where r: "tr = ?cl @ rest" unfolding cl by blast
    have len: "length ?cl = 16" by (simp add: upto_0_15)
    have tk: "take 16 tr = ?cl" unfolding r using len by simp
    have c1: "\<exists>rest. tr = ?cl @ rest" using r by blast
    have c2: "\<not> list_ex is_decode (take 16 tr)" unfolding tk by (simp add: list_ex_iff)
    have c3: "w' = replay L tr w" by (rule nativeCompletion_replay[OF a])
    have c3': "executes L tr w" by (rule nativeCompletion_executes[OF a])
    have cc: "cached (replay L ?cl w) = cached w - {0..15}"
      using replay_seq_rm_cached[where cached = cached and L = L
          and mem = "llama_get_memory L (ctx h)" and xs = "[0..15]" and w = w, OF assms(4)]
      by simp
    have c4: "cached (replay L (take 16 tr) w) = cached w - {0..15}" unfolding tk by (rule cc)
    from complete_prompt_before_decode[OF cp assms(3)] obtain logs where
      lg: "list_all is_log logs"
      and tw: "takeWhile (\<lambda>e. \<not> is_decode e) tr = ?cl @ ?su @ logs"
      unfolding cl by blast
    have c5: "cached (replay L (takeWhile (\<lambda>e. \<not> is_decode e) tr) w) = cached w - {0..15}"
      unfolding tw by (simp add: replay_logs[OF lg] setup_events_replay assms(5) cc)
    have c6: "cached w \<subseteq> {0..15} \<longrightarrow>
                   cached (replay L (takeWhile (\<lambda>e. \<not> is_decode e) tr) w) = {}"
      unfolding c5 by blast
    show "(\<exists>rest. tr = ?cl @ rest) \<and> \<not> list_ex is_decode (take 16 tr) \<and> w' = replay L tr w \<and> executes L tr w
        \<and> cached (replay L (take 16 tr) w) = cached w - {0..15}
        \<and> cached (replay L (takeWhile (\<lambda>e. \<not> is_decode e) tr) w) = cached w - {0..15}
        \<and> (cached w \<subseteq> {0..15} \<longrightarrow>
                   cached (replay L (takeWhile (\<lambda>e. \<not> is_decode e) tr) w) = {})"
      by (intro conjI c1 c2 c3 c3' c4 c5 c6)
  qed
qed

lemma cache_run:
  "nativeCompletion cache_llama toy_host ([0, 7, 20], [104, 2]) toy_handles 4096 ''abc'' 0 5
     (Finite 0) (Finite 0) (- 1) =
   Some (Inr (''h'', ([0, 0, 0, 20], []), toy_setup 5 (Finite 0) (Finite 0) (- 1) @
     [Decode 2 \<lparr>n_tokens = 2, token = [97, 98]\<rparr> 0,
      Decode 2 \<lparr>n_tokens = 1, token = [99]\<rparr> 0,
      Sampler_chain_init 7, Sampler_init_greedy 8, Sampler_chain_add 7 8, Sampler_reset 7,
      Sampler_sample 7 2 (- 1) 104, Sampler_accept 7 104,
      Decode 2 \<lparr>n_tokens = 1, token = [104]\<rparr> 0,
      Sampler_sample 7 2 (- 1) 2, Sampler_free 7]))"
  by code_simp


theorem cache_is_cleared_first_witness:
  "toy_handles 4096 = Some toy_handle \<and> \<not> handle_rejected toy_handles 4096
   \<and> std_string (GetStringUTFChars toy_host ''abc'') \<noteq> []
   \<and> (\<forall>v s. set (fst (snd (llama_memory_seq_rm cache_llama v
                 (llama_get_memory cache_llama (ctx toy_handle)) s 0 (- 1))))
               = set (fst v) - {s})
   \<and> (\<forall>v a b. set (fst (llama_set_n_threads cache_llama v (ctx toy_handle) a b)) = set (fst v))
   \<and> prompt_loop_bounded cache_llama toy_host toy_handle ''abc''
   \<and> (\<exists>res w' tr. nativeCompletion cache_llama toy_host ([0, 7, 20], [104, 2]) toy_handles 4096
                   ''abc'' 0 5 (Finite 0) (Finite 0) (- 1) = Some (Inr (res, w', tr))
          \<and> (\<exists>rest. tr = map (\<lambda>seq_id. Memory_seq_rm 5 seq_id 0 (- 1)) [0..15] @ rest)
          \<and> \<not> list_ex is_decode (take 16 tr)
          \<and> w' = replay cache_llama tr ([0, 7, 20], [104, 2])
          \<and> executes cache_llama tr ([0, 7, 20], [104, 2])
          \<and> w' = ([0, 0, 0, 20], [])
          \<and> set (fst (replay cache_llama (take 16 tr) ([0, 7, 20], [104, 2])))
              = set [0, 7, 20] - {0..15}
          \<and> set (fst (replay cache_llama (takeWhile (\<lambda>e. \<not> is_decode e) tr)
                         ([0, 7, 20], [104, 2])))
              = set [0, 7, 20] - {0..15})
   \<and> fst (replay cache_llama (map (\<lambda>seq_id. Memory_seq_rm 5 seq_id 0 (- 1)) [0..15])
            ([0, 7, 20], [104, 2])) = [20]"
proof -
  have h: "toy_handles 4096 = Some toy_handle" by (simp add: toy_handles_def)
  have r: "\<not> handle_rejected toy_handles 4096"
    by (simp add: handle_rejected_def toy_handles_def toy_handle_def)
  have p: "std_string (GetStringUTFChars toy_host ''abc'') \<noteq> []"
    by (simp add: std_string_def toy_host_def c_str_def)
  have rm: "set (fst (snd (llama_memory_seq_rm cache_llama v
                 (llama_get_memory cache_llama (ctx toy_handle)) s 0 (- 1))))
               = set (fst v) - {s}" for v s
    by (simp add: cache_llama_def)
  have th: "set (fst (llama_set_n_threads cache_llama v (ctx toy_handle) a b)) = set (fst v)"
    for v a b
    by (simp add: cache_llama_def)
  have b: "prompt_loop_bounded cache_llama toy_host toy_handle ''abc''" by code_simp
  have m: "llama_get_memory cache_llama (ctx toy_handle) = 5" by (simp add: cache_llama_def)
  have e: "fst (replay cache_llama (map (\<lambda>seq_id. Memory_seq_rm 5 seq_id 0 (- 1)) [0..15])
            ([0, 7, 20], [104, 2])) = [20]"
    by (simp add: upto_0_15 cache_llama_def)
  note t = cache_is_cleared_first[where hs = toy_handles and jHandle = 4096
      and L = cache_llama and env = toy_host and w = "([0, 7, 20], [104, 2])"
      and jPrompt = "''abc''" and nThreads = 0 and maxTokens = 5 and temp = "Finite 0"
      and topP = "Finite 0" and seed = "- 1" and cached = "\<lambda>v. set (fst v)", OF h r p rm th]
  from t[THEN conjunct2, rule_format, OF cache_run]
  show ?thesis using h r p rm th b e cache_run unfolding m fst_conv by blast
qed

text \<open>
  C6. Take a live handle whose context window is the one \<open>nativeLoadModel\<close> configures
  and an engine that reports the batch size the context was created with, so that
  \<open>n_batch = N = min(512, n_ctx)\<close>; take a prompt that tokenizes into the tokens \<open>toks\<close>,
  few enough for the loop counter not to overflow. Then the call returns, and the
  batches it decoded before it created a sampler chain are the first chunks of \<open>toks\<close>
  split into consecutive chunks of \<open>N\<close> tokens (the last one shorter when \<open>N\<close> does not
  divide the count), in order and each on the handle's context; they are all the chunks
  unless a decode failed. When a decode failed, the call stopped right there: it logged
  the error and returned the empty string.
\<close>

theorem prompt_is_evaluated_in_chunks:
  assumes "hs jHandle = Some h" and "\<not> handle_rejected hs jHandle"
    and "prompt = std_string (GetStringUTFChars env jPrompt)" and "prompt \<noteq> []"
    and "n = count_tokens L (vocab h) prompt" and "0 < n"
    and "0 \<le> sint (fst (fill_tokens L (vocab h) prompt n))"
    and "toks = snd (fill_tokens L (vocab h) prompt n)"
    and "n_ctx h = cp_n_ctx (context_params env jNCtx)"
    and "llama_n_batch L (ctx h) = cp_n_batch (context_params env jNCtx)"
    and "n + 512 < 2 ^ 31"
    and "N = min 512 (unat (n_ctx h))"
  shows "0 < N \<and> concat (spec_chunks N toks) = toks
       \<and> (\<forall>c\<in>set (spec_chunks N toks). 0 < length c \<and> length c \<le> N)
       \<and> (\<exists>res w' tr.
            nativeCompletion L env w hs jHandle jPrompt nThreads maxTokens temp topP seed
              = Some (Inr (res, w', tr))
            \<and> list_all (decode_for (ctx h)) (before_chain_init tr)
            \<and> (\<exists>j\<le>length (spec_chunks N toks).
                  decoded (before_chain_init tr) = take j (spec_chunks N toks))
            \<and> (\<not> list_ex failed_decode (before_chain_init tr) \<longrightarrow>
                  decoded (before_chain_init tr) = spec_chunks N toks)
            \<and> (list_ex failed_decode (before_chain_init tr) \<longrightarrow>
                  res = toJStr env []
                  \<and> (\<exists>pre b rc. tr = pre @ [Decode (ctx h) b rc,
                                     Log ERROR ''llama_decode failed on prompt chunk'' []]
                        \<and> rc \<noteq> 0 \<and> \<not> list_ex failed_decode pre)))"
proof -
  let ?cx = "ctx h"
  have Npos: "0 < N" unfolding assms(12) assms(9) by (rule context_params_n_batch_pos)
  have nb: "sint (llama_n_batch L ?cx) = int N"
    unfolding assms(10) assms(12) assms(9) by (rule context_params_n_batch_sint)
  have nbpos: "0 < sint (llama_n_batch L ?cx)" using Npos nb by simp
  have N512: "int N \<le> 512" unfolding assms(12) by simp
  have fit: "n + sint (llama_n_batch L ?cx) < 2 ^ 31" using assms(11) N512 nb by simp
  have len: "n = int (length toks)"
    using assms(6) unfolding assms(8) by (simp add: fill_tokens_length)
  define cs where "cs = spec_chunks N toks"
  have c1: "concat cs = toks" unfolding cs_def by (rule spec_chunks_concat[OF Npos])
  have c2: "\<forall>c\<in>set cs. 0 < length c \<and> length c \<le> N"
    unfolding cs_def using spec_chunks_sizes by blast
  define e3 where "e3 = snd (clear_loop L ?cx 0 w)
          @ setup_events env nThreads maxTokens temp topP seed ?cx
          @ capacity_check n (predict_of maxTokens) (sint (n_ctx h))"
  define w2 where "w2 = llama_set_n_threads L (fst (clear_loop L ?cx 0 w)) ?cx
             (n_threads_of env nThreads) (n_threads_of env nThreads)"
  define r where "r = spec_evaluate_chunks L ?cx cs w2"
  define e4 where "e4 = snd (snd r)"
  have e3b: "list_all before_sampling e3"
    unfolding e3_def
    by (simp add: clear_loop_before_sampling setup_events_before_sampling
        capacity_check_before_sampling)
  have e3d: "decoded e3 = []" unfolding e3_def by (rule decoded_no_decode[OF setup_no_decode])
  have e3f: "list_all (decode_for ?cx) e3" unfolding e3_def by (rule setup_decode_for)
  from spec_evaluate_chunks_calls[of ?cx L cs w2] obtain j where
    sc: "prompt_end ?cx (fst r) e4" "j \<le> length cs" "decoded e4 = take j cs"
        "fst r \<longrightarrow> j = length cs" "list_all (decode_for ?cx) e4"
    unfolding r_def e4_def by blast
  have nci: "\<not> list_ex is_chain_init (e3 @ e4)"
    using before_sampling_facts(2)[OF e3b] prompt_end_no_chain_init[OF sc(1)] by simp
  have run: "nativeCompletion L env w hs jHandle jPrompt nThreads maxTokens temp topP seed =
      map_option (prepend e3)
        (if \<not> fst r then Some (Inr (toJStr env [], fst (snd r), e4))
         else Some (prepend e4
                (Inr (sample_and_generate L env (fst (snd r)) ?cx (vocab h) maxTokens temp topP
                        seed))))"
  proof -
    have "nativeCompletion L env w hs jHandle jPrompt nThreads maxTokens temp topP seed =
        complete_prompt L env w h prompt nThreads maxTokens temp topP seed"
      using assms(1,2,3) by (simp add: nativeCompletion_def)
    also have "\<dots> = map_option (prepend e3)
        (evaluate_and_generate L env w2 ?cx (vocab h) toks n maxTokens temp topP seed)"
      unfolding e3_def w2_def assms(8) assms(5)
      by (rule complete_prompt_evaluated[OF assms(4) assms(6)[unfolded assms(5)]
            assms(7)[unfolded assms(5)]])
    also have "evaluate_and_generate L env w2 ?cx (vocab h) toks n maxTokens temp topP seed =
        (if \<not> fst r then Some (Inr (toJStr env [], fst (snd r), e4))
         else Some (prepend e4
                (Inr (sample_and_generate L env (fst (snd r)) ?cx (vocab h) maxTokens temp topP
                        seed))))"
      unfolding e4_def
      by (rule evaluate_and_generate_chunks[OF nbpos len fit])
         (simp add: r_def cs_def nb)
    finally show ?thesis .
  qed
  have main: "\<exists>res w' tr.
            nativeCompletion L env w hs jHandle jPrompt nThreads maxTokens temp topP seed
              = Some (Inr (res, w', tr))
            \<and> list_all (decode_for ?cx) (before_chain_init tr)
            \<and> (\<exists>j\<le>length cs. decoded (before_chain_init tr) = take j cs)
            \<and> (\<not> list_ex failed_decode (before_chain_init tr) \<longrightarrow>
                  decoded (before_chain_init tr) = cs)
            \<and> (list_ex failed_decode (before_chain_init tr) \<longrightarrow>
                  res = toJStr env []
                  \<and> (\<exists>pre b rc. tr = pre @ [Decode ?cx b rc,
                                     Log ERROR ''llama_decode failed on prompt chunk'' []]
                        \<and> rc \<noteq> 0 \<and> \<not> list_ex failed_decode pre))"
  proof (cases "fst r")
    case False
    let ?tr = "e3 @ e4"
    have rn: "nativeCompletion L env w hs jHandle jPrompt nThreads maxTokens temp topP seed
        = Some (Inr (toJStr env [], fst (snd r), ?tr))"
      unfolding run using False by (simp add: prepend_def)
    have bci: "before_chain_init ?tr = ?tr" by (rule before_chain_init_none[OF nci])
    from sc(1) False obtain pre b rc where
      p: "e4 = pre @ [Decode ?cx b rc, Log ERROR ''llama_decode failed on prompt chunk'' []]"
         "rc \<noteq> 0" "list_all before_sampling pre"
      unfolding prompt_end_def by auto
    have t: "?tr = (e3 @ pre) @ [Decode ?cx b rc,
        Log ERROR ''llama_decode failed on prompt chunk'' []]"
      unfolding p(1) by simp
    have nf: "\<not> list_ex failed_decode (e3 @ pre)"
      using before_sampling_facts(4)[OF e3b] before_sampling_facts(4)[OF p(3)] by simp
    have fd: "list_ex failed_decode ?tr" unfolding p(1) using p(2) by simp
    have x1: "list_all (decode_for ?cx) (before_chain_init ?tr)"
      unfolding bci using e3f sc(5) by simp
    have x2: "\<exists>j\<le>length cs. decoded (before_chain_init ?tr) = take j cs"
      unfolding bci using sc(2,3) e3d by auto
    have x3: "\<not> list_ex failed_decode (before_chain_init ?tr) \<longrightarrow>
        decoded (before_chain_init ?tr) = cs"
      unfolding bci using fd by simp
    have x4: "list_ex failed_decode (before_chain_init ?tr) \<longrightarrow>
        toJStr env [] = toJStr env []
        \<and> (\<exists>pre b rc. ?tr = pre @ [Decode ?cx b rc,
                                     Log ERROR ''llama_decode failed on prompt chunk'' []]
                        \<and> rc \<noteq> 0 \<and> \<not> list_ex failed_decode pre)"
      using t p(2) nf by blast
    show ?thesis using rn x1 x2 x3 x4 by blast
  next
    case True
    obtain res w' ev where
      sg: "sample_and_generate L env (fst (snd r)) ?cx (vocab h) maxTokens temp topP seed
             = (res, w', ev)"
      using prod_cases3 by blast
    from sample_and_generate_starts[of L env "fst (snd r)" ?cx "vocab h" maxTokens temp topP seed]
    obtain smpl rest where ev: "ev = Sampler_chain_init smpl # rest" unfolding sg by auto
    let ?tr = "(e3 @ e4) @ Sampler_chain_init smpl # rest"
    have rn: "nativeCompletion L env w hs jHandle jPrompt nThreads maxTokens temp topP seed
        = Some (Inr (res, w', ?tr))"
      unfolding run using True sg ev by (simp add: prepend_def)
    have bci: "before_chain_init ?tr = e3 @ e4" by (rule before_chain_init_at[OF nci])
    have nf: "\<not> list_ex failed_decode (e3 @ e4)"
      using before_sampling_facts(4)[OF e3b] prompt_end_failed[OF sc(1)] True by simp
    have j: "j = length cs" using sc(4) True by simp
    have x1: "list_all (decode_for ?cx) (before_chain_init ?tr)"
      unfolding bci using e3f sc(5) by simp
    have d: "decoded (before_chain_init ?tr) = cs"
      unfolding bci using sc(3) e3d j by simp
    have x2: "\<exists>j\<le>length cs. decoded (before_chain_init ?tr) = take j cs"
      unfolding d by (rule exI[of _ "length cs"]) simp
    have x4: "\<not> list_ex failed_decode (before_chain_init ?tr)" unfolding bci by (rule nf)
    show ?thesis using rn x1 x2 d x4 by blast
  qed
  show ?thesis using Npos c1 c2 main unfolding cs_def by blast
qed

lemma toy_run_prompt_fails:
  "nativeCompletion (toy_llama 2) toy_host [104, 105] (toy_handles(4100 \<mapsto> toy_handle\<lparr>n_ctx := 2\<rparr>))
     4100 ''ab!c'' 0 5 (Finite 0) (Finite 0) (- 1) =
   Some (Inr ([], [104, 105], toy_setup 5 (Finite 0) (Finite 0) (- 1) @
     [Log WARN ''Potential context overflow: n_prompt=%d, n_predict=%d, n_ctx=%d''
        [LInt 4, LInt 5, LInt 2],
      Decode 2 \<lparr>n_tokens = 2, token = [97, 98]\<rparr> 0,
      Decode 2 \<lparr>n_tokens = 2, token = [33, 99]\<rparr> 1,
      Log ERROR ''llama_decode failed on prompt chunk'' []]))"
  by code_simp

theorem prompt_is_evaluated_in_chunks_witness:
  "(toy_handles(4100 \<mapsto> toy_handle\<lparr>n_ctx := 2\<rparr>)) 4100 = Some (toy_handle\<lparr>n_ctx := 2\<rparr>)
   \<and> \<not> handle_rejected (toy_handles(4100 \<mapsto> toy_handle\<lparr>n_ctx := 2\<rparr>)) 4100
   \<and> ''ab!c'' = std_string (GetStringUTFChars toy_host ''ab!c'')
   \<and> 4 = count_tokens (toy_llama 2) (vocab (toy_handle\<lparr>n_ctx := 2\<rparr>)) ''ab!c''
   \<and> 0 \<le> sint (fst (fill_tokens (toy_llama 2) (vocab (toy_handle\<lparr>n_ctx := 2\<rparr>)) ''ab!c'' 4))
   \<and> [97, 98, 33, 99] = snd (fill_tokens (toy_llama 2) (vocab (toy_handle\<lparr>n_ctx := 2\<rparr>)) ''ab!c'' 4)
   \<and> n_ctx (toy_handle\<lparr>n_ctx := 2\<rparr>) = cp_n_ctx (context_params toy_host 2)
   \<and> llama_n_batch (toy_llama 2) (ctx (toy_handle\<lparr>n_ctx := 2\<rparr>))
        = cp_n_batch (context_params toy_host 2)
   \<and> (2 :: nat) = min 512 (unat (n_ctx (toy_handle\<lparr>n_ctx := 2\<rparr>)))
   \<and> spec_chunks 2 [97, 98, 33, 99 :: llama_token] = [[97, 98], [33, 99]]
   \<and> (\<exists>w' tr. nativeCompletion (toy_llama 2) toy_host [104, 105]
                  (toy_handles(4100 \<mapsto> toy_handle\<lparr>n_ctx := 2\<rparr>)) 4100 ''ab!c'' 0 5 (Finite 0)
                  (Finite 0) (- 1) = Some (Inr (toJStr toy_host [], w', tr))
          \<and> decoded (before_chain_init tr) = [[97, 98], [33, 99]]
          \<and> list_ex failed_decode (before_chain_init tr))"
proof -
  let ?h = "toy_handle\<lparr>n_ctx := 2\<rparr>"
  let ?hs = "toy_handles(4100 \<mapsto> ?h)"
  let ?tr = "toy_setup 5 (Finite 0) (Finite 0) (- 1) @
     [Log WARN ''Potential context overflow: n_prompt=%d, n_predict=%d, n_ctx=%d''
        [LInt 4, LInt 5, LInt 2],
      Decode 2 \<lparr>n_tokens = 2, token = [97, 98]\<rparr> 0,
      Decode 2 \<lparr>n_tokens = 2, token = [33, 99]\<rparr> 1,
      Log ERROR ''llama_decode failed on prompt chunk'' []]"
  have a1: "?hs 4100 = Some ?h" by simp
  have a2: "\<not> handle_rejected ?hs 4100" by (simp add: handle_rejected_def toy_handle_def)
  have a3: "''ab!c'' = std_string (GetStringUTFChars toy_host ''ab!c'')"
    by (simp add: std_string_def toy_host_def c_str_def)
  have a4: "''ab!c'' \<noteq> []" by simp
  have a5: "4 = count_tokens (toy_llama 2) (vocab ?h) ''ab!c''" by code_simp
  have a6: "(0 :: int) < 4" by simp
  have a7: "0 \<le> sint (fst (fill_tokens (toy_llama 2) (vocab ?h) ''ab!c'' 4))" by code_simp
  have a8: "[97, 98, 33, 99] = snd (fill_tokens (toy_llama 2) (vocab ?h) ''ab!c'' 4)"
    by code_simp
  have a9: "n_ctx ?h = cp_n_ctx (context_params toy_host 2)" by code_simp
  have a10: "llama_n_batch (toy_llama 2) (ctx ?h) = cp_n_batch (context_params toy_host 2)"
    by code_simp
  have a11: "(4 :: int) + 512 < 2 ^ 31" by simp
  have a12: "(2 :: nat) = min 512 (unat (n_ctx ?h))" by simp
  have ch: "spec_chunks 2 [97, 98, 33, 99 :: llama_token] = [[97, 98], [33, 99]]" by code_simp
  have d: "decoded (before_chain_init ?tr) = [[97, 98], [33, 99]]"
    by (simp add: before_chain_init_def toy_setup_def)
  have f: "list_ex failed_decode (before_chain_init ?tr)"
    by (simp add: before_chain_init_def toy_setup_def)
  note t = prompt_is_evaluated_in_chunks[where hs = ?hs and jHandle = 4100 and h = ?h
      and L = "toy_llama 2" and env = toy_host and w = "[104, 105]" and jPrompt = "''ab!c''"
      and prompt = "''ab!c''" and n = 4 and toks = "[97, 98, 33, 99]" and jNCtx = 2 and N = 2
      and nThreads = 0 and maxTokens = 5 and temp = "Finite 0" and topP = "Finite 0"
      and seed = "- 1", OF a1 a2 a3 a4 a5 a6 a7 a8 a9 a10 a11 a12]
  from t obtain res w' tr where
    r: "nativeCompletion (toy_llama 2) toy_host [104, 105] ?hs 4100 ''ab!c'' 0 5 (Finite 0)
          (Finite 0) (- 1) = Some (Inr (res, w', tr))"
    and x: "list_ex failed_decode (before_chain_init tr) \<longrightarrow> res = toJStr toy_host []"
    by blast
  have "tr = ?tr" using r unfolding toy_run_prompt_fails by simp
  then have "res = toJStr toy_host []" using x f by simp
  then have "nativeCompletion (toy_llama 2) toy_host [104, 105] ?hs 4100 ''ab!c'' 0 5 (Finite 0)
          (Finite 0) (- 1) = Some (Inr (toJStr toy_host [], w', ?tr))"
    using r \<open>tr = ?tr\<close> by simp
  then show ?thesis using a1 a2 a3 a5 a7 a8 a9 a10 a12 ch d f by blast
qed

section \<open>The capacity check of a request\<close>

text \<open>
  C7. When the token count of the prompt plus the generation budget plus the margin of 8
  exceeds the context size, the request is not rejected: a warning is logged, and the
  prompt is evaluated and tokens are generated as otherwise. The bridge computes the sum
  \<open>n_prompt + predict + 8\<close> in \<open>int\<close>. With the largest budget a caller can pass,
  \<open>maxTokens = 2147483647\<close>, the sum exceeds the context size, but it does not fit an
  \<open>int\<close>: it wraps below zero, the test is false, and the request runs to its end without
  the warning. The run below is a request of three prompt tokens on a context of 2048.
\<close>

theorem capacity_warning_is_lost_at_the_largest_budget:
  "sint (n_ctx toy_handle)
     < count_tokens (toy_llama 2) (vocab toy_handle) ''abc'' + predict_of 2147483647 + 8
   \<and> capacity_check (count_tokens (toy_llama 2) (vocab toy_handle) ''abc'')
       (predict_of 2147483647) (sint (n_ctx toy_handle)) = []
   \<and> nativeCompletion (toy_llama 2) toy_host [104, 105] toy_handles 4096 ''abc'' 0 2147483647
       (Finite 0) (Finite 0) (- 1) =
     Some (Inr (''hi'', [], toy_setup 2147483647 (Finite 0) (Finite 0) (- 1) @
       [Decode 2 \<lparr>n_tokens = 2, token = [97, 98]\<rparr> 0,
        Decode 2 \<lparr>n_tokens = 1, token = [99]\<rparr> 0,
        Sampler_chain_init 7, Sampler_init_greedy 8, Sampler_chain_add 7 8, Sampler_reset 7,
        Sampler_sample 7 2 (- 1) 104, Sampler_accept 7 104,
        Decode 2 \<lparr>n_tokens = 1, token = [104]\<rparr> 0,
        Sampler_sample 7 2 (- 1) 105, Sampler_accept 7 105,
        Decode 2 \<lparr>n_tokens = 1, token = [105]\<rparr> 0,
        Sampler_sample 7 2 (- 1) 2, Sampler_free 7]))"
  by code_simp

section \<open>Requests that are turned away\<close>

text \<open>
  The handles the validity test turns away. A null handle, or a handle whose
  \<open>LlamaHandle\<close> is live and has a null context, model or vocabulary, makes
  \<open>nativeCompletion\<close> return the empty string: the engine's state is untouched and the
  only call made is the error line of the log. \<open>nativeFree\<close> on the null handle returns
  at once: state and handles are unchanged and no call is made. Neither result is
  undefined behaviour.
\<close>

theorem rejected_handle_is_harmless:
  assumes "jHandle = 0 \<or>
           (\<exists>h. hs jHandle = Some h \<and> (ctx h = 0 \<or> model h = 0 \<or> vocab h = 0))"
  shows "nativeCompletion L env w hs jHandle jPrompt nThreads maxTokens temp topP seed =
           Some (Inr (NewStringUTF env [], w, [Log ERROR ''Invalid handle or context'' []]))
         \<and> nativeFree L w hs 0 = Inr (w, hs, [])"
proof -
  have "handle_rejected hs jHandle" using assms by (auto simp: handle_rejected_def)
  then show ?thesis by (simp add: nativeCompletion_def nativeFree_def toJStr_def c_str_def)
qed

theorem rejected_handle_is_harmless_witness:
  "nativeCompletion (toy_llama 2) toy_host [104, 105] toy_handles 0 ''abc'' 0 5 (Finite 0)
       (Finite 0) (- 1) = Some (Inr ([], [104, 105], [Log ERROR ''Invalid handle or context'' []]))
   \<and> nativeCompletion (toy_llama 2) toy_host [104, 105]
        (toy_handles(8 \<mapsto> toy_handle\<lparr>ctx := 0\<rparr>)) 8 ''abc'' 0 5 (Finite 0) (Finite 0) (- 1)
      = Some (Inr ([], [104, 105], [Log ERROR ''Invalid handle or context'' []]))
   \<and> nativeFree (toy_llama 2) [104, 105] toy_handles 0 = Inr ([104, 105], toy_handles, [])"
proof -
  have a: "(0 :: jlong) = 0 \<or>
           (\<exists>h. toy_handles 0 = Some h \<and> (ctx h = 0 \<or> model h = 0 \<or> vocab h = 0))"
    by simp
  have b: "(8 :: jlong) = 0 \<or>
           (\<exists>h. (toy_handles(8 \<mapsto> toy_handle\<lparr>ctx := 0\<rparr>)) 8 = Some h
                 \<and> (ctx h = 0 \<or> model h = 0 \<or> vocab h = 0))"
    by simp
  show ?thesis
    using rejected_handle_is_harmless[where jHandle = 0 and hs = toy_handles
        and L = "toy_llama 2" and env = toy_host and w = "[104, 105]" and jPrompt = "''abc''"
        and nThreads = 0 and maxTokens = 5 and temp = "Finite 0" and topP = "Finite 0"
        and seed = "- 1", OF a]
      rejected_handle_is_harmless[where jHandle = 8
        and hs = "toy_handles(8 \<mapsto> toy_handle\<lparr>ctx := 0\<rparr>)"
        and L = "toy_llama 2" and env = toy_host and w = "[104, 105]" and jPrompt = "''abc''"
        and nThreads = 0 and maxTokens = 5 and temp = "Finite 0" and topP = "Finite 0"
        and seed = "- 1", OF b]
    by (simp add: toy_host_def)
qed

text \<open>
  C9. A request on a null or invalid handle returns the empty string with no other
  effect, \<open>nativeFree\<close> on a null handle does nothing, and neither crashes. So it is for
  the null handle and for a live handle with a null field, by the theorem above. A
  handle that was freed is invalid as well, and \<open>nativeFree\<close> sets \<open>h->ctx\<close> and
  \<open>h->model\<close> to \<open>nullptr\<close> before \<open>delete h\<close>, which is what the validity test
  \<open>!h || !h->ctx || !h->model || !h->vocab\<close> looks for; but the test reads \<open>h->ctx\<close>
  through the pointer, and the memory is released by then. The run below loads a model,
  frees the handle \<open>nativeLoadModel\<close> returned and makes a request on it: the request
  dereferences the freed handle instead of returning the empty string.
\<close>

theorem freed_handle_is_dereferenced:
  "nativeLoadModel (toy_llama 2) toy_host [104, 105] Map.empty ''m.gguf'' 2048
     = (4096, [104, 105], [4096 \<mapsto> toy_handle],
        [Backend_init, Model_load_from_file ''m.gguf'' 1,
         Init_from_model 1 \<lparr>cp_n_ctx = 2048, cp_n_batch = 512, cp_n_threads = 4,
           cp_no_perf = True\<rparr> 2,
         Log INFO ''Model loaded. n_ctx=%d, n_batch=%u, n_threads=%d''
           [LInt 2048, LUInt 512, LInt 4]])
   \<and> nativeFree (toy_llama 2) [104, 105] [4096 \<mapsto> toy_handle] 4096
     = Inr ([104, 105], [4096 \<mapsto> toy_handle](4096 := None), [Free 2, Model_free 1])
   \<and> nativeCompletion (toy_llama 2) toy_host [104, 105] ([4096 \<mapsto> toy_handle](4096 := None))
       4096 ''abc'' 0 5 (Finite 0) (Finite 0) (- 1) = Some (Inl DanglingHandle)"
  by (simp add: nativeLoadModel_def nativeFree_def nativeCompletion_def handle_rejected_def
      toy_llama_def toy_host_def toy_handle_def context_params_def std_string_def c_str_def
      Let_def s32_def)

text \<open>
  C8. On a live handle that passes the validity test, a prompt with no characters makes
  \<open>nativeCompletion\<close> return the empty string before anything is done to the context:
  the engine's state is the one the call started with, and the only call made is the
  warning line of the log; the cache is not cleared and nothing is decoded.
\<close>

theorem empty_prompt_short_circuits:
  assumes "hs jHandle = Some h" and "\<not> handle_rejected hs jHandle"
    and "std_string (GetStringUTFChars env jPrompt) = []"
  shows "nativeCompletion L env w hs jHandle jPrompt nThreads maxTokens temp topP seed =
           Some (Inr (NewStringUTF env [], w, [Log WARN ''Empty prompt'' []]))"
  using assms by (simp add: nativeCompletion_def complete_prompt_def toJStr_def c_str_def)

theorem empty_prompt_short_circuits_witness:
  "toy_handles 4096 = Some toy_handle \<and> \<not> handle_rejected toy_handles 4096
   \<and> std_string (GetStringUTFChars toy_host []) = []
   \<and> nativeCompletion (toy_llama 2) toy_host [104, 105] toy_handles 4096 [] 0 5 (Finite 0)
       (Finite 0) (- 1) = Some (Inr ([], [104, 105], [Log WARN ''Empty prompt'' []]))"
proof -
  have a: "toy_handles 4096 = Some toy_handle" by (simp add: toy_handles_def)
  have b: "\<not> handle_rejected toy_handles 4096"
    by (simp add: handle_rejected_def toy_handles_def toy_handle_def)
  have c: "std_string (GetStringUTFChars toy_host []) = []"
    by (simp add: std_string_def toy_host_def c_str_def)
  show ?thesis
    using empty_prompt_short_circuits[OF a b c, of "toy_llama 2" "[104, 105]" 0 5 "Finite 0"
        "Finite 0" "- 1"] a b c
    by (simp add: toy_host_def)
qed

section \<open>The generation budget\<close>





end
